theory Spec2Isabelle
  imports Main
begin

section \<open>Configuration, execution client and retrieval job (trino.py, lines 23-99)\<close>

text \<open>
  \<^verbatim>\<open>TrinoOfflineStoreConfig\<close> (lines 23-39) has the selector \<^verbatim>\<open>type = "trino"\<close> and the fields
  below. \<^verbatim>\<open>config.offline_store\<close> may hold a configuration object of another class; such
  an object is kept as the text of its type and its \<^verbatim>\<open>dataset\<close> attribute, when it has one.
\<close>

record TrinoOfflineStoreConfig =
  host :: string
  port :: int
  catalog :: string
  dataset :: string

datatype offline_store_config =
  Trino_config TrinoOfflineStoreConfig
| Other_config string "string option"

record RepoConfig =
  offline_store :: offline_store_config

text \<open>
  The execution client \<^verbatim>\<open>Trino\<close> (imported at line 20) is built by \<^verbatim>\<open>_get_trino_client\<close>
  (lines 252-259) from a user, a catalog, a host and a port.
\<close>

record Trino =
  trino_user :: string
  trino_catalog :: string
  trino_host :: string
  trino_port :: int

definition get_trino_client :: "TrinoOfflineStoreConfig \<Rightarrow> Trino" where
  "get_trino_client c =
     \<lparr>trino_user = ''user'', trino_catalog = catalog c, trino_host = host c, trino_port = port c\<rparr>"

definition project :: "Trino \<Rightarrow> string" where
  \<comment> \<open>Modelled from the spec: the class \<^verbatim>\<open>Trino\<close> of \<^verbatim>\<open>feast_trino.trino_utils\<close> is not among
      the source files, so what its attribute \<^verbatim>\<open>project\<close> (read at line 96) holds is taken
      from the spec's destination name \<^verbatim>\<open><catalog>.<dataset>.historical_...\<close>: the catalog
      the client was built with.\<close>
  "project c = trino_catalog c"

text \<open>
  Errors are values. \<^verbatim>\<open>ValueError\<close> carries its message, \<^verbatim>\<open>InvalidEntityType\<close> the text of
  the type it was raised with, \<^verbatim>\<open>AttributeError\<close> the attribute that was missing;
  \<^verbatim>\<open>ExecutionError\<close> is whatever the engine raises from \<^verbatim>\<open>execute_query\<close>, and
  \<^verbatim>\<open>UtilsError\<close> whatever a helper of \<^verbatim>\<open>feast.infra.offline_stores.offline_utils\<close> raises.
\<close>

datatype error =
  ValueError string
| InvalidEntityType string
| AttributeError string
| ExecutionError string
| UtilsError string

text \<open>SQL values: \<^verbatim>\<open>NULL\<close>, numbers and timestamps (seconds), and text.\<close>

datatype val = Null | IntV int | StrV string

record results =
  data :: "val list list"
  columns_names :: "string list"
  schema :: "(string \<times> string) list"

text \<open>
  The engine answers a statement with rows or with an error; its answer may depend on the
  statements it has executed before. \<^verbatim>\<open>execute_query\<close> sends one statement: the
  statement is appended to the list of the statements executed so far.
\<close>

type_synonym engine = "string list \<Rightarrow> string \<Rightarrow> error + results"

definition execute_query :: "engine \<Rightarrow> string \<Rightarrow> string list \<Rightarrow> (error + results) \<times> string list" where
  "execute_query eng query_text executed = (eng executed query_text, executed @ [query_text])"

record 'odfv TrinoRetrievalJob =
  query :: string
  client :: Trino
  config :: RepoConfig
  full_feature_names :: bool
  on_demand_feature_views :: "'odfv list option"

definition to_sql :: "'odfv TrinoRetrievalJob \<Rightarrow> string" where
  "to_sql job = query job"

subsection \<open>Dates and random identifiers as \<^verbatim>\<open>to_trino\<close> prints them\<close>

definition digit_char :: "nat \<Rightarrow> char" where
  "digit_char d = ''0123456789abcdef'' ! d"

fun fixed_digits :: "nat \<Rightarrow> nat \<Rightarrow> nat \<Rightarrow> string" where
  "fixed_digits b 0 n = []"
| "fixed_digits b (Suc k) n = fixed_digits b k (n div b) @ [digit_char (n mod b)]"

record date =
  year :: nat
  month :: nat
  day :: nat

definition strftime_Ymd :: "date \<Rightarrow> string" where
  \<comment> \<open>\<^verbatim>\<open>strftime("%Y%m%d")\<close> of a date whose year has four digits, as today's has.\<close>
  "strftime_Ymd d = fixed_digits 10 4 (year d) @ fixed_digits 10 2 (month d) @ fixed_digits 10 2 (day d)"

definition str_uuid :: "nat \<Rightarrow> string" where
  \<comment> \<open>\<^verbatim>\<open>str(u)\<close> of a UUID, given as its 128-bit number: 32 hexadecimal digits in groups
      of 8, 4, 4, 4 and 12.\<close>
  "str_uuid u =
     (let h = fixed_digits 16 32 u
      in take 8 h @ ''-'' @ take 4 (drop 8 h) @ ''-'' @ take 4 (drop 12 h) @ ''-'' @
         take 4 (drop 16 h) @ ''-'' @ drop 20 h)"

subsection \<open>\<^verbatim>\<open>TrinoRetrievalJob.to_trino\<close> (lines 79-99)\<close>

definition dataset_attr :: "offline_store_config \<Rightarrow> error + string" where
  "dataset_attr oc =
     (case oc of
        Trino_config c \<Rightarrow> Inr (dataset c)
      | Other_config ty (Some d) \<Rightarrow> Inr d
      | Other_config ty None \<Rightarrow> Inl (AttributeError ''dataset''))"

definition to_trino ::
  "engine \<Rightarrow> date \<Rightarrow> nat \<Rightarrow> 'odfv TrinoRetrievalJob \<Rightarrow> int \<Rightarrow> int \<Rightarrow> string list
   \<Rightarrow> (error + string) \<times> string list" where
  \<comment> \<open>\<^verbatim>\<open>date.today()\<close> and \<^verbatim>\<open>uuid.uuid4()\<close> are inputs: the arguments \<open>today_date\<close> and \<open>uuid4\<close>.\<close>
  "to_trino eng today_date uuid4 job timeout retry_cadence executed =
     (let today = strftime_Ymd today_date;
          rand_id = take 7 (str_uuid uuid4)
      in case dataset_attr (offline_store (config job)) of
           Inl e \<Rightarrow> (Inl e, executed)
         | Inr ds \<Rightarrow>
             (let destination_table =
                    project (client job) @ ''.'' @ ds @ ''.historical_'' @ today @ ''_'' @ rand_id;
                  query_text = ''CREATE TABLE '' @ destination_table @ '' AS ('' @ query job @ '')'';
                  (res, executed') = execute_query eng query_text executed
              in case res of
                   Inl e \<Rightarrow> (Inl e, executed')
                 | Inr r \<Rightarrow> (Inr destination_table, executed')))"

section \<open>The snapshot compiler: \<^verbatim>\<open>pull_latest_from_table_or_query\<close> (lines 104-155)\<close>

text \<open>
  A data source is a \<^verbatim>\<open>TrinoSource\<close>, kept as the text its \<^verbatim>\<open>get_table_query_string()\<close>
  returns, or an object of another class, kept as the text of its type.
\<close>

datatype data_source = TrinoSource string | OtherSource string

text \<open>
  A \<^verbatim>\<open>datetime\<close> is kept as the instant it denotes, in seconds, and the text \<^verbatim>\<open>str()\<close>
  gives for it, which is what the f-string of lines 136-147 interpolates.
\<close>

record datetime =
  instant :: int
  str_datetime :: string

definition join_str :: "string \<Rightarrow> string list \<Rightarrow> string" where
  \<comment> \<open>\<^verbatim>\<open>sep.join(xs)\<close>\<close>
  "join_str sep xs = (case xs of [] \<Rightarrow> [] | y # ys \<Rightarrow> y @ concat (map (\<lambda>z. sep @ z) ys))"

definition truthy :: "string option \<Rightarrow> string option" where
  \<comment> \<open>Python's and Jinja's truth of an optional string: \<^verbatim>\<open>None\<close> and \<^verbatim>\<open>""\<close> are false.\<close>
  "truthy c = (case c of None \<Rightarrow> None | Some s \<Rightarrow> if s = [] then None else Some s)"

definition timestamp_columns :: "string \<Rightarrow> string option \<Rightarrow> string list" where
  "timestamp_columns event_timestamp_column created_timestamp_column =
     [event_timestamp_column] @
     (case truthy created_timestamp_column of None \<Rightarrow> [] | Some c \<Rightarrow> [c])"

definition repr_str :: "string \<Rightarrow> string" where
  \<comment> \<open>\<^verbatim>\<open>repr\<close> of a string that holds no quote, backslash or control character.\<close>
  "repr_str s = [CHR 0x27] @ s @ [CHR 0x27]"

definition nl :: string where
  "nl = [CHR 0x0A]"

definition pull_latest_query_text ::
  "string \<Rightarrow> string \<Rightarrow> string \<Rightarrow> string list \<Rightarrow> string list \<Rightarrow> string \<Rightarrow> string option
   \<Rightarrow> datetime \<Rightarrow> datetime \<Rightarrow> string" where
  \<comment> \<open>Lines 119-147. \<open>DUMMY_ENTITY_ID\<close> and \<open>DUMMY_ENTITY_VAL\<close> are the constants imported
      from \<^verbatim>\<open>feast.feature_view\<close> at line 10.\<close>
  "pull_latest_query_text DUMMY_ENTITY_ID DUMMY_ENTITY_VAL from_expression join_key_columns
     feature_name_columns event_timestamp_column created_timestamp_column start_date end_date =
     (let joined = join_str '', '' join_key_columns;
          partition_by_join_key_string = (if joined \<noteq> [] then ''PARTITION BY '' @ joined else joined);
          ts_columns = timestamp_columns event_timestamp_column created_timestamp_column;
          timestamp_desc_string = join_str '' DESC, '' ts_columns @ '' DESC'';
          field_string = join_str '', '' (join_key_columns @ feature_name_columns @ ts_columns)
      in nl @
         ''            SELECT'' @ nl @
         ''                '' @ field_string @ nl @
         ''                '' @
           (if join_key_columns = []
            then '', '' @ repr_str DUMMY_ENTITY_VAL @ '' AS '' @ DUMMY_ENTITY_ID else []) @ nl @
         ''            FROM ('' @ nl @
         ''                SELECT '' @ field_string @ '','' @ nl @
         ''                ROW_NUMBER() OVER('' @ partition_by_join_key_string @ '' ORDER BY '' @
           timestamp_desc_string @ '') AS _feast_row'' @ nl @
         ''                FROM '' @ from_expression @ nl @
         ''                WHERE '' @ event_timestamp_column @ '' BETWEEN TIMESTAMP '' @
           [CHR 0x27] @ str_datetime start_date @ [CHR 0x27] @ '' AND TIMESTAMP '' @
           [CHR 0x27] @ str_datetime end_date @ [CHR 0x27] @ nl @
         ''            )'' @ nl @
         ''            WHERE _feast_row = 1'' @ nl @
         ''            '')"

definition pull_latest_from_table_or_query ::
  "string \<Rightarrow> string \<Rightarrow> RepoConfig \<Rightarrow> data_source \<Rightarrow> string list \<Rightarrow> string list \<Rightarrow> string
   \<Rightarrow> string option \<Rightarrow> datetime \<Rightarrow> datetime \<Rightarrow> error + 'odfv TrinoRetrievalJob" where
  "pull_latest_from_table_or_query DUMMY_ENTITY_ID DUMMY_ENTITY_VAL cfg data_source
     join_key_columns feature_name_columns event_timestamp_column created_timestamp_column
     start_date end_date =
     (case data_source of
        OtherSource ty \<Rightarrow>
          Inl (ValueError (''The data_source object is not a TrinoSource but is instead '' @
                 [CHR 0x27] @ ty @ [CHR 0x27]))
      | TrinoSource from_expression \<Rightarrow>
          (case offline_store cfg of
             Other_config ty d \<Rightarrow>
               Inl (ValueError
                 (''The config.offline_store object is not a TrinoOfflineStoreConfig but is instead '' @
                  [CHR 0x27] @ ty @ [CHR 0x27]))
           | Trino_config c \<Rightarrow>
               Inr \<lparr>query = pull_latest_query_text DUMMY_ENTITY_ID DUMMY_ENTITY_VAL from_expression
                              join_key_columns feature_name_columns event_timestamp_column
                              created_timestamp_column start_date end_date,
                    client = get_trino_client c,
                    config = cfg,
                    full_feature_names = False,
                    on_demand_feature_views = None\<rparr>))"

section \<open>The point-in-time entry point: \<^verbatim>\<open>get_historical_features\<close> (lines 158-246)\<close>

text \<open>
  The entity table is a \<^verbatim>\<open>str\<close> (a reference query), a \<^verbatim>\<open>pandas.DataFrame\<close> (kept as its
  cells), or an object of another type (kept as the text of its type).
\<close>

datatype entity_df = Entity_query string | Entity_DataFrame "val list list" | Entity_other string

definition type_text :: "entity_df \<Rightarrow> string" where
  \<comment> \<open>the text of \<^verbatim>\<open>type(entity_df)\<close>\<close>
  "type_text e =
     (case e of
        Entity_query q \<Rightarrow> ''<class '' @ [CHR 0x27] @ ''str'' @ [CHR 0x27] @ ''>''
      | Entity_DataFrame d \<Rightarrow>
          ''<class '' @ [CHR 0x27] @ ''pandas.core.frame.DataFrame'' @ [CHR 0x27] @ ''>''
      | Entity_other ty \<Rightarrow> ty)"

text \<open>
  What the function calls outside this file: the helpers of
  \<^verbatim>\<open>feast.infra.offline_stores.offline_utils\<close>, \<^verbatim>\<open>OnDemandFeatureView.get_requested_odfvs\<close>
  and, in \<open>pandas_dtypes\<close>, what lines 236-240 compute with pandas from the rows the engine
  returned (the column types of the data frame, timestamps converted). Each is an input of
  the model; \<open>build_point_in_time_query\<close> is given the template of lines 262-413.
\<close>

record ('fv, 'reg, 'odfv, 'ctx) collaborators =
  get_temp_entity_table_name :: string
  pandas_dtypes :: "results \<Rightarrow> (string \<times> string) list"
  infer_event_timestamp_from_entity_df :: "(string \<times> string) list \<Rightarrow> error + string"
  get_expected_join_keys :: "string \<Rightarrow> 'fv list \<Rightarrow> 'reg \<Rightarrow> error + string list"
  assert_expected_columns_in_entity_df ::
    "(string \<times> string) list \<Rightarrow> string list \<Rightarrow> string \<Rightarrow> error + unit"
  get_feature_view_query_context ::
    "string list \<Rightarrow> 'fv list \<Rightarrow> 'reg \<Rightarrow> string \<Rightarrow> error + 'ctx list"
  build_point_in_time_query ::
    "'ctx list \<Rightarrow> string \<Rightarrow> string \<Rightarrow> string list \<Rightarrow> bool \<Rightarrow> error + string"
  get_requested_odfvs :: "string list \<Rightarrow> string \<Rightarrow> 'reg \<Rightarrow> error + 'odfv list"

definition get_table_reference_for_new_entity ::
  "('fv, 'reg, 'odfv, 'ctx) collaborators \<Rightarrow> string \<Rightarrow> string \<Rightarrow> string" where
  "get_table_reference_for_new_entity env catalog_name dataset_name =
     catalog_name @ ''.'' @ dataset_name @ ''.'' @ get_temp_entity_table_name env"

definition upload_entity_df_and_get_entity_schema ::
  "('fv, 'reg, 'odfv, 'ctx) collaborators \<Rightarrow> engine \<Rightarrow> string \<Rightarrow> entity_df \<Rightarrow> string list
   \<Rightarrow> (error + (string \<times> string) list) \<times> string list" where
  "upload_entity_df_and_get_entity_schema env eng table_name e executed =
     (case e of
        Entity_query q \<Rightarrow>
          (let (r1, executed1) =
                 execute_query eng (''CREATE TABLE '' @ table_name @ '' AS ('' @ q @ '')'') executed
           in case r1 of
                Inl err \<Rightarrow> (Inl err, executed1)
              | Inr created \<Rightarrow>
                  (let (r2, executed2) =
                         execute_query eng (''SELECT * FROM '' @ table_name @ '' LIMIT 1'') executed1
                   in case r2 of
                        Inl err \<Rightarrow> (Inl err, executed2)
                      | Inr res \<Rightarrow> (Inr (pandas_dtypes env res), executed2)))
      | Entity_DataFrame d \<Rightarrow> (Inl (InvalidEntityType (type_text e)), executed)
      | Entity_other ty \<Rightarrow> (Inl (InvalidEntityType (type_text e)), executed))"

definition bind_error :: "error + 'a \<Rightarrow> ('a \<Rightarrow> error + 'b) \<Rightarrow> error + 'b" where
  "bind_error r f = (case r of Inl e \<Rightarrow> Inl e | Inr x \<Rightarrow> f x)"

definition get_historical_features ::
  "('fv, 'reg, 'odfv, 'ctx) collaborators \<Rightarrow> engine \<Rightarrow> RepoConfig \<Rightarrow> 'fv list \<Rightarrow> string list
   \<Rightarrow> entity_df \<Rightarrow> 'reg \<Rightarrow> string \<Rightarrow> bool \<Rightarrow> string list
   \<Rightarrow> (error + 'odfv TrinoRetrievalJob) \<times> string list" where
  "get_historical_features env eng cfg feature_views feature_refs e registry proj full_names executed =
     (case offline_store cfg of
        Other_config ty d \<Rightarrow>
          (Inl (ValueError
             (''This function should be used with a TrinoOfflineStoreConfig object. '' @
              ''Instead we have config.offline_store being '' @
              [CHR 0x27] @ ''{type(config.offline_store)}'' @ [CHR 0x27])), executed)
      | Trino_config c \<Rightarrow>
          (let trino_client = get_trino_client c;
               table_reference = get_table_reference_for_new_entity env (catalog c) (dataset c);
               (uploaded, executed') =
                 upload_entity_df_and_get_entity_schema env eng table_reference e executed
           in (bind_error uploaded (\<lambda>entity_schema.
               bind_error (infer_event_timestamp_from_entity_df env entity_schema) (\<lambda>ts_col.
               bind_error (get_expected_join_keys env proj feature_views registry) (\<lambda>expected_join_keys.
               bind_error (assert_expected_columns_in_entity_df env entity_schema expected_join_keys ts_col) (\<lambda>u.
               bind_error (get_feature_view_query_context env feature_refs feature_views registry proj) (\<lambda>query_context.
               bind_error (build_point_in_time_query env query_context table_reference ts_col
                             (map fst entity_schema) full_names) (\<lambda>q.
               bind_error (get_requested_odfvs env feature_refs proj registry) (\<lambda>odfvs.
               Inr \<lparr>query = q, client = trino_client, config = cfg,
                    full_feature_names = full_names,
                    on_demand_feature_views = Some odfvs\<rparr>))))))),
               executed')))"

section \<open>SQL values and operators as the compiled queries use them\<close>

text \<open>
  A row gives every column name a value (\<open>Null\<close> for a column it does not have); a table
  is a list of rows, in the order the engine happens to hold them. A database gives the rows
  of every table expression (a table name or a nested query text).
\<close>

type_synonym row = "string \<Rightarrow> val"
type_synonym table = "row list"
type_synonym database = "string \<Rightarrow> table"

text \<open>
  Comparisons are three-valued: \<open>None\<close> is SQL's \<^verbatim>\<open>UNKNOWN\<close>, the result of comparing with
  \<^verbatim>\<open>NULL\<close> (and, here, of comparing a number with a text). A \<^verbatim>\<open>WHERE\<close> or \<^verbatim>\<open>ON\<close> keeps a row
  only when its condition is true.
\<close>

fun sql_eq :: "val \<Rightarrow> val \<Rightarrow> bool option" where
  "sql_eq (IntV a) (IntV b) = Some (a = b)"
| "sql_eq (StrV a) (StrV b) = Some (a = b)"
| "sql_eq a b = None"

fun sql_le :: "val \<Rightarrow> val \<Rightarrow> bool option" where
  "sql_le (IntV a) (IntV b) = Some (a \<le> b)"
| "sql_le a b = None"

definition sql_ge :: "val \<Rightarrow> val \<Rightarrow> bool option" where
  "sql_ge a b = sql_le b a"

fun sql_and :: "bool option \<Rightarrow> bool option \<Rightarrow> bool option" where
  "sql_and (Some False) q = Some False"
| "sql_and p (Some False) = Some False"
| "sql_and (Some True) (Some True) = Some True"
| "sql_and p q = None"

definition sql_conj :: "bool option list \<Rightarrow> bool option" where
  \<comment> \<open>\<^verbatim>\<open>TRUE AND c1 AND c2 AND ...\<close>\<close>
  "sql_conj cs = foldl sql_and (Some True) cs"

definition holds :: "bool option \<Rightarrow> bool" where
  "holds c = (c = Some True)"

definition sql_between :: "val \<Rightarrow> val \<Rightarrow> val \<Rightarrow> bool option" where
  \<comment> \<open>\<^verbatim>\<open>x BETWEEN lo AND hi\<close>\<close>
  "sql_between x lo hi = sql_and (sql_ge x lo) (sql_le x hi)"

fun minus_seconds :: "val \<Rightarrow> int \<Rightarrow> val" where
  \<comment> \<open>\<^verbatim>\<open>t - interval 'n' second\<close>\<close>
  "minus_seconds (IntV t) n = IntV (t - n)"
| "minus_seconds v n = Null"

fun str_nat :: "nat \<Rightarrow> string" where
  "str_nat n = (if n < 10 then [digit_char n] else str_nat (n div 10) @ [digit_char (n mod 10)])"

definition str_int :: "int \<Rightarrow> string" where
  "str_int i = (if i < 0 then ''-'' @ str_nat (nat (- i)) else str_nat (nat i))"

fun cast_varchar :: "val \<Rightarrow> val" where
  \<comment> \<open>\<^verbatim>\<open>CAST(x AS VARCHAR)\<close>; a number is printed in decimal.\<close>
  "cast_varchar Null = Null"
| "cast_varchar (IntV i) = StrV (str_int i)"
| "cast_varchar (StrV s) = StrV s"

fun text_of :: "val \<Rightarrow> string option" where
  "text_of (StrV s) = Some s"
| "text_of v = None"

definition sql_concat :: "val list \<Rightarrow> val" where
  \<comment> \<open>\<^verbatim>\<open>CONCAT(x1, ..., xn)\<close> of texts: \<^verbatim>\<open>NULL\<close> as soon as one argument is.\<close>
  "sql_concat vs =
     (if list_all (\<lambda>v. text_of v \<noteq> None) vs then StrV (concat (map (\<lambda>v. the (text_of v)) vs))
      else Null)"

fun ints_of :: "val list \<Rightarrow> int list" where
  "ints_of [] = []"
| "ints_of (IntV i # vs) = i # ints_of vs"
| "ints_of (v # vs) = ints_of vs"

definition sql_max :: "val list \<Rightarrow> val" where
  \<comment> \<open>the aggregate \<^verbatim>\<open>MAX\<close> of a timestamp column: \<^verbatim>\<open>NULL\<close>s are skipped, and the result is
      \<^verbatim>\<open>NULL\<close> when nothing is left.\<close>
  "sql_max vs = (case ints_of vs of [] \<Rightarrow> Null | i # is \<Rightarrow> IntV (fold max is i))"

definition sql_min :: "val list \<Rightarrow> val" where
  "sql_min vs = (case ints_of vs of [] \<Rightarrow> Null | i # is \<Rightarrow> IntV (fold min is i))"

subsection \<open>Rows, joins, grouping and \<^verbatim>\<open>ROW_NUMBER\<close>\<close>

definition with_columns :: "row \<Rightarrow> (string \<times> val) list \<Rightarrow> row" where
  \<comment> \<open>\<^verbatim>\<open>SELECT r.*, v1 AS c1, v2 AS c2, ...\<close>\<close>
  "with_columns r kvs = (\<lambda>c. case map_of kvs c of Some v \<Rightarrow> v | None \<Rightarrow> r c)"

definition row_of :: "(string \<times> val) list \<Rightarrow> row" where
  \<comment> \<open>\<^verbatim>\<open>SELECT v1 AS c1, v2 AS c2, ...\<close>\<close>
  "row_of kvs = with_columns (\<lambda>c. Null) kvs"

definition groups :: "(row \<Rightarrow> 'k) \<Rightarrow> table \<Rightarrow> ('k \<times> table) list" where
  \<comment> \<open>\<^verbatim>\<open>GROUP BY\<close> and \<^verbatim>\<open>PARTITION BY\<close>: \<^verbatim>\<open>NULL\<close> keys fall into one group.\<close>
  "groups key rows = map (\<lambda>k. (k, filter (\<lambda>r. key r = k) rows)) (remdups (map key rows))"

definition using_match :: "string list \<Rightarrow> row \<Rightarrow> row \<Rightarrow> bool" where
  \<comment> \<open>the condition of \<^verbatim>\<open>USING (c1, ..., cn)\<close>: \<^verbatim>\<open>a.c = b.c\<close> is true for each column.\<close>
  "using_match cols a b = list_all (\<lambda>c. holds (sql_eq (a c) (b c))) cols"

definition inner_join_on :: "(row \<Rightarrow> row \<Rightarrow> bool option) \<Rightarrow> (row \<Rightarrow> row \<Rightarrow> row) \<Rightarrow> table \<Rightarrow> table \<Rightarrow> table" where
  "inner_join_on cond sel A B =
     concat (map (\<lambda>a. map (sel a) (filter (\<lambda>b. holds (cond a b)) B)) A)"

definition inner_join_using :: "string list \<Rightarrow> string list \<Rightarrow> table \<Rightarrow> table \<Rightarrow> table" where
  \<comment> \<open>\<^verbatim>\<open>A INNER JOIN B USING (cols)\<close>; \<open>extra\<close> are the columns of \<open>B\<close> outside \<open>cols\<close>.\<close>
  "inner_join_using cols extra A B =
     concat (map (\<lambda>a. map (\<lambda>b. with_columns a (map (\<lambda>k. (k, b k)) extra))
                          (filter (using_match cols a) B)) A)"

definition left_join_using :: "string list \<Rightarrow> string list \<Rightarrow> table \<Rightarrow> table \<Rightarrow> table" where
  \<comment> \<open>\<^verbatim>\<open>A LEFT JOIN B USING (cols)\<close>: a row of \<open>A\<close> without a match is kept once, with the
      columns of \<open>B\<close> \<^verbatim>\<open>NULL\<close>.\<close>
  "left_join_using cols extra A B =
     concat (map (\<lambda>a. case filter (using_match cols a) B of
                         [] \<Rightarrow> [with_columns a (map (\<lambda>k. (k, Null)) extra)]
                       | m # ms \<Rightarrow> map (\<lambda>b. with_columns a (map (\<lambda>k. (k, b k)) extra)) (m # ms)) A)"

text \<open>
  \<^verbatim>\<open>ORDER BY c1 DESC, c2 DESC, ...\<close> on timestamp columns. Trino puts \<^verbatim>\<open>NULL\<close> last;
  \<open>desc_before a b\<close> says that \<open>a\<close> comes strictly before \<open>b\<close>. Rows that tie keep the order
  in which the engine holds them, which is any order: the table is an arbitrary list.
\<close>

fun desc_before :: "val \<Rightarrow> val \<Rightarrow> bool" where
  "desc_before (IntV a) (IntV b) = (b < a)"
| "desc_before (IntV a) v = True"
| "desc_before u v = False"

fun order_desc_le :: "string list \<Rightarrow> row \<Rightarrow> row \<Rightarrow> bool" where
  "order_desc_le [] a b = True"
| "order_desc_le (c # cs) a b =
     (desc_before (a c) (b c) \<or> (\<not> desc_before (b c) (a c) \<and> order_desc_le cs a b))"

fun insort_by :: "('a \<Rightarrow> 'a \<Rightarrow> bool) \<Rightarrow> 'a \<Rightarrow> 'a list \<Rightarrow> 'a list" where
  "insort_by le x [] = [x]"
| "insort_by le x (y # ys) = (if le x y then x # y # ys else y # insort_by le x ys)"

definition order_by :: "('a \<Rightarrow> 'a \<Rightarrow> bool) \<Rightarrow> 'a list \<Rightarrow> 'a list" where
  "order_by le xs = foldr (insort_by le) xs []"

definition row_number_over :: "string \<Rightarrow> (row \<Rightarrow> 'k) \<Rightarrow> (row \<Rightarrow> row \<Rightarrow> bool) \<Rightarrow> table \<Rightarrow> table" where
  \<comment> \<open>\<^verbatim>\<open>SELECT *, ROW_NUMBER() OVER (PARTITION BY key ORDER BY ...) AS col\<close>\<close>
  "row_number_over col key le rows =
     concat (map (\<lambda>(k, g). map (\<lambda>(r, n). with_columns r [(col, IntV (int n))])
                               (zip (order_by le g) [1 ..< Suc (length g)]))
                 (groups key rows))"

definition first_rows :: "(row \<Rightarrow> 'k) \<Rightarrow> string list \<Rightarrow> table \<Rightarrow> table" where
  \<comment> \<open>the row that comes first in each partition, which \<^verbatim>\<open>ROW_NUMBER\<close> numbers 1\<close>
  "first_rows key cols rows = map (\<lambda>(k, g). hd (order_by (order_desc_le cols) g)) (groups key rows)"

section \<open>The snapshot query of \<^verbatim>\<open>pull_latest_from_table_or_query\<close> (lines 119-147), as rows\<close>

text \<open>
  The statement of lines 136-147 has eight holes. \<open>snapshot_query_of\<close> fills them as lines
  119-132 and the conditional of line 139 do, \<open>render_snapshot\<close> writes the statement out as
  the f-string does, and \<open>run_snapshot\<close> is what the statement selects from a database.
\<close>

record snapshot_query =
  sq_fields :: "string list"
  sq_dummy :: "(string \<times> string) option"
  sq_partition_by :: "string list"
  sq_order_by_desc :: "string list"
  sq_from :: string
  sq_between :: string
  sq_start :: datetime
  sq_end :: datetime

definition snapshot_query_of ::
  "string \<Rightarrow> string \<Rightarrow> string \<Rightarrow> string list \<Rightarrow> string list \<Rightarrow> string \<Rightarrow> string option
   \<Rightarrow> datetime \<Rightarrow> datetime \<Rightarrow> snapshot_query" where
  \<comment> \<open>lines 119-132: \<open>sq_fields\<close> is joined into \<^verbatim>\<open>field_string\<close>, \<open>sq_partition_by\<close> into
      \<^verbatim>\<open>partition_by_join_key_string\<close> (empty when the joined join keys are the empty
      text), \<open>sq_order_by_desc\<close> into \<^verbatim>\<open>timestamp_desc_string\<close>; \<open>sq_dummy\<close> is the
      literal of line 139, there when \<^verbatim>\<open>not join_key_columns\<close>.\<close>
  "snapshot_query_of DUMMY_ENTITY_ID DUMMY_ENTITY_VAL from_expression join_key_columns
     feature_name_columns event_timestamp_column created_timestamp_column start_date end_date =
     (let ts_columns = timestamp_columns event_timestamp_column created_timestamp_column
      in \<lparr>sq_fields = join_key_columns @ feature_name_columns @ ts_columns,
          sq_dummy = (if join_key_columns = [] then Some (DUMMY_ENTITY_VAL, DUMMY_ENTITY_ID)
                      else None),
          sq_partition_by = (if join_str '', '' join_key_columns \<noteq> [] then join_key_columns else []),
          sq_order_by_desc = ts_columns,
          sq_from = from_expression,
          sq_between = event_timestamp_column,
          sq_start = start_date,
          sq_end = end_date\<rparr>)"

definition render_snapshot :: "snapshot_query \<Rightarrow> string" where
  \<comment> \<open>lines 136-147, character by character\<close>
  "render_snapshot q =
     (let field_string = join_str '', '' (sq_fields q)
      in nl @
         ''            SELECT'' @ nl @
         ''                '' @ field_string @ nl @
         ''                '' @
           (case sq_dummy q of
              None \<Rightarrow> []
            | Some (v, n) \<Rightarrow> '', '' @ repr_str v @ '' AS '' @ n) @ nl @
         ''            FROM ('' @ nl @
         ''                SELECT '' @ field_string @ '','' @ nl @
         ''                ROW_NUMBER() OVER('' @
           (if sq_partition_by q = [] then []
            else ''PARTITION BY '' @ join_str '', '' (sq_partition_by q)) @
           '' ORDER BY '' @ join_str '' DESC, '' (sq_order_by_desc q) @ '' DESC'' @
           '') AS _feast_row'' @ nl @
         ''                FROM '' @ sq_from q @ nl @
         ''                WHERE '' @ sq_between q @ '' BETWEEN TIMESTAMP '' @
           [CHR 0x27] @ str_datetime (sq_start q) @ [CHR 0x27] @ '' AND TIMESTAMP '' @
           [CHR 0x27] @ str_datetime (sq_end q) @ [CHR 0x27] @ nl @
         ''            )'' @ nl @
         ''            WHERE _feast_row = 1'' @ nl @
         ''            '')"

definition run_snapshot :: "database \<Rightarrow> snapshot_query \<Rightarrow> table" where
  \<comment> \<open>The inner query filters the rows of \<^verbatim>\<open>from_expression\<close>, numbers them and projects;
      the outer keeps the rows numbered 1, projects again and adds the literal column.\<close>
  "run_snapshot db q =
     (let numbered =
            map (\<lambda>r. row_of (map (\<lambda>c. (c, r c)) (sq_fields q @ [''_feast_row''])))
              (row_number_over ''_feast_row'' (\<lambda>r. map r (sq_partition_by q))
                 (order_desc_le (sq_order_by_desc q))
                 (filter (\<lambda>r. holds (sql_between (r (sq_between q))
                                        (IntV (instant (sq_start q))) (IntV (instant (sq_end q)))))
                    (db (sq_from q))))
      in map (\<lambda>r. row_of (map (\<lambda>c. (c, r c)) (sq_fields q) @
                            (case sq_dummy q of None \<Rightarrow> [] | Some (v, n) \<Rightarrow> [(n, StrV v)])))
           (filter (\<lambda>r. holds (sql_eq (r ''_feast_row'') (IntV 1))) numbered))"

definition pull_latest_rows ::
  "string \<Rightarrow> string \<Rightarrow> database \<Rightarrow> string \<Rightarrow> string list \<Rightarrow> string list \<Rightarrow> string
   \<Rightarrow> string option \<Rightarrow> datetime \<Rightarrow> datetime \<Rightarrow> table" where
  \<comment> \<open>the rows of the query that \<^verbatim>\<open>pull_latest_from_table_or_query\<close> compiles\<close>
  "pull_latest_rows DUMMY_ENTITY_ID DUMMY_ENTITY_VAL db from_expression join_key_columns
     feature_name_columns event_timestamp_column created_timestamp_column start_date end_date =
     run_snapshot db
       (snapshot_query_of DUMMY_ENTITY_ID DUMMY_ENTITY_VAL from_expression join_key_columns
          feature_name_columns event_timestamp_column created_timestamp_column start_date end_date)"

section \<open>The point-in-time join: the template of lines 262-413, as rows\<close>

text \<open>
  The context of one feature view, as the template reads it. An entry \<open>(c, k)\<close> of
  \<open>entity_selections\<close> is the select expression \<^verbatim>\<open>c AS k\<close>; \<open>ttl\<close> is in seconds.
\<close>

record featureview =
  name :: string
  entities :: "string list"
  features :: "string list"
  event_timestamp_column :: string
  created_timestamp_column :: "string option"
  ttl :: int
  entity_selections :: "(string \<times> string) list"
  table_subquery :: string

definition uid_col :: "featureview \<Rightarrow> string" where
  "uid_col fv = name fv @ ''__entity_row_unique_id''"

definition feature_alias :: "bool \<Rightarrow> featureview \<Rightarrow> string \<Rightarrow> string" where
  \<comment> \<open>lines 316 and 408\<close>
  "feature_alias full_names fv feature = (if full_names then name fv @ ''__'' @ feature else feature)"

definition entity_row_unique_id :: "string \<Rightarrow> featureview \<Rightarrow> row \<Rightarrow> val" where
  \<comment> \<open>lines 271-280\<close>
  "entity_row_unique_id ts_col fv r =
     (if entities fv \<noteq> []
      then sql_concat (map (\<lambda>entity. cast_varchar (r entity)) (entities fv) @ [cast_varchar (r ts_col)])
      else cast_varchar (r ts_col))"

definition entity_dataframe :: "string \<Rightarrow> featureview list \<Rightarrow> table \<Rightarrow> table" where
  \<comment> \<open>lines 267-283; \<open>left_table\<close> holds the rows of \<^verbatim>\<open>left_table_query_string\<close>.\<close>
  "entity_dataframe ts_col featureviews left_table =
     map (\<lambda>r. with_columns r
                 ((''entity_timestamp'', r ts_col) #
                  map (\<lambda>fv. (uid_col fv, entity_row_unique_id ts_col fv r)) featureviews))
         left_table"

definition fv_entity_dataframe :: "featureview \<Rightarrow> table \<Rightarrow> table" where
  \<comment> \<open>lines 285-295: the request rows of one feature view, without duplicates\<close>
  "fv_entity_dataframe fv ed =
     (let cols = entities fv @ [''entity_timestamp'', uid_col fv]
      in map (\<lambda>vs. row_of (zip cols vs)) (remdups (map (\<lambda>r. map r cols) ed)))"

definition subquery_where :: "featureview \<Rightarrow> table \<Rightarrow> row \<Rightarrow> bool option" where
  \<comment> \<open>lines 319-322\<close>
  "subquery_where fv ed s =
     (let upper = sql_le (s (event_timestamp_column fv)) (sql_max (map (\<lambda>r. r ''entity_timestamp'') ed))
      in if ttl fv = 0 then upper
         else sql_and upper
                (sql_ge (s (event_timestamp_column fv))
                   (minus_seconds (sql_min (map (\<lambda>r. r ''entity_timestamp'') ed)) (ttl fv))))"

definition subquery_row :: "bool \<Rightarrow> featureview \<Rightarrow> row \<Rightarrow> row" where
  \<comment> \<open>lines 311-317\<close>
  "subquery_row full_names fv s =
     row_of ([(''event_timestamp'', s (event_timestamp_column fv))] @
             (case truthy (created_timestamp_column fv) of
                None \<Rightarrow> []
              | Some c \<Rightarrow> [(''created_timestamp'', s c)]) @
             map (\<lambda>(c, k). (k, s c)) (entity_selections fv) @
             map (\<lambda>feature. (feature_alias full_names fv feature, s feature)) (features fv))"

definition fv_subquery :: "bool \<Rightarrow> featureview \<Rightarrow> table \<Rightarrow> table \<Rightarrow> table" where
  \<comment> \<open>lines 310-323; \<open>source\<close> holds the rows of \<^verbatim>\<open>featureview.table_subquery\<close>.\<close>
  "fv_subquery full_names fv ed source =
     map (subquery_row full_names fv) (filter (\<lambda>s. holds (subquery_where fv ed s)) source)"

definition base_on :: "featureview \<Rightarrow> row \<Rightarrow> row \<Rightarrow> bool option" where
  \<comment> \<open>lines 331-338\<close>
  "base_on fv sub e =
     sql_conj ([sql_le (sub ''event_timestamp'') (e ''entity_timestamp'')] @
               (if ttl fv = 0 then []
                else [sql_ge (sub ''event_timestamp'')
                        (minus_seconds (e ''entity_timestamp'') (ttl fv))]) @
               map (\<lambda>entity. sql_eq (sub entity) (e entity)) (entities fv))"

definition fv_base :: "featureview \<Rightarrow> table \<Rightarrow> table \<Rightarrow> table" where
  \<comment> \<open>lines 324-339\<close>
  "fv_base fv subquery fv_ed =
     inner_join_on (base_on fv)
       (\<lambda>sub e. with_columns sub [(''entity_timestamp'', e ''entity_timestamp''),
                                   (uid_col fv, e (uid_col fv))])
       subquery fv_ed"

definition fv_dedup :: "featureview \<Rightarrow> table \<Rightarrow> table" where
  \<comment> \<open>lines 347-354\<close>
  "fv_dedup fv base =
     map (\<lambda>((u, t), g). row_of [(uid_col fv, u), (''event_timestamp'', t),
                                 (''created_timestamp'', sql_max (map (\<lambda>r. r ''created_timestamp'') g))])
         (groups (\<lambda>r. (r (uid_col fv), r ''event_timestamp'')) base)"

definition fv_latest :: "featureview \<Rightarrow> table \<Rightarrow> table" where
  \<comment> \<open>lines 360-379\<close>
  "fv_latest fv base =
     (case truthy (created_timestamp_column fv) of
        None \<Rightarrow>
          map (\<lambda>r. row_of [(''event_timestamp'', r ''event_timestamp''), (uid_col fv, r (uid_col fv))])
            (filter (\<lambda>r. holds (sql_eq (r ''row_number'') (IntV 1)))
               (row_number_over ''row_number'' (\<lambda>r. r (uid_col fv))
                  (order_desc_le [''event_timestamp'']) base))
      | Some c \<Rightarrow>
          map (\<lambda>r. row_of [(''event_timestamp'', r ''event_timestamp''),
                            (''created_timestamp'', r ''created_timestamp''),
                            (uid_col fv, r (uid_col fv))])
            (filter (\<lambda>r. holds (sql_eq (r ''row_number'') (IntV 1)))
               (row_number_over ''row_number'' (\<lambda>r. r (uid_col fv))
                  (order_desc_le [''event_timestamp'', ''created_timestamp''])
                  (inner_join_using [uid_col fv, ''event_timestamp'', ''created_timestamp''] []
                     base (fv_dedup fv base)))))"

definition without_columns :: "row \<Rightarrow> string list \<Rightarrow> row" where
  \<comment> \<open>a row that no longer has the columns \<open>cols\<close>\<close>
  "without_columns r cols = (\<lambda>c. if c \<in> set cols then Null else r c)"

definition cleaned_using :: "featureview \<Rightarrow> string list" where
  \<comment> \<open>lines 388-394\<close>
  "cleaned_using fv =
     [uid_col fv, ''event_timestamp''] @
     (case truthy (created_timestamp_column fv) of None \<Rightarrow> [] | Some c \<Rightarrow> [''created_timestamp''])"

definition cleaned_join :: "featureview \<Rightarrow> table \<Rightarrow> table" where
  \<comment> \<open>lines 386-394: the rows of \<^verbatim>\<open>__base\<close> that the join with \<^verbatim>\<open>__latest\<close> keeps\<close>
  "cleaned_join fv base = inner_join_using (cleaned_using fv) [] base (fv_latest fv base)"

definition fv_cleaned :: "featureview \<Rightarrow> table \<Rightarrow> table" where
  \<comment> \<open>lines 384-395. In Trino the columns of a \<^verbatim>\<open>USING\<close> join are not columns of either
      side, so \<^verbatim>\<open>base.*\<close> is the row of \<^verbatim>\<open>__base\<close> without them; the select list names the
      unique id again, and no other join column.\<close>
  "fv_cleaned fv base =
     map (\<lambda>b. with_columns (without_columns b (cleaned_using fv)) [(uid_col fv, b (uid_col fv))])
       (cleaned_join fv base)"

definition fv_result :: "bool \<Rightarrow> string \<Rightarrow> featureview list \<Rightarrow> database \<Rightarrow> table \<Rightarrow> featureview \<Rightarrow> table" where
  \<comment> \<open>the chain of one feature view, lines 284-395: its \<^verbatim>\<open>__cleaned\<close> rows\<close>
  "fv_result full_names ts_col featureviews db left_table fv =
     (let ed = entity_dataframe ts_col featureviews left_table
      in fv_cleaned fv
           (fv_base fv (fv_subquery full_names fv ed (db (table_subquery fv)))
                       (fv_entity_dataframe fv ed)))"

definition final_join :: "bool \<Rightarrow> featureview \<Rightarrow> table \<Rightarrow> table \<Rightarrow> table" where
  \<comment> \<open>lines 404-411: one \<^verbatim>\<open>LEFT JOIN (SELECT ... FROM <name>__cleaned) USING (...)\<close>\<close>
  "final_join full_names fv acc cleaned =
     left_join_using [uid_col fv] (map (feature_alias full_names fv) (features fv)) acc
       (map (\<lambda>c. row_of ((uid_col fv, c (uid_col fv)) #
                          map (\<lambda>feature. (feature_alias full_names fv feature,
                                           c (feature_alias full_names fv feature))) (features fv)))
            cleaned)"

definition joined_rows ::
  "bool \<Rightarrow> string \<Rightarrow> featureview list \<Rightarrow> database \<Rightarrow> string \<Rightarrow> table" where
  \<comment> \<open>lines 402-412: \<^verbatim>\<open>FROM entity_dataframe\<close> and one \<^verbatim>\<open>LEFT JOIN\<close> per feature view,
      in the order of \<^verbatim>\<open>featureviews\<close>\<close>
  "joined_rows full_names ts_col featureviews db left_table_query_string =
     (let left_table = db left_table_query_string;
          ed = entity_dataframe ts_col featureviews left_table
      in foldl (\<lambda>acc fv. final_join full_names fv acc
                              (fv_result full_names ts_col featureviews db left_table fv))
               ed featureviews)"

definition point_in_time_join ::
  "bool \<Rightarrow> string list \<Rightarrow> string \<Rightarrow> featureview list \<Rightarrow> database \<Rightarrow> string \<Rightarrow> val list list" where
  \<comment> \<open>line 401, the \<^verbatim>\<open>SELECT\<close> list over the joined rows; a result row is the list of its
      cells, in the order of \<^verbatim>\<open>final_output_feature_names\<close>.\<close>
  "point_in_time_join full_names final_output_feature_names ts_col featureviews db
     left_table_query_string =
     map (\<lambda>r. map r final_output_feature_names)
       (joined_rows full_names ts_col featureviews db left_table_query_string)"


section \<open>The two naming modes side by side\<close>

text \<open>
  What a row of the query compiled with \<^verbatim>\<open>full_feature_names\<close> has to do with the row of
  the query compiled without: \<open>renamed fv\<close> for the rows of one feature view's sub-queries,
  \<open>renamed_joined\<close> for the rows of the final join once the views \<open>done\<close> are joined.
\<close>

definition feature_columns :: "featureview \<Rightarrow> string set" where
  \<comment> \<open>the names that the features of a view have in one mode or the other\<close>
  "feature_columns fv =
     feature_alias True fv ` set (features fv) \<union> feature_alias False fv ` set (features fv)"

definition renamed :: "featureview \<Rightarrow> row \<Rightarrow> row \<Rightarrow> bool" where
  "renamed fv x y \<longleftrightarrow>
     (\<forall>k. k \<notin> feature_columns fv \<longrightarrow> x k = y k) \<and>
     (\<forall>f\<in>set (features fv). x (feature_alias True fv f) = y (feature_alias False fv f))"

definition renamed_joined :: "featureview list \<Rightarrow> featureview list \<Rightarrow> row \<Rightarrow> row \<Rightarrow> bool" where
  "renamed_joined featureviews done x y \<longleftrightarrow>
     (\<forall>k. k \<notin> (\<Union>fv\<in>set featureviews. feature_columns fv) \<longrightarrow> x k = y k) \<and>
     (\<forall>fv\<in>set done. \<forall>f\<in>set (features fv).
        x (feature_alias True fv f) = y (feature_alias False fv f))"
section \<open>Example inputs\<close>

definition example_config :: RepoConfig where
  "example_config =
     \<lparr>offline_store = Trino_config \<lparr>host = ''h'', port = 8080, catalog = ''c'', dataset = ''d''\<rparr>\<rparr>"

definition example_start :: datetime where
  "example_start = \<lparr>instant = 10, str_datetime = ''1970-01-01 00:00:10''\<rparr>"

definition example_end :: datetime where
  "example_end = \<lparr>instant = 50, str_datetime = ''1970-01-01 00:00:50''\<rparr>"

definition example_engine :: engine where
  "example_engine executed query_text = Inr \<lparr>data = [], columns_names = [], schema = []\<rparr>"

definition example_job :: "unit TrinoRetrievalJob" where
  "example_job =
     \<lparr>query = ''SELECT 1'',
      client = \<lparr>trino_user = ''user'', trino_catalog = ''c'', trino_host = ''h'', trino_port = 8080\<rparr>,
      config = example_config, full_feature_names = False, on_demand_feature_views = None\<rparr>"

definition example_collaborators :: "(unit, unit, unit, unit) collaborators" where
  "example_collaborators =
     \<lparr>get_temp_entity_table_name = ''entity_df_1'',
      pandas_dtypes = (\<lambda>r. map (\<lambda>c. (c, ''object'')) (columns_names r)),
      infer_event_timestamp_from_entity_df = (\<lambda>s. Inr ''event_timestamp''),
      get_expected_join_keys = (\<lambda>p fvs reg. Inr []),
      assert_expected_columns_in_entity_df = (\<lambda>s ks t. Inr ()),
      get_feature_view_query_context = (\<lambda>refs fvs reg p. Inr []),
      build_point_in_time_query = (\<lambda>ctx l t cols full. Inr ''SELECT 1''),
      get_requested_odfvs = (\<lambda>refs p reg. Inr [])\<rparr>"


definition example_fv :: featureview where
  "example_fv =
     \<lparr>name = ''F'', entities = [''id''], features = [''v''], event_timestamp_column = ''t'',
      created_timestamp_column = None, ttl = 3600, entity_selections = [(''id'', ''id'')],
      table_subquery = ''f_table''\<rparr>"


definition example_db :: database where
  "example_db q =
     (if q = ''f_table'' then
        [row_of [(''id'', IntV 1), (''t'', IntV 36000), (''v'', IntV 5)],
         row_of [(''id'', IntV 1), (''t'', IntV 37800), (''v'', IntV 7)]]
      else if q = ''requests'' then
        [row_of [(''id'', IntV 1), (''ts'', IntV 38700)],
         row_of [(''id'', IntV 1), (''ts'', IntV 32400)],
         row_of [(''id'', IntV 1), (''ts'', IntV 36900)]]
      else [])"


definition example_created_fv :: featureview where
  "example_created_fv = example_fv\<lparr>created_timestamp_column := Some ''created''\<rparr>"

definition example_base :: table where
  "example_base =
     [row_of [(''event_timestamp'', IntV 36000), (''created_timestamp'', IntV 1), (''id'', IntV 1),
              (''v'', IntV 5), (''entity_timestamp'', IntV 38700),
              (''F__entity_row_unique_id'', StrV ''138700'')],
      row_of [(''event_timestamp'', IntV 37800), (''created_timestamp'', IntV 1), (''id'', IntV 1),
              (''v'', IntV 6), (''entity_timestamp'', IntV 38700),
              (''F__entity_row_unique_id'', StrV ''138700'')],
      row_of [(''event_timestamp'', IntV 37800), (''created_timestamp'', IntV 2), (''id'', IntV 1),
              (''v'', IntV 7), (''entity_timestamp'', IntV 38700),
              (''F__entity_row_unique_id'', StrV ''138700'')]]"

definition null_created_base :: table where
  \<comment> \<open>joined rows of one request; the newer feature row has no created timestamp\<close>
  "null_created_base =
     [row_of [(''event_timestamp'', IntV 36000), (''created_timestamp'', IntV 1), (''id'', IntV 1),
              (''v'', IntV 5), (''entity_timestamp'', IntV 38700),
              (''F__entity_row_unique_id'', StrV ''138700'')],
      row_of [(''event_timestamp'', IntV 37800), (''created_timestamp'', Null), (''id'', IntV 1),
              (''v'', IntV 7), (''entity_timestamp'', IntV 38700),
              (''F__entity_row_unique_id'', StrV ''138700'')]]"

definition snapshot_db :: database where
  \<comment> \<open>a source with a created-timestamp column: two rows of id 1 share the event timestamp
      40, and one row lies after \<open>example_end\<close>\<close>
  "snapshot_db q =
     (if q = ''s_table'' then
        [row_of [(''id'', IntV 1), (''t'', IntV 20), (''created'', IntV 1), (''v'', IntV 5)],
         row_of [(''id'', IntV 1), (''t'', IntV 40), (''created'', IntV 1), (''v'', IntV 6)],
         row_of [(''id'', IntV 1), (''t'', IntV 40), (''created'', IntV 2), (''v'', IntV 7)],
         row_of [(''id'', IntV 2), (''t'', IntV 30), (''created'', IntV 1), (''v'', IntV 8)],
         row_of [(''id'', IntV 1), (''t'', IntV 60), (''created'', IntV 3), (''v'', IntV 9)]]
      else [])"



section \<open>Properties of the retrieval job and of the entry points\<close>

lemma length_fixed_digits: "length (fixed_digits b k n) = k"
  by (induction k arbitrary: n) auto

lemma digit_char_hex: "d < 16 \<Longrightarrow> digit_char d \<in> set ''0123456789abcdef''"
  unfolding digit_char_def by (rule nth_mem) simp

lemma digit_char_dec: "d < 10 \<Longrightarrow> digit_char d \<in> set ''0123456789''"
proof -
  assume d: "d < 10"
  have "''0123456789abcdef'' ! d = (take 10 ''0123456789abcdef'') ! d"
    using d by (simp only: nth_take)
  also have "take 10 ''0123456789abcdef'' = ''0123456789''" by simp
  also have "''0123456789'' ! d \<in> set ''0123456789''" using d by (intro nth_mem) simp
  finally show ?thesis unfolding digit_char_def .
qed

lemma set_fixed_digits: "\<forall>d<b. digit_char d \<in> S \<Longrightarrow> 0 < b \<Longrightarrow> set (fixed_digits b k n) \<subseteq> S"
  by (induction k arbitrary: n) auto

lemma set_fixed_digits_hex: "set (fixed_digits 16 k n) \<subseteq> set ''0123456789abcdef''"
  by (rule set_fixed_digits) (use digit_char_hex in blast, simp)

lemma set_fixed_digits_dec: "set (fixed_digits 10 k n) \<subseteq> set ''0123456789''"
  by (rule set_fixed_digits) (use digit_char_dec in blast, simp)

lemma rand_id_eq: "take 7 (str_uuid u) = take 7 (fixed_digits 16 32 u)"
  by (simp add: str_uuid_def Let_def length_fixed_digits)

lemma rand_id_shape: "length (take 7 (str_uuid u)) = 7 \<and> set (take 7 (str_uuid u)) \<subseteq> set ''0123456789abcdef''"
proof -
  have "set (take 7 (fixed_digits 16 32 u)) \<subseteq> set (fixed_digits 16 32 u)" by (rule set_take_subset)
  with set_fixed_digits_hex[of 32 u] have "set (take 7 (fixed_digits 16 32 u)) \<subseteq> set ''0123456789abcdef''"
    by (rule subset_trans[rotated])
  then show ?thesis
    by (simp only: rand_id_eq length_take length_fixed_digits) simp
qed

lemma today_shape: "length (strftime_Ymd d) = 8 \<and> set (strftime_Ymd d) \<subseteq> set ''0123456789''"
proof -
  have "set (strftime_Ymd d) = set (fixed_digits 10 4 (year d)) \<union> set (fixed_digits 10 2 (month d)) \<union> set (fixed_digits 10 2 (day d))"
    unfolding strftime_Ymd_def by (simp only: set_append Un_assoc)
  moreover have "length (strftime_Ymd d) = 8"
    by (simp add: strftime_Ymd_def length_fixed_digits)
  ultimately show ?thesis
    using set_fixed_digits_dec[of 4 "year d"] set_fixed_digits_dec[of 2 "month d"] set_fixed_digits_dec[of 2 "day d"]
    by blast
qed

lemma fixed_digits_numeral:
  "fixed_digits b (numeral k) n = fixed_digits b (pred_numeral k) (n div b) @ [digit_char (n mod b)]"
  by (simp add: numeral_eq_Suc)

text \<open>
  C10. Every retrieval job that \<^verbatim>\<open>pull_latest_from_table_or_query\<close> returns has
  \<^verbatim>\<open>full_feature_names\<close> false and \<^verbatim>\<open>on_demand_feature_views\<close> none, whatever the inputs.
\<close>

theorem pull_latest_job_flags:
  assumes "pull_latest_from_table_or_query did dval cfg src jks fns ev cr sd ed = Inr job"
  shows "\<not> full_feature_names job \<and> on_demand_feature_views job = None"
  using assms
  by (auto simp: pull_latest_from_table_or_query_def
           split: data_source.splits offline_store_config.splits)

theorem pull_latest_job_flags_witness:
  "\<not> isl (pull_latest_from_table_or_query ''__dummy_id'' [] example_config (TrinoSource ''t'')
          [''id''] [''v''] ''ts'' None example_start example_end
        :: error + unit TrinoRetrievalJob) \<and>
   \<not> full_feature_names (projr (pull_latest_from_table_or_query ''__dummy_id'' [] example_config
          (TrinoSource ''t'') [''id''] [''v''] ''ts'' None example_start example_end
        :: error + unit TrinoRetrievalJob)) \<and>
   on_demand_feature_views (projr (pull_latest_from_table_or_query ''__dummy_id'' [] example_config
          (TrinoSource ''t'') [''id''] [''v''] ''ts'' None example_start example_end
        :: error + unit TrinoRetrievalJob)) = None"
proof -
  obtain job :: "unit TrinoRetrievalJob" where
    j: "pull_latest_from_table_or_query ''__dummy_id'' [] example_config (TrinoSource ''t'')
          [''id''] [''v''] ''ts'' None example_start example_end = Inr job"
    by (simp add: pull_latest_from_table_or_query_def example_config_def)
  from pull_latest_job_flags [OF j] j show ?thesis by simp
qed

text \<open>
  C7. For a job whose configuration is a \<^verbatim>\<open>TrinoOfflineStoreConfig\<close>, \<^verbatim>\<open>to_trino\<close> sends the
  engine exactly one statement, \<^verbatim>\<open>CREATE TABLE <catalog>.<dataset>.historical_<YYYYMMDD>_<suffix> AS (Q)\<close>
  with \<^verbatim>\<open>Q\<close> the job's query text, eight decimal digits for the date and the first seven
  hexadecimal digits of the UUID as suffix; it returns that destination name (or raises what
  the engine raised); \<^verbatim>\<open>timeout\<close> and \<^verbatim>\<open>retry_cadence\<close> change nothing.
\<close>

theorem to_trino_single_create_table:
  assumes "offline_store (config job) = Trino_config c"
  shows "to_trino eng today_date uuid4 job timeout retry_cadence executed =
           (case eng executed
                   (''CREATE TABLE '' @ trino_catalog (client job) @ ''.'' @ dataset c @
                    ''.historical_'' @ strftime_Ymd today_date @ ''_'' @ take 7 (str_uuid uuid4) @
                    '' AS ('' @ query job @ '')'') of
              Inl e \<Rightarrow> Inl e
            | Inr r \<Rightarrow>
                Inr (trino_catalog (client job) @ ''.'' @ dataset c @ ''.historical_'' @
                     strftime_Ymd today_date @ ''_'' @ take 7 (str_uuid uuid4)),
            executed @
              [''CREATE TABLE '' @ trino_catalog (client job) @ ''.'' @ dataset c @
               ''.historical_'' @ strftime_Ymd today_date @ ''_'' @ take 7 (str_uuid uuid4) @
               '' AS ('' @ query job @ '')''])
         \<and> to_trino eng today_date uuid4 job timeout retry_cadence executed =
             to_trino eng today_date uuid4 job timeout' retry_cadence' executed
         \<and> length (strftime_Ymd today_date) = 8
         \<and> set (strftime_Ymd today_date) \<subseteq> set ''0123456789''
         \<and> length (take 7 (str_uuid uuid4)) = 7
         \<and> set (take 7 (str_uuid uuid4)) \<subseteq> set ''0123456789abcdef''"
proof -
  have a: "dataset_attr (offline_store (config job)) = Inr (dataset c)"
    using assms by (simp add: dataset_attr_def)
  have 1: "to_trino eng today_date uuid4 job t r executed =
           (case eng executed
                   (''CREATE TABLE '' @ trino_catalog (client job) @ ''.'' @ dataset c @
                    ''.historical_'' @ strftime_Ymd today_date @ ''_'' @ take 7 (str_uuid uuid4) @
                    '' AS ('' @ query job @ '')'') of
              Inl e \<Rightarrow> Inl e
            | Inr r \<Rightarrow>
                Inr (trino_catalog (client job) @ ''.'' @ dataset c @ ''.historical_'' @
                     strftime_Ymd today_date @ ''_'' @ take 7 (str_uuid uuid4)),
            executed @
              [''CREATE TABLE '' @ trino_catalog (client job) @ ''.'' @ dataset c @
               ''.historical_'' @ strftime_Ymd today_date @ ''_'' @ take 7 (str_uuid uuid4) @
               '' AS ('' @ query job @ '')''])" for t r
    unfolding to_trino_def Let_def a execute_query_def project_def
    by (simp split: sum.splits)
  show ?thesis
    using today_shape[of today_date] rand_id_shape[of uuid4]
    by (simp only: 1)
qed

theorem to_trino_single_create_table_witness:
  "to_trino example_engine \<lparr>year = 2024, month = 1, day = 2\<rparr> 0x1234567890abcdef1234567890abcdef
     example_job 1800 10 [] =
   (Inr ''c.d.historical_20240102_1234567'',
    [''CREATE TABLE c.d.historical_20240102_1234567 AS (SELECT 1)''])"
proof -
  have c: "offline_store (config example_job) =
           Trino_config \<lparr>host = ''h'', port = 8080, catalog = ''c'', dataset = ''d''\<rparr>"
    by (simp add: example_job_def example_config_def)
  show ?thesis
    using to_trino_single_create_table [OF c, of example_engine "\<lparr>year = 2024, month = 1, day = 2\<rparr>"
        "0x1234567890abcdef1234567890abcdef" 1800 10 "[]" 1800 10]
    by (simp add: rand_id_eq strftime_Ymd_def fixed_digits_numeral digit_char_def
          example_engine_def example_job_def)
qed

text \<open>
  C8, as amended. \<^verbatim>\<open>pull_latest_from_table_or_query\<close> raises (a \<^verbatim>\<open>ValueError\<close>, with no job
  and no query built) exactly when the data source is not a \<^verbatim>\<open>TrinoSource\<close> or the
  configuration's offline store is not a \<^verbatim>\<open>TrinoOfflineStoreConfig\<close>.
  \<^verbatim>\<open>get_historical_features\<close>, when the offline store is a \<^verbatim>\<open>TrinoOfflineStoreConfig\<close> and the
  entity table is not a query string, raises \<^verbatim>\<open>InvalidEntityType\<close> with the type of the entity
  table and sends the engine nothing. When the offline store is of another class it raises
  a \<^verbatim>\<open>ValueError\<close> and sends the engine nothing, whatever the entity table is.
\<close>

theorem entry_point_errors:
  "(isl (pull_latest_from_table_or_query did dval cfg src jks fns ev cr sd ed
          :: error + 'odfv TrinoRetrievalJob) \<longleftrightarrow>
      (\<forall>q. src \<noteq> TrinoSource q) \<or> (\<forall>c. offline_store cfg \<noteq> Trino_config c))
   \<and> ((\<forall>q. src \<noteq> TrinoSource q) \<or> (\<forall>c. offline_store cfg \<noteq> Trino_config c) \<longrightarrow>
        (\<exists>msg. (pull_latest_from_table_or_query did dval cfg src jks fns ev cr sd ed
          :: error + 'odfv TrinoRetrievalJob) = Inl (ValueError msg)))
   \<and> (offline_store cfg = Trino_config c \<and> (\<forall>q. e \<noteq> Entity_query q) \<longrightarrow>
        (get_historical_features env eng cfg feature_views feature_refs e registry proj full_names
          executed :: (error + 'odfv TrinoRetrievalJob) \<times> string list) =
        (Inl (InvalidEntityType (type_text e)), executed))
   \<and> ((\<forall>c. offline_store cfg \<noteq> Trino_config c) \<longrightarrow>
        (\<exists>msg. (get_historical_features env eng cfg feature_views feature_refs e registry proj
          full_names executed :: (error + 'odfv TrinoRetrievalJob) \<times> string list) =
          (Inl (ValueError msg), executed)))"
proof (intro conjI impI)
  show "isl (pull_latest_from_table_or_query did dval cfg src jks fns ev cr sd ed
          :: error + 'odfv TrinoRetrievalJob) \<longleftrightarrow>
      (\<forall>q. src \<noteq> TrinoSource q) \<or> (\<forall>c. offline_store cfg \<noteq> Trino_config c)"
    by (cases src; cases "offline_store cfg")
       (simp_all add: pull_latest_from_table_or_query_def)
next
  assume "(\<forall>q. src \<noteq> TrinoSource q) \<or> (\<forall>c. offline_store cfg \<noteq> Trino_config c)"
  then show "\<exists>msg. (pull_latest_from_table_or_query did dval cfg src jks fns ev cr sd ed
          :: error + 'odfv TrinoRetrievalJob) = Inl (ValueError msg)"
    by (cases src; cases "offline_store cfg")
       (simp_all add: pull_latest_from_table_or_query_def)
next
  assume "offline_store cfg = Trino_config c \<and> (\<forall>q. e \<noteq> Entity_query q)"
  then show "(get_historical_features env eng cfg feature_views feature_refs e registry proj full_names
          executed :: (error + 'odfv TrinoRetrievalJob) \<times> string list) =
        (Inl (InvalidEntityType (type_text e)), executed)"
    by (cases e)
       (simp_all add: get_historical_features_def upload_entity_df_and_get_entity_schema_def
          bind_error_def Let_def)
next
  assume "\<forall>c. offline_store cfg \<noteq> Trino_config c"
  then show "\<exists>msg. (get_historical_features env eng cfg feature_views feature_refs e registry proj
          full_names executed :: (error + 'odfv TrinoRetrievalJob) \<times> string list) =
          (Inl (ValueError msg), executed)"
    by (cases "offline_store cfg") (simp_all add: get_historical_features_def)
qed

theorem entry_point_errors_witness:
  "isl (pull_latest_from_table_or_query ''__dummy_id'' [] example_config
          (OtherSource ''FileSource'') [''id''] [''v''] ''ts'' None example_start example_end
        :: error + unit TrinoRetrievalJob)
   \<and> get_historical_features example_collaborators example_engine example_config [] []
        (Entity_DataFrame [[IntV 1]]) () ''p'' False [] =
      (Inl (InvalidEntityType
         (''<class '' @ [CHR 0x27] @ ''pandas.core.frame.DataFrame'' @ [CHR 0x27] @ ''>'')), [])
   \<and> (\<exists>msg. get_historical_features example_collaborators example_engine
         \<lparr>offline_store = Other_config ''SomeOtherConfig'' None\<rparr> [] []
         (Entity_query ''SELECT * FROM requests'') () ''p'' False [] =
       (Inl (ValueError msg), []))"
proof -
  have "(isl (pull_latest_from_table_or_query ''__dummy_id'' [] example_config
          (OtherSource ''FileSource'') [''id''] [''v''] ''ts'' None example_start example_end
          :: error + unit TrinoRetrievalJob) \<longleftrightarrow>
      (\<forall>q. OtherSource ''FileSource'' \<noteq> TrinoSource q) \<or>
      (\<forall>c. offline_store example_config \<noteq> Trino_config c))
   \<and> ((\<forall>q. OtherSource ''FileSource'' \<noteq> TrinoSource q) \<or>
        (\<forall>c. offline_store example_config \<noteq> Trino_config c) \<longrightarrow>
        (\<exists>msg. (pull_latest_from_table_or_query ''__dummy_id'' [] example_config
          (OtherSource ''FileSource'') [''id''] [''v''] ''ts'' None example_start example_end
          :: error + unit TrinoRetrievalJob) = Inl (ValueError msg)))
   \<and> (offline_store example_config =
          Trino_config \<lparr>host = ''h'', port = 8080, catalog = ''c'', dataset = ''d''\<rparr> \<and>
        (\<forall>q. Entity_DataFrame [[IntV 1]] \<noteq> Entity_query q) \<longrightarrow>
        (get_historical_features example_collaborators example_engine example_config [] []
          (Entity_DataFrame [[IntV 1]]) () ''p'' False []
          :: (error + unit TrinoRetrievalJob) \<times> string list) =
        (Inl (InvalidEntityType (type_text (Entity_DataFrame [[IntV 1]]))), []))
   \<and> ((\<forall>c. offline_store example_config \<noteq> Trino_config c) \<longrightarrow>
        (\<exists>msg. (get_historical_features example_collaborators example_engine example_config [] []
          (Entity_DataFrame [[IntV 1]]) () ''p'' False []
          :: (error + unit TrinoRetrievalJob) \<times> string list) = (Inl (ValueError msg), [])))"
    by (rule entry_point_errors)
  then have 1: "isl (pull_latest_from_table_or_query ''__dummy_id'' [] example_config
          (OtherSource ''FileSource'') [''id''] [''v''] ''ts'' None example_start example_end
        :: error + unit TrinoRetrievalJob)
   \<and> get_historical_features example_collaborators example_engine example_config [] []
        (Entity_DataFrame [[IntV 1]]) () ''p'' False [] =
      (Inl (InvalidEntityType
         (''<class '' @ [CHR 0x27] @ ''pandas.core.frame.DataFrame'' @ [CHR 0x27] @ ''>'')), [])"
    by (simp add: example_config_def type_text_def)
  have o: "\<forall>c. offline_store \<lparr>offline_store = Other_config ''SomeOtherConfig'' None\<rparr> \<noteq> Trino_config c"
    by simp
  have "(\<forall>c. offline_store \<lparr>offline_store = Other_config ''SomeOtherConfig'' None\<rparr> \<noteq> Trino_config c) \<longrightarrow>
        (\<exists>msg. (get_historical_features example_collaborators example_engine
           \<lparr>offline_store = Other_config ''SomeOtherConfig'' None\<rparr> [] []
           (Entity_query ''SELECT * FROM requests'') () ''p'' False []
           :: (error + unit TrinoRetrievalJob) \<times> string list) = (Inl (ValueError msg), []))"
    using entry_point_errors[where cfg = "\<lparr>offline_store = Other_config ''SomeOtherConfig'' None\<rparr>"
        and env = example_collaborators and e = "Entity_query ''SELECT * FROM requests''"]
    by blast
  with o have 2: "\<exists>msg. get_historical_features example_collaborators example_engine
         \<lparr>offline_store = Other_config ''SomeOtherConfig'' None\<rparr> [] []
         (Entity_query ''SELECT * FROM requests'') () ''p'' False [] =
       (Inl (ValueError msg), [])" by blast
  from 1 2 show ?thesis by blast
qed

text \<open>
  C8 as stated fails where the offline store is of another class: the check of lines 167-168
  comes first, and an entity table that is a data frame then meets a \<^verbatim>\<open>ValueError\<close>, not
  \<^verbatim>\<open>InvalidEntityType\<close>.
\<close>

theorem invalid_entity_type_counterexample:
  "get_historical_features example_collaborators example_engine
     \<lparr>offline_store = Other_config ''SomeOtherConfig'' None\<rparr> [] []
     (Entity_DataFrame [[IntV 1]]) () ''p'' False [] =
   (Inl (ValueError
      (''This function should be used with a TrinoOfflineStoreConfig object. '' @
       ''Instead we have config.offline_store being '' @
       [CHR 0x27] @ ''{type(config.offline_store)}'' @ [CHR 0x27])), [])"
  by (simp add: get_historical_features_def)

section \<open>Properties of the point-in-time join\<close>

subsection \<open>Conditions and columns\<close>

lemma holds_sql_and: "holds (sql_and p q) \<longleftrightarrow> holds p \<and> holds q"
  by (cases "(p, q)" rule: sql_and.cases) (auto simp: holds_def)

lemma holds_foldl_sql_and: "holds (foldl sql_and p cs) \<longleftrightarrow> holds p \<and> (\<forall>c\<in>set cs. holds c)"
  by (induction cs arbitrary: p) (auto simp: holds_sql_and)

lemma holds_sql_conj: "holds (sql_conj cs) \<longleftrightarrow> (\<forall>c\<in>set cs. holds c)"
  by (simp add: sql_conj_def holds_foldl_sql_and) (simp add: holds_def)

lemma holds_sql_le: "holds (sql_le a b) \<longleftrightarrow> (\<exists>x y. a = IntV x \<and> b = IntV y \<and> x \<le> y)"
  by (cases "(a, b)" rule: sql_le.cases) (auto simp: holds_def)

lemma holds_sql_eq: "holds (sql_eq a b) \<longleftrightarrow> a = b \<and> a \<noteq> Null"
  by (cases "(a, b)" rule: sql_eq.cases) (auto simp: holds_def)

lemma minus_seconds_IntV: "minus_seconds v n = IntV y \<longleftrightarrow> (\<exists>t. v = IntV t \<and> y = t - n)"
  by (cases v) auto

lemma holds_base_on:
  "holds (base_on fv sub e) \<longleftrightarrow>
     (\<forall>k\<in>set (entities fv). sub k = e k \<and> sub k \<noteq> Null) \<and>
     (\<exists>t te. sub ''event_timestamp'' = IntV t \<and> e ''entity_timestamp'' = IntV te \<and> t \<le> te \<and>
        (ttl fv = 0 \<or> te - ttl fv \<le> t))"
  by (auto simp: base_on_def holds_sql_conj holds_sql_le holds_sql_eq sql_ge_def minus_seconds_IntV)

lemma with_columns_Nil [simp]: "with_columns r [] = r"
  by (simp add: with_columns_def)

lemma subquery_row_event_timestamp:
  "subquery_row full_names fv s ''event_timestamp'' = s (event_timestamp_column fv)"
  by (simp add: subquery_row_def row_of_def with_columns_def)


lemma row_of_cols: "row_of (map (\<lambda>c. (c, r c)) cols) c = (if c \<in> set cols then r c else Null)"
  by (simp add: row_of_def with_columns_def map_of_map_restrict restrict_map_def)

lemma sql_max_Max: "ints_of vs \<noteq> [] \<Longrightarrow> sql_max vs = IntV (Max (set (ints_of vs)))"
proof -
  assume "ints_of vs \<noteq> []"
  then obtain i ns where e: "ints_of vs = i # ns" by (cases "ints_of vs") auto
  have "fold max ns i = Max (set (i # ns))" by (simp only: Max.set_eq_fold)
  with e show ?thesis by (simp add: sql_max_def)
qed

lemma sql_min_Min: "ints_of vs \<noteq> [] \<Longrightarrow> sql_min vs = IntV (Min (set (ints_of vs)))"
proof -
  assume "ints_of vs \<noteq> []"
  then obtain i ns where e: "ints_of vs = i # ns" by (cases "ints_of vs") auto
  have "fold min ns i = Min (set (i # ns))" by (simp only: Min.set_eq_fold)
  with e show ?thesis by (simp add: sql_min_def)
qed

lemma holds_None [simp]: "\<not> holds None"
  by (simp add: holds_def)

lemma sql_max_Null: "ints_of vs = [] \<Longrightarrow> sql_max vs = Null"
  by (simp add: sql_max_def)

lemma entity_dataframe_timestamps:
  "map (\<lambda>r. r ''entity_timestamp'') (entity_dataframe ts_col fvs left_table) = map (\<lambda>r. r ts_col) left_table"
  by (simp add: entity_dataframe_def with_columns_def comp_def)

lemma holds_subquery_where:
  "holds (subquery_where fv (entity_dataframe ts_col fvs left_table) s) \<longleftrightarrow>
     ints_of (map (\<lambda>r. r ts_col) left_table) \<noteq> [] \<and>
     (\<exists>t. s (event_timestamp_column fv) = IntV t \<and>
          t \<le> Max (set (ints_of (map (\<lambda>r. r ts_col) left_table))) \<and>
          (ttl fv = 0 \<or> Min (set (ints_of (map (\<lambda>r. r ts_col) left_table))) - ttl fv \<le> t))"
proof (cases "ints_of (map (\<lambda>r. r ts_col) left_table) = []")
  case True
  then show ?thesis
    by (simp add: subquery_where_def Let_def entity_dataframe_timestamps sql_max_Null
          holds_sql_and holds_sql_le)
next
  case False
  then show ?thesis
    by (auto simp: subquery_where_def Let_def entity_dataframe_timestamps sql_max_Max sql_min_Min
          holds_sql_and holds_sql_le sql_ge_def)
qed


lemma uid_col_last: "last (uid_col fv) = CHR ''d''"
  by (simp add: uid_col_def)

lemma uid_col_neq_entity_timestamp [simp]: "uid_col fv \<noteq> ''entity_timestamp''"
  using uid_col_last[of fv] by auto

lemma uid_col_neq_event_timestamp [simp]: "uid_col fv \<noteq> ''event_timestamp''"
  using uid_col_last[of fv] by auto

lemma uid_col_neq_created_timestamp [simp]: "uid_col fv \<noteq> ''created_timestamp''"
  using uid_col_last[of fv] by auto

lemma uid_col_neq_row_number [simp]: "uid_col fv \<noteq> ''row_number''"
  using uid_col_last[of fv] by auto

lemma uid_col_eq_iff: "uid_col a = uid_col b \<longleftrightarrow> name a = name b"
  by (simp add: uid_col_def)

lemma map_of_uid_cols:
  "distinct (map name fvs) \<Longrightarrow> fv \<in> set fvs \<Longrightarrow>
   map_of (map (\<lambda>fv. (uid_col fv, g fv)) fvs) (uid_col fv) = Some (g fv)"
proof (induction fvs)
  case Nil then show ?case by simp
next
  case (Cons a fvs)
  show ?case
  proof (cases "a = fv")
    case True then show ?thesis by simp
  next
    case False
    with Cons.prems have "fv \<in> set fvs" "name a \<noteq> name fv" by auto
    with Cons show ?thesis by (simp add: uid_col_eq_iff)
  qed
qed

lemma entity_dataframe_uid:
  "distinct (map name fvs) \<Longrightarrow> fv \<in> set fvs \<Longrightarrow>
   map (\<lambda>x. x (uid_col fv)) (entity_dataframe ts_col fvs left_table) =
   map (entity_row_unique_id ts_col fv) left_table"
  by (simp add: entity_dataframe_def with_columns_def map_of_uid_cols comp_def)

lemma text_of_cast_varchar: "text_of (cast_varchar v) = None \<longleftrightarrow> v = Null"
  by (cases v) auto

subsection \<open>The join and the pre-filter\<close>

text \<open>
  C1. The join \<^verbatim>\<open>__base\<close> keeps the pair of a (pre-filtered) feature row and a request row
  exactly when the two agree on every join key of the feature view (with a value, since
  \<^verbatim>\<open>NULL\<close> equals nothing), the feature row's event timestamp is at most the request row's
  entity timestamp, and either \<open>ttl = 0\<close> or the event timestamp is at least the entity
  timestamp minus \<open>ttl\<close> seconds. With \<open>ttl = 0\<close> there is no lower bound at all.
\<close>

theorem base_join_condition:
  "(holds (base_on fv sub e) \<longleftrightarrow>
      (\<forall>k\<in>set (entities fv). sub k = e k \<and> sub k \<noteq> Null) \<and>
      (\<exists>t te. sub ''event_timestamp'' = IntV t \<and> e ''entity_timestamp'' = IntV te \<and> t \<le> te \<and>
         (ttl fv = 0 \<or> te - ttl fv \<le> t)))
   \<and> fv_base fv subquery fv_ed =
       concat (map (\<lambda>sub. map (\<lambda>e. with_columns sub [(''entity_timestamp'', e ''entity_timestamp''),
                                                        (uid_col fv, e (uid_col fv))])
                            (filter (\<lambda>e. (\<forall>k\<in>set (entities fv). sub k = e k \<and> sub k \<noteq> Null) \<and>
                                         (\<exists>t te. sub ''event_timestamp'' = IntV t \<and>
                                            e ''entity_timestamp'' = IntV te \<and> t \<le> te \<and>
                                            (ttl fv = 0 \<or> te - ttl fv \<le> t)))
                                    fv_ed))
                   subquery)
   \<and> (subquery_row full_names fv s) ''event_timestamp'' = s (event_timestamp_column fv)
   \<and> (ttl fv = 0 \<longrightarrow>
        (holds (base_on fv sub e) \<longleftrightarrow>
           (\<forall>k\<in>set (entities fv). sub k = e k \<and> sub k \<noteq> Null) \<and>
           (\<exists>t te. sub ''event_timestamp'' = IntV t \<and> e ''entity_timestamp'' = IntV te \<and> t \<le> te)))"
  by (simp add: fv_base_def inner_join_on_def holds_base_on subquery_row_event_timestamp)

theorem base_join_condition_witness:
  "holds (base_on example_fv
            (row_of [(''event_timestamp'', IntV 37800), (''id'', IntV 1), (''v'', IntV 7)])
            (row_of [(''id'', IntV 1), (''entity_timestamp'', IntV 38700)]))
   \<and> \<not> holds (base_on example_fv
            (row_of [(''event_timestamp'', IntV 37800), (''id'', IntV 1), (''v'', IntV 7)])
            (row_of [(''id'', IntV 1), (''entity_timestamp'', IntV 36900)]))
   \<and> \<not> holds (base_on example_fv
            (row_of [(''event_timestamp'', IntV 36000), (''id'', IntV 1), (''v'', IntV 5)])
            (row_of [(''id'', IntV 1), (''entity_timestamp'', IntV 40000)]))
   \<and> holds (base_on (example_fv\<lparr>ttl := 0\<rparr>)
            (row_of [(''event_timestamp'', IntV 36000), (''id'', IntV 1), (''v'', IntV 5)])
            (row_of [(''id'', IntV 1), (''entity_timestamp'', IntV 40000)]))"
  using base_join_condition [of example_fv
            "row_of [(''event_timestamp'', IntV 37800), (''id'', IntV 1), (''v'', IntV 7)]"
            "row_of [(''id'', IntV 1), (''entity_timestamp'', IntV 38700)]"]
        base_join_condition [of example_fv
            "row_of [(''event_timestamp'', IntV 37800), (''id'', IntV 1), (''v'', IntV 7)]"
            "row_of [(''id'', IntV 1), (''entity_timestamp'', IntV 36900)]"]
        base_join_condition [of example_fv
            "row_of [(''event_timestamp'', IntV 36000), (''id'', IntV 1), (''v'', IntV 5)]"
            "row_of [(''id'', IntV 1), (''entity_timestamp'', IntV 40000)]"]
        base_join_condition [of "example_fv\<lparr>ttl := 0\<rparr>"
            "row_of [(''event_timestamp'', IntV 36000), (''id'', IntV 1), (''v'', IntV 5)]"
            "row_of [(''id'', IntV 1), (''entity_timestamp'', IntV 40000)]"]
  by (simp add: example_fv_def row_of_def with_columns_def)

text \<open>
  C2. Before the join, the source rows of a feature view are filtered to the event timestamps
  between the least entity timestamp of all request rows minus \<open>ttl\<close> seconds and the
  greatest entity timestamp of all request rows; with \<open>ttl = 0\<close> only the upper bound
  applies. (\<^verbatim>\<open>MAX\<close> and \<^verbatim>\<open>MIN\<close> skip \<^verbatim>\<open>NULL\<close> timestamps; when no request row has a
  timestamp, no source row passes.)
\<close>

theorem subquery_prefilter:
  "(ints_of (map (\<lambda>r. r ts_col) left_table) \<noteq> [] \<longrightarrow>
      fv_subquery full_names fv (entity_dataframe ts_col fvs left_table) source =
        map (subquery_row full_names fv)
          (filter (\<lambda>s. \<exists>t. s (event_timestamp_column fv) = IntV t \<and>
                     t \<le> Max (set (ints_of (map (\<lambda>r. r ts_col) left_table))) \<and>
                     (ttl fv = 0 \<or>
                      Min (set (ints_of (map (\<lambda>r. r ts_col) left_table))) - ttl fv \<le> t))
             source))
   \<and> (ints_of (map (\<lambda>r. r ts_col) left_table) = [] \<longrightarrow>
        fv_subquery full_names fv (entity_dataframe ts_col fvs left_table) source = [])"
  by (simp add: fv_subquery_def holds_subquery_where)

theorem subquery_prefilter_witness:
  "ints_of (map (\<lambda>r. r ''ts'') (example_db ''requests'')) \<noteq> []
   \<and> map (\<lambda>r. map r [''event_timestamp'', ''v''])
       (fv_subquery False example_fv
          (entity_dataframe ''ts'' [example_fv] (example_db ''requests''))
          (example_db ''f_table'' @
           [row_of [(''id'', IntV 1), (''t'', IntV 28000), (''v'', IntV 3)],
            row_of [(''id'', IntV 1), (''t'', IntV 39000), (''v'', IntV 9)]])) =
     [[IntV 36000, IntV 5], [IntV 37800, IntV 7]]"
  using subquery_prefilter [of "''ts''" "example_db ''requests''" False example_fv "[example_fv]"
     "example_db ''f_table'' @
      [row_of [(''id'', IntV 1), (''t'', IntV 28000), (''v'', IntV 3)],
       row_of [(''id'', IntV 1), (''t'', IntV 39000), (''v'', IntV 9)]]"]
  by (simp add: example_db_def example_fv_def row_of_def with_columns_def subquery_row_def
        truthy_def feature_alias_def)



subsection \<open>Ordering, numbering and the first row of a partition\<close>

lemma set_insort_by [simp]: "set (insort_by le x ys) = insert x (set ys)"
  by (induction ys) auto

lemma length_insort_by [simp]: "length (insort_by le x ys) = Suc (length ys)"
  by (induction ys) auto

lemma set_order_by [simp]: "set (order_by le xs) = set xs"
  by (induction xs) (auto simp: order_by_def)

lemma length_order_by [simp]: "length (order_by le xs) = length xs"
  by (induction xs) (auto simp: order_by_def)

lemma order_by_Nil_iff [simp]: "order_by le xs = [] \<longleftrightarrow> xs = []"
  using length_order_by[of le xs] by (metis length_0_conv)

lemma sorted_wrt_insort_by:
  assumes total: "\<And>a b. le a b \<or> le b a" and trans: "\<And>a b c. le a b \<Longrightarrow> le b c \<Longrightarrow> le a c"
  shows "sorted_wrt le ys \<Longrightarrow> sorted_wrt le (insort_by le x ys)"
proof (induction ys)
  case Nil then show ?case by simp
next
  case (Cons y ys)
  show ?case
  proof (cases "le x y")
    case True
    with Cons.prems trans show ?thesis by auto
  next
    case False
    with total have "le y x" by blast
    with Cons False show ?thesis by auto
  qed
qed

lemma sorted_wrt_order_by:
  assumes total: "\<And>a b. le a b \<or> le b a" and trans: "\<And>a b c. le a b \<Longrightarrow> le b c \<Longrightarrow> le a c"
  shows "sorted_wrt le (order_by le xs)"
proof (induction xs)
  case Nil show ?case by (simp add: order_by_def)
next
  case (Cons x xs)
  have "order_by le (x # xs) = insort_by le x (order_by le xs)" by (simp add: order_by_def)
  with Cons sorted_wrt_insort_by[OF total trans] show ?case by simp
qed

lemma hd_order_by:
  assumes total: "\<And>a b. le a b \<or> le b a" and trans: "\<And>a b c. le a b \<Longrightarrow> le b c \<Longrightarrow> le a c"
    and ne: "xs \<noteq> []"
  shows "hd (order_by le xs) \<in> set xs \<and> (\<forall>x\<in>set xs. le (hd (order_by le xs)) x)"
proof -
  obtain y ys where e: "order_by le xs = y # ys"
    using ne by (cases "order_by le xs") auto
  have s: "sorted_wrt le (y # ys)" using sorted_wrt_order_by[of le xs, OF total trans] e by simp
  have m: "set xs = insert y (set ys)" using set_order_by[of le xs] e by simp
  have "le y y" using total by blast
  with s m e show ?thesis by auto
qed

lemma desc_before_asym: "desc_before a b \<Longrightarrow> \<not> desc_before b a"
  by (cases "(a, b)" rule: desc_before.cases) auto

lemma desc_before_trans: "desc_before a b \<Longrightarrow> desc_before b c \<Longrightarrow> desc_before a c"
  by (cases "(a, b)" rule: desc_before.cases; cases c) auto

lemma desc_before_split: "desc_before a c \<Longrightarrow> desc_before a b \<or> desc_before b c"
  by (cases "(a, c)" rule: desc_before.cases; cases b) auto

lemma order_desc_le_total: "order_desc_le cols a b \<or> order_desc_le cols b a"
  by (induction cols) auto

lemma order_desc_le_trans:
  "order_desc_le cols a b \<Longrightarrow> order_desc_le cols b c \<Longrightarrow> order_desc_le cols a c"
proof (induction cols)
  case Nil show ?case by simp
next
  case (Cons k cols)
  from Cons.prems(1) have ab: "desc_before (a k) (b k) \<or> (\<not> desc_before (b k) (a k) \<and> order_desc_le cols a b)"
    by simp
  from Cons.prems(2) have bc: "desc_before (b k) (c k) \<or> (\<not> desc_before (c k) (b k) \<and> order_desc_le cols b c)"
    by simp
  have "desc_before (a k) (c k) \<or> (\<not> desc_before (c k) (a k) \<and> order_desc_le cols a c)"
  proof (cases "desc_before (a k) (b k)")
    case True
    then have "desc_before (a k) (c k) \<or> desc_before (c k) (b k)"
      using desc_before_split[of "a k" "b k" "c k"] by blast
    moreover have "desc_before (c k) (b k) \<Longrightarrow> desc_before (b k) (c k) \<Longrightarrow> False"
      using desc_before_asym by blast
    ultimately show ?thesis using bc by blast
  next
    case False
    with ab have 1: "\<not> desc_before (b k) (a k)" "order_desc_le cols a b" by auto
    show ?thesis
    proof (cases "desc_before (b k) (c k)")
      case True
      then have "desc_before (b k) (a k) \<or> desc_before (a k) (c k)"
        using desc_before_split[of "b k" "c k" "a k"] by blast
      with 1 show ?thesis by blast
    next
      case False
      with bc have 2: "\<not> desc_before (c k) (b k)" "order_desc_le cols b c" by auto
      have "\<not> desc_before (c k) (a k)"
        using desc_before_split[of "c k" "a k" "b k"] 1 2 by blast
      with Cons.IH[OF 1(2) 2(2)] show ?thesis by blast
    qed
  qed
  then show ?case by simp
qed

lemma hd_order_desc:
  "g \<noteq> [] \<Longrightarrow> hd (order_by (order_desc_le cols) g) \<in> set g \<and>
     (\<forall>x\<in>set g. order_desc_le cols (hd (order_by (order_desc_le cols) g)) x)"
  using hd_order_by[of "order_desc_le cols" g] order_desc_le_total[of cols] order_desc_le_trans[of cols]
  by blast

lemma filter_first_of_numbered:
  assumes "ys \<noteq> []"
  shows "filter (\<lambda>p. snd p = 1) (zip ys [1 ..< Suc (length ys)]) = [(hd ys, 1)]"
proof -
  obtain y ys' where e: "ys = y # ys'" using assms by (cases ys) auto
  have u: "[1 ..< Suc (length ys)] = 1 # [2 ..< Suc (length ys)]"
    using e by (simp add: upt_rec numeral_2_eq_2)
  have "\<forall>p\<in>set (zip ys' [2 ..< Suc (length ys)]). snd p \<noteq> 1"
    by (auto dest: set_zip_rightD)
  then have "filter (\<lambda>p. snd p = 1) (zip ys' [2 ..< Suc (length ys)]) = []"
    by (simp add: filter_empty_conv)
  with e u show ?thesis by simp
qed

lemma groups_nonempty: "(k, g) \<in> set (groups key rows) \<Longrightarrow> g \<noteq> []"
  by (auto simp: groups_def filter_empty_conv)

lemma groups_keys: "map fst (groups key rows) = remdups (map key rows)"
  by (simp add: groups_def comp_def)

lemma groups_member:
  "(k, g) \<in> set (groups key rows) \<longleftrightarrow> k \<in> key ` set rows \<and> g = filter (\<lambda>r. key r = k) rows"
  by (auto simp: groups_def)

lemma with_columns_single [simp]: "with_columns r [(c, v)] c = v"
  by (simp add: with_columns_def)

lemma with_columns_single_other: "k \<noteq> c \<Longrightarrow> with_columns r [(c, v)] k = r k"
  by (simp add: with_columns_def)

lemma first_rows_of_row_number_over:
  "filter (\<lambda>r. holds (sql_eq (r col) (IntV 1))) (row_number_over col key le rows) =
   map (\<lambda>(k, g). with_columns (hd (order_by le g)) [(col, IntV 1)]) (groups key rows)"
proof -
  have one: "filter (\<lambda>r. holds (sql_eq (r col) (IntV 1)))
               (map (\<lambda>(r, n). with_columns r [(col, IntV (int n))])
                  (zip (order_by le g) [1 ..< Suc (length g)])) =
             [with_columns (hd (order_by le g)) [(col, IntV 1)]]"
    if "g \<noteq> []" for g
  proof -
    have "filter (\<lambda>r. holds (sql_eq (r col) (IntV 1)))
               (map (\<lambda>(r, n). with_columns r [(col, IntV (int n))])
                  (zip (order_by le g) [1 ..< Suc (length g)])) =
          map (\<lambda>(r, n). with_columns r [(col, IntV (int n))])
            (filter (\<lambda>p. snd p = 1) (zip (order_by le g) [1 ..< Suc (length g)]))"
      by (simp add: filter_map comp_def holds_sql_eq case_prod_unfold)
    also have "\<dots> = [with_columns (hd (order_by le g)) [(col, IntV 1)]]"
      using filter_first_of_numbered[of "order_by le g"] that by simp
    finally show ?thesis .
  qed
  have pt: "filter (\<lambda>r. holds (sql_eq (r col) (IntV 1)))
               (case x of (k, g) \<Rightarrow> map (\<lambda>(r, n). with_columns r [(col, IntV (int n))])
                  (zip (order_by le g) [1 ..< Suc (length g)])) =
            (case x of (k, g) \<Rightarrow> [with_columns (hd (order_by le g)) [(col, IntV 1)]])"
    if "x \<in> set (groups key rows)" for x
  proof -
    obtain k g where x: "x = (k, g)" by (cases x)
    with that have "g \<noteq> []" by (auto dest: groups_nonempty)
    then show ?thesis unfolding x prod.case by (rule one)
  qed
  have "filter (\<lambda>r. holds (sql_eq (r col) (IntV 1))) (row_number_over col key le rows) =
        concat (map (\<lambda>(k, g). [with_columns (hd (order_by le g)) [(col, IntV 1)]]) (groups key rows))"
    unfolding row_number_over_def filter_concat map_map comp_def
    by (rule arg_cong[where f = concat], rule map_cong[OF refl]) (rule pt)
  also have "\<dots> = map (\<lambda>(k, g). with_columns (hd (order_by le g)) [(col, IntV 1)]) (groups key rows)"
    by (induction "groups key rows" arbitrary: rows) (auto simp: case_prod_unfold concat_map_singleton)
  finally show ?thesis .
qed

lemma first_rows_group:
  assumes "(k, g) \<in> set (groups key rows)"
  shows "hd (order_by (order_desc_le cols) g) \<in> set rows"
    and "key (hd (order_by (order_desc_le cols) g)) = k"
    and "\<forall>s\<in>set rows. key s = k \<longrightarrow> order_desc_le cols (hd (order_by (order_desc_le cols) g)) s"
proof -
  from assms have g: "g = filter (\<lambda>r. key r = k) rows"
    by (simp add: groups_member)
  have ne: "g \<noteq> []" using groups_nonempty[OF assms] .
  from hd_order_desc[OF ne, of cols]
  have h: "hd (order_by (order_desc_le cols) g) \<in> set g"
    "\<forall>x\<in>set g. order_desc_le cols (hd (order_by (order_desc_le cols) g)) x" by auto
  from h(1) g show "hd (order_by (order_desc_le cols) g) \<in> set rows"
    "key (hd (order_by (order_desc_le cols) g)) = k" by auto
  from h(2) g show "\<forall>s\<in>set rows. key s = k \<longrightarrow> order_desc_le cols (hd (order_by (order_desc_le cols) g)) s"
    by auto
qed

lemma first_rows_keys: "map key (first_rows key cols rows) = remdups (map key rows)"
proof -
  have "map key (first_rows key cols rows) = map fst (groups key rows)"
    unfolding first_rows_def map_map
    by (rule map_cong[OF refl]) (auto simp: first_rows_group(2))
  then show ?thesis by (simp add: groups_keys)
qed

lemma first_rows_subset: "set (first_rows key cols rows) \<subseteq> set rows"
  by (auto simp: first_rows_def first_rows_group(1))

lemma first_rows_least:
  "m \<in> set (first_rows key cols rows) \<Longrightarrow> s \<in> set rows \<Longrightarrow> key s = key m \<Longrightarrow> order_desc_le cols m s"
  using first_rows_group(2,3)[of _ _ key rows cols]
  by (fastforce simp: first_rows_def)

lemma first_rows_of_row_number_over':
  "filter (\<lambda>r. holds (sql_eq (r col) (IntV 1))) (row_number_over col key (order_desc_le cols) rows) =
   map (\<lambda>m. with_columns m [(col, IntV 1)]) (first_rows key cols rows)"
  by (simp add: first_rows_of_row_number_over first_rows_def case_prod_unfold comp_def)

lemma holds_sql_between:
  "holds (sql_between x (IntV lo) (IntV hi)) \<longleftrightarrow> (\<exists>t. x = IntV t \<and> lo \<le> t \<and> t \<le> hi)"
  by (auto simp: sql_between_def holds_sql_and holds_sql_le sql_ge_def)

lemma join_str_Nil_iff: "sep \<noteq> [] \<Longrightarrow> join_str sep xs = [] \<longleftrightarrow> xs = [] \<or> xs = [[]]"
  by (cases xs; cases "tl xs") (auto simp: join_str_def)

lemma order_desc_le_head_ints:
  "order_desc_le (c # cs) m s \<Longrightarrow> s c = IntV u \<Longrightarrow> \<exists>t. m c = IntV t \<and> u \<le> t"
  by (cases "m c") auto

lemma project_back:
  "fr \<notin> set F \<Longrightarrow> c \<in> set F \<Longrightarrow>
   row_of (map (\<lambda>c. (c, with_columns m [(fr, v)] c)) (F @ [fr])) c = m c"
proof -
  assume a: "fr \<notin> set F" "c \<in> set F"
  then have "c \<noteq> fr" by auto
  then have "with_columns m [(fr, v)] c = m c" by (rule with_columns_single_other)
  with a show ?thesis by (simp only: row_of_cols) simp
qed

lemma pull_latest_query_text_render:
  "pull_latest_query_text did dval fe jks fns ev cr sd ed =
   render_snapshot (snapshot_query_of did dval fe jks fns ev cr sd ed)"
  by (simp add: pull_latest_query_text_def render_snapshot_def snapshot_query_of_def Let_def
        join_str_Nil_iff)

lemma pull_latest_rows_eq:
  assumes "''_feast_row'' \<notin> set (jks @ fns @ timestamp_columns ev cr)" and "[] \<notin> set jks"
  shows "pull_latest_rows did dval db fe jks fns ev cr sd ed =
         map (\<lambda>m. row_of (map (\<lambda>c. (c, m c)) (jks @ fns @ timestamp_columns ev cr) @
                           (if jks = [] then [(did, StrV dval)] else [])))
           (first_rows (\<lambda>r. map r jks) (timestamp_columns ev cr)
              (filter (\<lambda>s. \<exists>t. s ev = IntV t \<and> instant sd \<le> t \<and> t \<le> instant ed) (db fe)))"
proof -
  let ?fields = "jks @ fns @ timestamp_columns ev cr"
  have pc: "(if join_str '', '' jks \<noteq> [] then jks else []) = jks"
    using assms(2) by (auto simp: join_str_Nil_iff)
  have f: "row_of (map (\<lambda>c. (c, r c)) (?fields @ [''_feast_row''])) ''_feast_row'' = r ''_feast_row''" for r
    by (simp only: row_of_cols) simp
  have g: "map (\<lambda>c. (c, row_of (map (\<lambda>c. (c, with_columns m [(''_feast_row'', IntV 1)] c))
                                  (?fields @ [''_feast_row''])) c)) ?fields =
           map (\<lambda>c. (c, m c)) ?fields" for m
    by (rule map_cong[OF refl]) (simp only: project_back[OF assms(1)])
  have d: "(case (if jks = [] then Some (dval, did) else None) of None \<Rightarrow> []
            | Some (v, n) \<Rightarrow> [(n, StrV v)]) = (if jks = [] then [(did, StrV dval)] else [])"
    by simp
  show ?thesis
    unfolding pull_latest_rows_def run_snapshot_def snapshot_query_of_def Let_def
      snapshot_query.simps pc d
    by (simp add: filter_map comp_def f first_rows_of_row_number_over' holds_sql_between g
             del: append_assoc map_append)
qed

lemma snapshot_rows_by_key:
  "map (\<lambda>r. map r [''id'', ''v'', ''t'', ''created'', ''__dummy_id''])
     (pull_latest_rows ''__dummy_id'' [] snapshot_db ''s_table'' [''id''] [''v''] ''t'' (Some ''created'')
        example_start example_end) =
   [[IntV 1, IntV 7, IntV 40, IntV 2, Null], [IntV 2, IntV 8, IntV 30, IntV 1, Null]]"
proof -
  have h1: "''_feast_row'' \<notin> set ([''id''] @ [''v''] @ timestamp_columns ''t'' (Some ''created''))"
    by (simp add: timestamp_columns_def truthy_def)
  have h2: "[] \<notin> set [''id'']" by simp
  show ?thesis
    unfolding pull_latest_rows_eq[OF h1 h2]
    by (simp add: first_rows_def groups_def order_by_def snapshot_db_def example_start_def
          example_end_def timestamp_columns_def truthy_def row_of_def with_columns_def)
qed

lemma snapshot_rows_no_key:
  "map (\<lambda>r. map r [''id'', ''v'', ''t'', ''created'', ''__dummy_id''])
     (pull_latest_rows ''__dummy_id'' [] snapshot_db ''s_table'' [] [''v''] ''t'' (Some ''created'')
        example_start example_end) =
   [[Null, IntV 7, IntV 40, IntV 2, StrV []]]"
proof -
  have h1: "''_feast_row'' \<notin> set ([] @ [''v''] @ timestamp_columns ''t'' (Some ''created''))"
    by (simp add: timestamp_columns_def truthy_def)
  have h2: "[] \<notin> set ([] :: string list)" by simp
  show ?thesis
    unfolding pull_latest_rows_eq[OF h1 h2]
    by (simp add: first_rows_def groups_def order_by_def snapshot_db_def example_start_def
          example_end_def timestamp_columns_def truthy_def row_of_def with_columns_def)
qed

lemma desc_tie_break:
  assumes "order_desc_le [e, c] m s" "m e = IntV t" "s e = IntV t" "s c = IntV k'"
  shows "\<exists>k. m c = IntV k \<and> k' \<le> k"
  using assms by (cases "m c") auto

lemma timestamp_columns_eq:
  "timestamp_columns ev cr = ev # (case truthy cr of None \<Rightarrow> [] | Some c \<Rightarrow> [c])"
  by (simp add: timestamp_columns_def)

lemma snapshot_text_example:
  "render_snapshot (snapshot_query_of ''__dummy_id'' [] ''s_table'' [''id''] [''v''] ''t''
      (Some ''created'') example_start example_end) =
   nl @ ''            SELECT'' @ nl @
   ''                id, v, t, created'' @ nl @
   ''                '' @ nl @
   ''            FROM ('' @ nl @
   ''                SELECT id, v, t, created,'' @ nl @
   ''                ROW_NUMBER() OVER(PARTITION BY id ORDER BY t DESC, created DESC) AS _feast_row'' @ nl @
   ''                FROM s_table'' @ nl @
   ''                WHERE t BETWEEN TIMESTAMP '' @ [CHR 0x27] @ ''1970-01-01 00:00:10'' @ [CHR 0x27] @
     '' AND TIMESTAMP '' @ [CHR 0x27] @ ''1970-01-01 00:00:50'' @ [CHR 0x27] @ nl @
   ''            )'' @ nl @
   ''            WHERE _feast_row = 1'' @ nl @
   ''            ''"
  by (simp add: render_snapshot_def snapshot_query_of_def timestamp_columns_def truthy_def
        join_str_def example_start_def example_end_def Let_def)

subsection \<open>The snapshot query\<close>

text \<open>
  C5. The query text of the job that \<^verbatim>\<open>pull_latest_from_table_or_query\<close> returns is the
  statement of lines 136-147 written out for \<open>snapshot_query_of\<close>, and \<open>pull_latest_rows\<close>
  are the rows that statement selects. For column names other than \<^verbatim>\<open>_feast_row\<close> and join
  keys with non-empty names, they are the projections, on the join keys, the features and
  the timestamp columns, of rows \<open>ms\<close> of the source whose event timestamps lie in
  \<open>[start, end]\<close>: exactly one for every join-key combination found in that window, and no
  row of the window with the same join keys has a greater event timestamp, or the same event
  timestamp and, when a created-timestamp column is given, a greater created timestamp. With
  no join key the one group is the whole window, and every returned row carries the dummy
  column.
\<close>

theorem snapshot_latest_row_per_group:
  assumes "''_feast_row'' \<notin> set (jks @ fns @ ev # (case truthy cr of None \<Rightarrow> [] | Some c \<Rightarrow> [c]))"
    and "[] \<notin> set jks"
  shows "(offline_store cfg = Trino_config tc \<longrightarrow>
            (\<exists>job. pull_latest_from_table_or_query did dval cfg (TrinoSource fe) jks fns ev cr sd ed =
                      Inr job \<and>
                    query job = render_snapshot (snapshot_query_of did dval fe jks fns ev cr sd ed)))
         \<and> pull_latest_rows did dval db fe jks fns ev cr sd ed =
             run_snapshot db (snapshot_query_of did dval fe jks fns ev cr sd ed)
         \<and> (\<exists>ms. pull_latest_rows did dval db fe jks fns ev cr sd ed =
               map (\<lambda>m. row_of (map (\<lambda>c. (c, m c))
                                   (jks @ fns @ ev # (case truthy cr of None \<Rightarrow> [] | Some c \<Rightarrow> [c])) @
                                 (if jks = [] then [(did, StrV dval)] else []))) ms
          \<and> set ms \<subseteq> {s \<in> set (db fe). \<exists>t. s ev = IntV t \<and> instant sd \<le> t \<and> t \<le> instant ed}
          \<and> distinct (map (\<lambda>m. map m jks) ms)
          \<and> set (map (\<lambda>m. map m jks) ms) =
              (\<lambda>s. map s jks) ` {s \<in> set (db fe). \<exists>t. s ev = IntV t \<and> instant sd \<le> t \<and> t \<le> instant ed}
          \<and> (\<forall>m\<in>set ms. \<forall>s\<in>set (db fe).
                (\<exists>t. s ev = IntV t \<and> instant sd \<le> t \<and> t \<le> instant ed) \<and> map s jks = map m jks \<longrightarrow>
                (\<exists>t u. m ev = IntV t \<and> s ev = IntV u \<and> u \<le> t \<and>
                   (\<forall>c k'. truthy cr = Some c \<and> u = t \<and> s c = IntV k' \<longrightarrow>
                      (\<exists>k. m c = IntV k \<and> k' \<le> k)))))"
proof -
  let ?ts = "timestamp_columns ev cr"
  let ?W = "filter (\<lambda>s. \<exists>t. s ev = IntV t \<and> instant sd \<le> t \<and> t \<le> instant ed) (db fe)"
  let ?key = "\<lambda>r. map r jks"
  let ?ms = "first_rows ?key ?ts ?W"
  have a1: "''_feast_row'' \<notin> set (jks @ fns @ ?ts)"
    unfolding timestamp_columns_eq by (rule assms(1))
  have sW: "set ?W = {s \<in> set (db fe). \<exists>t. s ev = IntV t \<and> instant sd \<le> t \<and> t \<le> instant ed}"
    by simp
  have t: "offline_store cfg = Trino_config tc \<longrightarrow>
            (\<exists>job. pull_latest_from_table_or_query did dval cfg (TrinoSource fe) jks fns ev cr sd ed =
                      Inr job \<and>
                    query job = render_snapshot (snapshot_query_of did dval fe jks fns ev cr sd ed))"
    by (simp add: pull_latest_from_table_or_query_def pull_latest_query_text_render)
  have r: "pull_latest_rows did dval db fe jks fns ev cr sd ed =
             run_snapshot db (snapshot_query_of did dval fe jks fns ev cr sd ed)"
    by (rule pull_latest_rows_def)
  have 1: "pull_latest_rows did dval db fe jks fns ev cr sd ed =
           map (\<lambda>m. row_of (map (\<lambda>c. (c, m c))
                               (jks @ fns @ ev # (case truthy cr of None \<Rightarrow> [] | Some c \<Rightarrow> [c])) @
                             (if jks = [] then [(did, StrV dval)] else []))) ?ms"
    using pull_latest_rows_eq[OF a1 assms(2), of did dval db fe sd ed]
    unfolding timestamp_columns_eq .
  have 2: "set ?ms \<subseteq> set ?W" by (rule first_rows_subset)
  have k: "map ?key ?ms = remdups (map ?key ?W)" by (rule first_rows_keys)
  have 3: "distinct (map ?key ?ms)" unfolding k by simp
  have 4: "set (map ?key ?ms) = ?key ` set ?W" unfolding k by simp
  have 5: "\<exists>t u. m ev = IntV t \<and> s ev = IntV u \<and> u \<le> t \<and>
                   (\<forall>c k'. truthy cr = Some c \<and> u = t \<and> s c = IntV k' \<longrightarrow>
                      (\<exists>k. m c = IntV k \<and> k' \<le> k))"
    if m: "m \<in> set ?ms" and s: "s \<in> set ?W" and e: "map s jks = map m jks" for m s
  proof -
    have le: "order_desc_le ?ts m s"
      using first_rows_least[OF m s] e by simp
    from s obtain u where u: "s ev = IntV u" by auto
    from le have le': "order_desc_le (ev # (case truthy cr of None \<Rightarrow> [] | Some c \<Rightarrow> [c])) m s"
      unfolding timestamp_columns_eq .
    from order_desc_le_head_ints[OF le' u] obtain t where t: "m ev = IntV t" "u \<le> t" by blast
    have tie: "\<exists>k. m c = IntV k \<and> k' \<le> k"
      if c: "truthy cr = Some c" and ut: "u = t" and k': "s c = IntV k'" for c k'
    proof -
      from le' c have "order_desc_le [ev, c] m s" by simp
      from desc_tie_break[OF this t(1) _ k'] u ut show ?thesis by simp
    qed
    from t u tie show ?thesis by blast
  qed
  have w2: "set ?ms \<subseteq> {s \<in> set (db fe). \<exists>t. s ev = IntV t \<and> instant sd \<le> t \<and> t \<le> instant ed}"
    using 2 unfolding sW .
  have w4: "set (map ?key ?ms) =
            ?key ` {s \<in> set (db fe). \<exists>t. s ev = IntV t \<and> instant sd \<le> t \<and> t \<le> instant ed}"
    using 4 unfolding sW .
  have w5: "\<forall>m\<in>set ?ms. \<forall>s\<in>set (db fe).
                (\<exists>t. s ev = IntV t \<and> instant sd \<le> t \<and> t \<le> instant ed) \<and> map s jks = map m jks \<longrightarrow>
                (\<exists>t u. m ev = IntV t \<and> s ev = IntV u \<and> u \<le> t \<and>
                   (\<forall>c k'. truthy cr = Some c \<and> u = t \<and> s c = IntV k' \<longrightarrow>
                      (\<exists>k. m c = IntV k \<and> k' \<le> k)))"
  proof (intro ballI impI)
    fix m s
    assume m: "m \<in> set ?ms" and s: "s \<in> set (db fe)"
      and c: "(\<exists>t. s ev = IntV t \<and> instant sd \<le> t \<and> t \<le> instant ed) \<and> map s jks = map m jks"
    from s c have sw: "s \<in> set ?W" by simp
    from c have e: "map s jks = map m jks" by simp
    show "\<exists>t u. m ev = IntV t \<and> s ev = IntV u \<and> u \<le> t \<and>
                   (\<forall>c k'. truthy cr = Some c \<and> u = t \<and> s c = IntV k' \<longrightarrow>
                      (\<exists>k. m c = IntV k \<and> k' \<le> k))"
      by (rule 5[OF m sw e])
  qed
  have ex: "\<exists>ms. pull_latest_rows did dval db fe jks fns ev cr sd ed =
               map (\<lambda>m. row_of (map (\<lambda>c. (c, m c))
                                   (jks @ fns @ ev # (case truthy cr of None \<Rightarrow> [] | Some c \<Rightarrow> [c])) @
                                 (if jks = [] then [(did, StrV dval)] else []))) ms
          \<and> set ms \<subseteq> {s \<in> set (db fe). \<exists>t. s ev = IntV t \<and> instant sd \<le> t \<and> t \<le> instant ed}
          \<and> distinct (map (\<lambda>m. map m jks) ms)
          \<and> set (map (\<lambda>m. map m jks) ms) =
              (\<lambda>s. map s jks) ` {s \<in> set (db fe). \<exists>t. s ev = IntV t \<and> instant sd \<le> t \<and> t \<le> instant ed}
          \<and> (\<forall>m\<in>set ms. \<forall>s\<in>set (db fe).
                (\<exists>t. s ev = IntV t \<and> instant sd \<le> t \<and> t \<le> instant ed) \<and> map s jks = map m jks \<longrightarrow>
                (\<exists>t u. m ev = IntV t \<and> s ev = IntV u \<and> u \<le> t \<and>
                   (\<forall>c k'. truthy cr = Some c \<and> u = t \<and> s c = IntV k' \<longrightarrow>
                      (\<exists>k. m c = IntV k \<and> k' \<le> k))))"
    by (rule exI[of _ ?ms]) (intro conjI 1 w2 3 w4 w5)
  from t r ex show ?thesis by (intro conjI)
qed

theorem snapshot_latest_row_per_group_witness:
  "''_feast_row'' \<notin> set ([''id''] @ [''v''] @ ''t'' #
       (case truthy (Some ''created'') of None \<Rightarrow> [] | Some c \<Rightarrow> [c]))
   \<and> [] \<notin> set [''id'']
   \<and> offline_store example_config =
       Trino_config \<lparr>host = ''h'', port = 8080, catalog = ''c'', dataset = ''d''\<rparr>
   \<and> (\<exists>job :: unit TrinoRetrievalJob.
         pull_latest_from_table_or_query ''__dummy_id'' [] example_config (TrinoSource ''s_table'')
           [''id''] [''v''] ''t'' (Some ''created'') example_start example_end = Inr job \<and>
         query job = render_snapshot (snapshot_query_of ''__dummy_id'' [] ''s_table'' [''id''] [''v'']
                        ''t'' (Some ''created'') example_start example_end))
   \<and> render_snapshot (snapshot_query_of ''__dummy_id'' [] ''s_table'' [''id''] [''v''] ''t''
          (Some ''created'') example_start example_end) =
       nl @ ''            SELECT'' @ nl @
       ''                id, v, t, created'' @ nl @
       ''                '' @ nl @
       ''            FROM ('' @ nl @
       ''                SELECT id, v, t, created,'' @ nl @
       ''                ROW_NUMBER() OVER(PARTITION BY id ORDER BY t DESC, created DESC) AS _feast_row'' @ nl @
       ''                FROM s_table'' @ nl @
       ''                WHERE t BETWEEN TIMESTAMP '' @ [CHR 0x27] @ ''1970-01-01 00:00:10'' @ [CHR 0x27] @
         '' AND TIMESTAMP '' @ [CHR 0x27] @ ''1970-01-01 00:00:50'' @ [CHR 0x27] @ nl @
       ''            )'' @ nl @
       ''            WHERE _feast_row = 1'' @ nl @
       ''            ''
   \<and> pull_latest_rows ''__dummy_id'' [] snapshot_db ''s_table'' [''id''] [''v''] ''t'' (Some ''created'')
        example_start example_end =
      run_snapshot snapshot_db (snapshot_query_of ''__dummy_id'' [] ''s_table'' [''id''] [''v'']
                        ''t'' (Some ''created'') example_start example_end)
   \<and> map (\<lambda>r. map r [''id'', ''v'', ''t'', ''created'', ''__dummy_id''])
       (pull_latest_rows ''__dummy_id'' [] snapshot_db ''s_table'' [''id''] [''v''] ''t''
          (Some ''created'') example_start example_end) =
       [[IntV 1, IntV 7, IntV 40, IntV 2, Null], [IntV 2, IntV 8, IntV 30, IntV 1, Null]]
   \<and> map (\<lambda>r. map r [''id'', ''v'', ''t'', ''created'', ''__dummy_id''])
       (pull_latest_rows ''__dummy_id'' [] snapshot_db ''s_table'' [] [''v''] ''t''
          (Some ''created'') example_start example_end) =
       [[Null, IntV 7, IntV 40, IntV 2, StrV []]]
   \<and> map (\<lambda>r. map r [''id'', ''v'', ''t''])
       (pull_latest_rows ''__dummy_id'' [] snapshot_db ''s_table'' [''id''] [''v''] ''t''
          None example_start example_end) =
       [[IntV 1, IntV 6, IntV 40], [IntV 2, IntV 8, IntV 30]]"
proof -
  have h1: "''_feast_row'' \<notin> set ([''id''] @ [''v''] @ ''t'' #
       (case truthy (Some ''created'') of None \<Rightarrow> [] | Some c \<Rightarrow> [c]))"
    by (simp add: truthy_def)
  have h2: "[] \<notin> set [''id'']" by simp
  have c: "offline_store example_config =
       Trino_config \<lparr>host = ''h'', port = 8080, catalog = ''c'', dataset = ''d''\<rparr>"
    by (simp add: example_config_def)
  have g1: "''_feast_row'' \<notin> set ([''id''] @ [''v''] @ timestamp_columns ''t'' None)"
    by (simp add: timestamp_columns_def truthy_def)
  have n: "map (\<lambda>r. map r [''id'', ''v'', ''t''])
       (pull_latest_rows ''__dummy_id'' [] snapshot_db ''s_table'' [''id''] [''v''] ''t''
          None example_start example_end) =
       [[IntV 1, IntV 6, IntV 40], [IntV 2, IntV 8, IntV 30]]"
    unfolding pull_latest_rows_eq[OF g1 h2]
    by (simp add: first_rows_def groups_def order_by_def snapshot_db_def example_start_def
          example_end_def timestamp_columns_def truthy_def row_of_def with_columns_def)
  have i: "(offline_store example_config =
              Trino_config \<lparr>host = ''h'', port = 8080, catalog = ''c'', dataset = ''d''\<rparr> \<longrightarrow>
            (\<exists>job :: unit TrinoRetrievalJob.
               pull_latest_from_table_or_query ''__dummy_id'' [] example_config (TrinoSource ''s_table'')
                 [''id''] [''v''] ''t'' (Some ''created'') example_start example_end = Inr job \<and>
               query job = render_snapshot (snapshot_query_of ''__dummy_id'' [] ''s_table'' [''id''] [''v'']
                        ''t'' (Some ''created'') example_start example_end)))
         \<and> pull_latest_rows ''__dummy_id'' [] snapshot_db ''s_table'' [''id''] [''v''] ''t'' (Some ''created'')
              example_start example_end =
             run_snapshot snapshot_db (snapshot_query_of ''__dummy_id'' [] ''s_table'' [''id''] [''v'']
                        ''t'' (Some ''created'') example_start example_end)"
    using snapshot_latest_row_per_group[OF h1 h2,
        where cfg = example_config and did = "''__dummy_id''" and dval = "[]" and fe = "''s_table''"
          and sd = example_start and ed = example_end and db = snapshot_db
          and tc = "\<lparr>host = ''h'', port = 8080, catalog = ''c'', dataset = ''d''\<rparr>"]
    by blast
  from i c have j: "\<exists>job :: unit TrinoRetrievalJob.
         pull_latest_from_table_or_query ''__dummy_id'' [] example_config (TrinoSource ''s_table'')
           [''id''] [''v''] ''t'' (Some ''created'') example_start example_end = Inr job \<and>
         query job = render_snapshot (snapshot_query_of ''__dummy_id'' [] ''s_table'' [''id''] [''v'']
                        ''t'' (Some ''created'') example_start example_end)"
    by blast
  from i have r: "pull_latest_rows ''__dummy_id'' [] snapshot_db ''s_table'' [''id''] [''v''] ''t'' (Some ''created'')
        example_start example_end =
      run_snapshot snapshot_db (snapshot_query_of ''__dummy_id'' [] ''s_table'' [''id''] [''v'']
                        ''t'' (Some ''created'') example_start example_end)"
    by blast
  show ?thesis
    by (intro conjI h1 h2 c j snapshot_text_example r snapshot_rows_by_key snapshot_rows_no_key n)
qed
subsection \<open>Joins that keep or drop a row\<close>

lemma filter_at_most_one:
  "distinct (map key ms) \<Longrightarrow> (\<And>m. P m \<Longrightarrow> key m = k) \<Longrightarrow> length (filter P ms) \<le> 1"
proof (induction ms)
  case Nil then show ?case by simp
next
  case (Cons a ms)
  show ?case
  proof (cases "P a")
    case True
    then have ka: "key a = k" by (rule Cons.prems(2))
    have "filter P ms = []"
    proof (rule ccontr)
      assume "filter P ms \<noteq> []"
      then obtain m where m: "m \<in> set ms" "P m" by (auto simp: filter_empty_conv)
      then have "key m = key a" using Cons.prems(2) ka by simp
      moreover from Cons.prems(1) have "key a \<notin> key ` set ms" by simp
      ultimately show False using m(1) by (metis imageI)
    qed
    with True show ?thesis by simp
  next
    case False
    with Cons show ?thesis by simp
  qed
qed

lemma join_as_filter:
  assumes "\<And>a. a \<in> set A \<Longrightarrow> length (filter (Q a) Bs) \<le> 1"
  shows "concat (map (\<lambda>a. map (\<lambda>b. a) (filter (Q a) Bs)) A) = filter (\<lambda>a. \<exists>b\<in>set Bs. Q a b) A"
  using assms
proof (induction A)
  case Nil then show ?case by simp
next
  case (Cons a A)
  have len: "length (filter (Q a) Bs) \<le> 1" using Cons.prems by simp
  have IH: "concat (map (\<lambda>a. map (\<lambda>b. a) (filter (Q a) Bs)) A) = filter (\<lambda>a. \<exists>b\<in>set Bs. Q a b) A"
    using Cons.IH Cons.prems by simp
  have "map (\<lambda>b. a) (filter (Q a) Bs) = (if \<exists>b\<in>set Bs. Q a b then [a] else [])"
  proof (cases "filter (Q a) Bs")
    case Nil
    then show ?thesis by (auto simp: filter_empty_conv)
  next
    case (Cons x xs)
    with len have "xs = []" by simp
    moreover have "x \<in> set (filter (Q a) Bs)" using Cons by simp
    then have "x \<in> set Bs \<and> Q a x" by (simp only: set_filter mem_Collect_eq)
    ultimately show ?thesis using Cons by auto
  qed
  then show ?case unfolding list.map concat.simps filter.simps IH by simp
qed

lemma inner_join_using_no_extra:
  "inner_join_using cols [] A Bs = concat (map (\<lambda>a. map (\<lambda>b. a) (filter (using_match cols a) Bs)) A)"
  by (simp add: inner_join_using_def)

lemma using_match_iff: "using_match cols a b \<longleftrightarrow> (\<forall>c\<in>set cols. a c = b c \<and> a c \<noteq> Null)"
  by (simp add: using_match_def list_all_iff holds_sql_eq)

lemma inner_join_using_filter:
  assumes "distinct (map key Bs)" and "\<And>a b. using_match cols a b \<Longrightarrow> key b = k a"
  shows "inner_join_using cols [] A Bs = filter (\<lambda>a. \<exists>b\<in>set Bs. using_match cols a b) A"
  unfolding inner_join_using_no_extra
  by (rule join_as_filter) (rule filter_at_most_one[OF assms(1)], erule assms(2))

lemma fv_latest_None:
  assumes "truthy (created_timestamp_column fv) = None"
  shows "fv_latest fv B =
         map (\<lambda>m. row_of [(''event_timestamp'', m ''event_timestamp''), (uid_col fv, m (uid_col fv))])
           (first_rows (\<lambda>r. r (uid_col fv)) [''event_timestamp''] B)"
  by (simp add: fv_latest_def assms first_rows_of_row_number_over' comp_def with_columns_single_other)

lemma row_of_2 [simp]:
  "row_of ((c, v) # kvs) c = v"
  by (simp add: row_of_def with_columns_def)

lemma row_of_Cons_other: "k \<noteq> c \<Longrightarrow> row_of ((c, v) # kvs) k = row_of kvs k"
  by (simp add: row_of_def with_columns_def)

lemma order_desc_le_single:
  "a c = IntV t \<Longrightarrow> b c = IntV u \<Longrightarrow> order_desc_le [c] a b \<longleftrightarrow> u \<le> t"
  by auto

lemma cleaned_join_None:
  assumes cr: "truthy (created_timestamp_column fv) = None"
    and H: "\<forall>b\<in>set B. b (uid_col fv) \<noteq> Null \<and> (\<exists>t. b ''event_timestamp'' = IntV t)"
  shows "cleaned_join fv B =
         filter (\<lambda>b. \<forall>x\<in>set B. x (uid_col fv) = b (uid_col fv) \<longrightarrow>
                   (\<exists>t u. b ''event_timestamp'' = IntV t \<and> x ''event_timestamp'' = IntV u \<and> u \<le> t)) B"
proof -
  let ?u = "uid_col fv"
  let ?ms = "first_rows (\<lambda>r. r ?u) [''event_timestamp''] B"
  let ?proj = "\<lambda>m. row_of [(''event_timestamp'', m ''event_timestamp''), (?u, m ?u)]"
  have pu: "?proj m ?u = m ?u" for m by (simp add: row_of_Cons_other)
  have pe: "?proj m ''event_timestamp'' = m ''event_timestamp''" for m by simp
  have d: "distinct (map (\<lambda>l. l ?u) (map ?proj ?ms))"
    by (simp add: comp_def pu first_rows_keys[of "\<lambda>r. r ?u"])
  have j: "cleaned_join fv B =
           filter (\<lambda>a. \<exists>l\<in>set (map ?proj ?ms). using_match [?u, ''event_timestamp''] a l) B"
    unfolding cleaned_join_def cleaned_using_def cr fv_latest_None[OF cr] option.case append_Nil2
    by (rule inner_join_using_filter[OF d, where k = "\<lambda>a. a ?u"])
       (simp add: using_match_iff)
  have keys: "(\<lambda>r. r ?u) ` set ?ms = (\<lambda>r. r ?u) ` set B"
  proof -
    have "set (map (\<lambda>r. r ?u) ?ms) = set (remdups (map (\<lambda>r. r ?u) B))"
      by (simp only: first_rows_keys)
    then show ?thesis by (simp only: set_map set_remdups)
  qed
  have c: "(\<exists>l\<in>set (map ?proj ?ms). using_match [?u, ''event_timestamp''] b l) \<longleftrightarrow>
           (\<forall>x\<in>set B. x ?u = b ?u \<longrightarrow>
              (\<exists>t u. b ''event_timestamp'' = IntV t \<and> x ''event_timestamp'' = IntV u \<and> u \<le> t))"
    if b: "b \<in> set B" for b
  proof
    assume "\<exists>l\<in>set (map ?proj ?ms). using_match [?u, ''event_timestamp''] b l"
    then obtain m where m: "m \<in> set ?ms" "b ?u = m ?u" "b ''event_timestamp'' = m ''event_timestamp''"
      by (auto simp: using_match_iff pu)
    show "\<forall>x\<in>set B. x ?u = b ?u \<longrightarrow>
              (\<exists>t u. b ''event_timestamp'' = IntV t \<and> x ''event_timestamp'' = IntV u \<and> u \<le> t)"
    proof (intro ballI impI)
      fix x assume x: "x \<in> set B" "x ?u = b ?u"
      from first_rows_least[OF m(1) x(1)] x(2) m(2)
      have le: "order_desc_le [''event_timestamp''] m x" by simp
      from H b x(1) obtain t u where tu: "b ''event_timestamp'' = IntV t" "x ''event_timestamp'' = IntV u"
        by blast
      from tu(1) m(3) have "m ''event_timestamp'' = IntV t" by simp
      from order_desc_le_single[of m "''event_timestamp''" t x u, OF this tu(2)] le have "u \<le> t" by simp
      with tu show "\<exists>t u. b ''event_timestamp'' = IntV t \<and> x ''event_timestamp'' = IntV u \<and> u \<le> t"
        by blast
    qed
  next
    assume P: "\<forall>x\<in>set B. x ?u = b ?u \<longrightarrow>
              (\<exists>t u. b ''event_timestamp'' = IntV t \<and> x ''event_timestamp'' = IntV u \<and> u \<le> t)"
    from b have "b ?u \<in> (\<lambda>r. r ?u) ` set B" by (rule imageI)
    with keys have "b ?u \<in> (\<lambda>r. r ?u) ` set ?ms" by simp
    then obtain m where m: "m \<in> set ?ms" "m ?u = b ?u" by (auto simp: image_iff)
    have mB: "m \<in> set B" using m(1) first_rows_subset by blast
    from first_rows_least[OF m(1) b] m(2) have le: "order_desc_le [''event_timestamp''] m b" by simp
    from P mB m(2) obtain t u where tu: "b ''event_timestamp'' = IntV t" "m ''event_timestamp'' = IntV u" "u \<le> t"
      by blast
    from order_desc_le_single[of m "''event_timestamp''" u b t, OF tu(2) tu(1)] le have "t \<le> u" by simp
    with tu have "b ''event_timestamp'' = m ''event_timestamp''" by simp
    moreover have "b ?u \<noteq> Null" using H b by blast
    ultimately have "using_match [?u, ''event_timestamp''] b (?proj m)"
      using m(2) tu by (simp add: using_match_iff row_of_Cons_other)
    with m(1) show "\<exists>l\<in>set (map ?proj ?ms). using_match [?u, ''event_timestamp''] b l" by auto
  qed
  show ?thesis unfolding j by (rule filter_cong[OF refl]) (rule c)
qed


subsection \<open>Collapsing, ranking and joining back\<close>

lemma set_ints_of: "set (ints_of vs) = {i. IntV i \<in> set vs}"
  by (induction vs rule: ints_of.induct) auto

lemma sql_max_IntV_iff:
  "sql_max vs = IntV c \<longleftrightarrow> IntV c \<in> set vs \<and> (\<forall>c'. IntV c' \<in> set vs \<longrightarrow> c' \<le> c)"
proof (cases "ints_of vs = []")
  case True
  then have "\<forall>i. IntV i \<notin> set vs" using set_ints_of[of vs] by auto
  with True show ?thesis by (auto simp: sql_max_Null)
next
  case False
  have fin: "finite (set (ints_of vs))" by simp
  have ne: "set (ints_of vs) \<noteq> {}" using False by simp
  have "Max (set (ints_of vs)) = c \<longleftrightarrow> c \<in> set (ints_of vs) \<and> (\<forall>c'\<in>set (ints_of vs). c' \<le> c)"
    using Max_eq_iff[OF fin ne] by blast
  then show ?thesis by (simp add: sql_max_Max[OF False] set_ints_of)
qed

lemma sql_max_not_StrV: "sql_max vs \<noteq> StrV s"
  by (simp add: sql_max_def split: list.splits)

lemma sql_max_exists:
  assumes "IntV c' \<in> set vs"
  shows "\<exists>c. sql_max vs = IntV c \<and> c' \<le> c"
proof -
  from assms have ne: "ints_of vs \<noteq> []" using set_ints_of[of vs] by auto
  from assms have "c' \<in> set (ints_of vs)" by (simp add: set_ints_of)
  then have "c' \<le> Max (set (ints_of vs))" by simp
  with sql_max_Max[OF ne] show ?thesis by simp
qed

lemma order_desc_le_pair:
  assumes "a e = IntV t" "b e = IntV t'" "a c = IntV k" "b c = IntV k'"
  shows "order_desc_le [e, c] a b \<longleftrightarrow> t' < t \<or> (t' = t \<and> k' \<le> k)"
  using assms by auto

lemma uid_col_neq_sym [simp]:
  "''entity_timestamp'' \<noteq> uid_col fv" "''event_timestamp'' \<noteq> uid_col fv"
  "''created_timestamp'' \<noteq> uid_col fv" "''row_number'' \<noteq> uid_col fv"
  by (rule uid_col_neq_entity_timestamp[symmetric] uid_col_neq_event_timestamp[symmetric]
        uid_col_neq_created_timestamp[symmetric] uid_col_neq_row_number[symmetric])+

lemma fv_dedup_rows:
  "map (\<lambda>d. (d (uid_col fv), d ''event_timestamp'', d ''created_timestamp'')) (fv_dedup fv B) =
   map (\<lambda>(u, t). (u, t, sql_max (map (\<lambda>r. r ''created_timestamp'')
                                  (filter (\<lambda>b. b (uid_col fv) = u \<and> b ''event_timestamp'' = t) B))))
       (remdups (map (\<lambda>b. (b (uid_col fv), b ''event_timestamp'')) B))"
  by (simp add: fv_dedup_def groups_def comp_def case_prod_unfold row_of_Cons_other prod_eq_iff)

lemma set_fv_dedup:
  "set (fv_dedup fv B) =
   (\<lambda>x. row_of [(uid_col fv, x (uid_col fv)), (''event_timestamp'', x ''event_timestamp''),
                  (''created_timestamp'',
                   sql_max (map (\<lambda>r. r ''created_timestamp'')
                     (filter (\<lambda>r. r (uid_col fv) = x (uid_col fv) \<and>
                                  r ''event_timestamp'' = x ''event_timestamp'') B)))]) ` set B"
  by (auto simp: fv_dedup_def groups_def image_iff prod_eq_iff)

lemma fv_dedup_keys:
  "map (\<lambda>d. (d (uid_col fv), d ''event_timestamp'')) (fv_dedup fv B) =
   remdups (map (\<lambda>b. (b (uid_col fv), b ''event_timestamp'')) B)"
proof -
  have "map (\<lambda>d. (d (uid_col fv), d ''event_timestamp'')) (fv_dedup fv B) =
        map fst (groups (\<lambda>r. (r (uid_col fv), r ''event_timestamp'')) B)"
    unfolding fv_dedup_def map_map
    by (rule map_cong[OF refl]) (auto simp: row_of_Cons_other)
  then show ?thesis by (simp only: groups_keys)
qed

lemma max_created_of_group:
  assumes b: "b \<in> set B"
  shows "(b ''created_timestamp'' \<noteq> Null \<and>
          b ''created_timestamp'' =
            sql_max (map (\<lambda>r. r ''created_timestamp'')
              (filter (\<lambda>r. r u = b u \<and> r ''event_timestamp'' = b ''event_timestamp'') B))) \<longleftrightarrow>
         (\<exists>c. b ''created_timestamp'' = IntV c \<and>
            (\<forall>x\<in>set B. x u = b u \<and> x ''event_timestamp'' = b ''event_timestamp'' \<longrightarrow>
               (\<forall>c'. x ''created_timestamp'' = IntV c' \<longrightarrow> c' \<le> c)))"
    (is "?L \<longleftrightarrow> ?R")
proof -
  let ?vs = "map (\<lambda>r. r ''created_timestamp'')
              (filter (\<lambda>r. r u = b u \<and> r ''event_timestamp'' = b ''event_timestamp'') B)"
  have mem: "IntV k \<in> set ?vs \<longleftrightarrow>
             (\<exists>x\<in>set B. x u = b u \<and> x ''event_timestamp'' = b ''event_timestamp'' \<and>
                x ''created_timestamp'' = IntV k)" for k
    by (auto simp: image_iff)
  show ?thesis
  proof
    assume L: ?L
    then have e: "b ''created_timestamp'' = sql_max ?vs" and n: "sql_max ?vs \<noteq> Null" by auto
    obtain c where mx: "sql_max ?vs = IntV c"
      using n sql_max_not_StrV[of ?vs] by (cases "sql_max ?vs") auto
    with e have c: "b ''created_timestamp'' = IntV c" by simp
    note mx
    then have "\<forall>c'. IntV c' \<in> set ?vs \<longrightarrow> c' \<le> c"
      using sql_max_IntV_iff[of ?vs c] by blast
    with c show ?R unfolding mem by blast
  next
    assume ?R
    then obtain c where c: "b ''created_timestamp'' = IntV c"
      and m: "\<forall>x\<in>set B. x u = b u \<and> x ''event_timestamp'' = b ''event_timestamp'' \<longrightarrow>
               (\<forall>c'. x ''created_timestamp'' = IntV c' \<longrightarrow> c' \<le> c)" by blast
    have "IntV c \<in> set ?vs" unfolding mem using b c by blast
    moreover have "\<forall>c'. IntV c' \<in> set ?vs \<longrightarrow> c' \<le> c" unfolding mem using m by blast
    ultimately have "sql_max ?vs = IntV c"
      using sql_max_IntV_iff[of ?vs c] by blast
    with c show ?L by simp
  qed
qed

lemma dedup_join:
  assumes H: "\<forall>b\<in>set B. b (uid_col fv) \<noteq> Null \<and> (\<exists>t. b ''event_timestamp'' = IntV t)"
  shows "inner_join_using [uid_col fv, ''event_timestamp'', ''created_timestamp''] [] B (fv_dedup fv B) =
         filter (\<lambda>b. \<exists>c. b ''created_timestamp'' = IntV c \<and>
                   (\<forall>x\<in>set B. x (uid_col fv) = b (uid_col fv) \<and>
                        x ''event_timestamp'' = b ''event_timestamp'' \<longrightarrow>
                      (\<forall>c'. x ''created_timestamp'' = IntV c' \<longrightarrow> c' \<le> c))) B"
proof -
  let ?u = "uid_col fv"
  let ?cols = "[?u, ''event_timestamp'', ''created_timestamp'']"
  have d: "distinct (map (\<lambda>d. (d ?u, d ''event_timestamp'')) (fv_dedup fv B))"
    by (simp only: fv_dedup_keys distinct_remdups)
  have j: "inner_join_using ?cols [] B (fv_dedup fv B) =
           filter (\<lambda>a. \<exists>d\<in>set (fv_dedup fv B). using_match ?cols a d) B"
    by (rule inner_join_using_filter[OF d, where k = "\<lambda>a. (a ?u, a ''event_timestamp'')"])
       (simp add: using_match_iff)
  have c: "(\<exists>d\<in>set (fv_dedup fv B). using_match ?cols b d) \<longleftrightarrow>
           (\<exists>c. b ''created_timestamp'' = IntV c \<and>
              (\<forall>x\<in>set B. x ?u = b ?u \<and> x ''event_timestamp'' = b ''event_timestamp'' \<longrightarrow>
                 (\<forall>c'. x ''created_timestamp'' = IntV c' \<longrightarrow> c' \<le> c)))"
    if b: "b \<in> set B" for b
  proof -
    from H b have nn: "b ?u \<noteq> Null" "b ''event_timestamp'' \<noteq> Null" by auto
    have "(\<exists>d\<in>set (fv_dedup fv B). using_match ?cols b d) \<longleftrightarrow>
          (b ''created_timestamp'' \<noteq> Null \<and>
           b ''created_timestamp'' =
             sql_max (map (\<lambda>r. r ''created_timestamp'')
               (filter (\<lambda>r. r ?u = b ?u \<and> r ''event_timestamp'' = b ''event_timestamp'') B)))"
      (is "?A \<longleftrightarrow> ?Bc")
    proof
      assume ?A
      then obtain x where x: "x \<in> set B" "b ?u = x ?u" "b ''event_timestamp'' = x ''event_timestamp''"
        "b ''created_timestamp'' = sql_max (map (\<lambda>r. r ''created_timestamp'')
               (filter (\<lambda>r. r ?u = x ?u \<and> r ''event_timestamp'' = x ''event_timestamp'') B))"
        "b ''created_timestamp'' \<noteq> Null"
        unfolding set_fv_dedup by (auto simp: using_match_iff row_of_Cons_other)
      then show ?Bc by simp
    next
      assume ?Bc
      with nn b show ?A
        unfolding set_fv_dedup by (auto simp: using_match_iff row_of_Cons_other intro!: bexI[of _ b])
    qed
    with max_created_of_group[OF b, of ?u] show ?thesis by simp
  qed
  show ?thesis unfolding j by (rule filter_cong[OF refl]) (rule c)
qed

lemma fv_latest_Some:
  assumes cr: "truthy (created_timestamp_column fv) = Some c"
    and H: "\<forall>b\<in>set B. b (uid_col fv) \<noteq> Null \<and> (\<exists>t. b ''event_timestamp'' = IntV t)"
  shows "fv_latest fv B =
         map (\<lambda>m. row_of [(''event_timestamp'', m ''event_timestamp''),
                           (''created_timestamp'', m ''created_timestamp''),
                           (uid_col fv, m (uid_col fv))])
           (first_rows (\<lambda>r. r (uid_col fv)) [''event_timestamp'', ''created_timestamp'']
              (filter (\<lambda>b. \<exists>c. b ''created_timestamp'' = IntV c \<and>
                   (\<forall>x\<in>set B. x (uid_col fv) = b (uid_col fv) \<and>
                        x ''event_timestamp'' = b ''event_timestamp'' \<longrightarrow>
                      (\<forall>c'. x ''created_timestamp'' = IntV c' \<longrightarrow> c' \<le> c))) B))"
  unfolding fv_latest_def cr option.case dedup_join[OF H] first_rows_of_row_number_over' map_map comp_def
  by (simp add: with_columns_single_other)

lemma first_is_newest:
  assumes H: "\<forall>b\<in>set B. b u \<noteq> Null \<and> (\<exists>t. b ''event_timestamp'' = IntV t)"
    and m: "m \<in> set (first_rows (\<lambda>r. r u) [''event_timestamp'', ''created_timestamp'']
              (filter (\<lambda>b. \<exists>c. b ''created_timestamp'' = IntV c \<and>
                   (\<forall>x\<in>set B. x u = b u \<and> x ''event_timestamp'' = b ''event_timestamp'' \<longrightarrow>
                      (\<forall>c'. x ''created_timestamp'' = IntV c' \<longrightarrow> c' \<le> c))) B))"
    and x: "x \<in> set B" "x u = m u" "x ''created_timestamp'' = IntV c'"
  shows "\<exists>t t' k. m ''event_timestamp'' = IntV t \<and> x ''event_timestamp'' = IntV t' \<and>
           m ''created_timestamp'' = IntV k \<and> (t' < t \<or> (t' = t \<and> c' \<le> k))"
proof -
  let ?Q = "\<lambda>b. \<exists>c. b ''created_timestamp'' = IntV c \<and>
                   (\<forall>x\<in>set B. x u = b u \<and> x ''event_timestamp'' = b ''event_timestamp'' \<longrightarrow>
                      (\<forall>c'. x ''created_timestamp'' = IntV c' \<longrightarrow> c' \<le> c))"
  let ?I = "filter ?Q B"
  let ?vs = "map (\<lambda>r. r ''created_timestamp'')
              (filter (\<lambda>r. r u = x u \<and> r ''event_timestamp'' = x ''event_timestamp'') B)"
  have mI: "m \<in> set ?I" using m first_rows_subset by blast
  then have mB: "m \<in> set B" and Qm: "?Q m" by auto
  from Qm obtain k where k: "m ''created_timestamp'' = IntV k" by blast
  from H mB obtain t where t: "m ''event_timestamp'' = IntV t" by blast
  from H x(1) obtain t' where t': "x ''event_timestamp'' = IntV t'" by blast
  have "IntV c' \<in> set ?vs" using x(1,3) by (auto simp: image_iff)
  from sql_max_exists[OF this] obtain cm where cm: "sql_max ?vs = IntV cm" "c' \<le> cm" by blast
  from cm(1) have in_vs: "IntV cm \<in> set ?vs" and top: "\<forall>c''. IntV c'' \<in> set ?vs \<longrightarrow> c'' \<le> cm"
    using sql_max_IntV_iff[of ?vs cm] by blast+
  from in_vs obtain y where y: "y \<in> set B" "y u = x u" "y ''event_timestamp'' = x ''event_timestamp''"
    "y ''created_timestamp'' = IntV cm" by (auto simp: image_iff)
  have "?Q y"
  proof (intro exI[of _ cm] conjI ballI impI allI)
    show "y ''created_timestamp'' = IntV cm" by (rule y(4))
  next
    fix z c''
    assume z: "z \<in> set B" "z u = y u \<and> z ''event_timestamp'' = y ''event_timestamp''"
      "z ''created_timestamp'' = IntV c''"
    then have "IntV c'' \<in> set ?vs" using y(2,3) by (auto simp: image_iff)
    with top show "c'' \<le> cm" by blast
  qed
  with y(1) have yI: "y \<in> set ?I" by simp
  have "order_desc_le [''event_timestamp'', ''created_timestamp''] m y"
    using first_rows_least[OF m yI] y(2) x(2) by simp
  moreover have "y ''event_timestamp'' = IntV t'" using y(3) t' by simp
  ultimately have "t' < t \<or> (t' = t \<and> cm \<le> k)"
    using order_desc_le_pair[of m "''event_timestamp''" t y t' "''created_timestamp''" k cm] t k y(4)
    by simp
  with cm(2) t t' k show ?thesis by auto
qed

lemma cleaned_join_Some:
  assumes cr: "truthy (created_timestamp_column fv) = Some c0"
    and H: "\<forall>b\<in>set B. b (uid_col fv) \<noteq> Null \<and> (\<exists>t. b ''event_timestamp'' = IntV t)"
  shows "cleaned_join fv B =
         filter (\<lambda>b. (\<exists>k. b ''created_timestamp'' = IntV k) \<and>
                  (\<forall>x\<in>set B. x (uid_col fv) = b (uid_col fv) \<and> (\<exists>k'. x ''created_timestamp'' = IntV k') \<longrightarrow>
                     (\<exists>t t' k k'. b ''event_timestamp'' = IntV t \<and> x ''event_timestamp'' = IntV t' \<and>
                        b ''created_timestamp'' = IntV k \<and> x ''created_timestamp'' = IntV k' \<and>
                        (t' < t \<or> (t' = t \<and> k' \<le> k))))) B"
proof -
  let ?u = "uid_col fv"
  let ?cols = "[?u, ''event_timestamp'', ''created_timestamp'']"
  let ?Q = "\<lambda>b. \<exists>c. b ''created_timestamp'' = IntV c \<and>
                   (\<forall>x\<in>set B. x ?u = b ?u \<and> x ''event_timestamp'' = b ''event_timestamp'' \<longrightarrow>
                      (\<forall>c'. x ''created_timestamp'' = IntV c' \<longrightarrow> c' \<le> c))"
  let ?I = "filter ?Q B"
  let ?ms = "first_rows (\<lambda>r. r ?u) [''event_timestamp'', ''created_timestamp''] ?I"
  let ?proj = "\<lambda>m. row_of [(''event_timestamp'', m ''event_timestamp''),
                           (''created_timestamp'', m ''created_timestamp''), (?u, m ?u)]"
  let ?P = "\<lambda>b. (\<exists>k. b ''created_timestamp'' = IntV k) \<and>
                  (\<forall>x\<in>set B. x ?u = b ?u \<and> (\<exists>k'. x ''created_timestamp'' = IntV k') \<longrightarrow>
                     (\<exists>t t' k k'. b ''event_timestamp'' = IntV t \<and> x ''event_timestamp'' = IntV t' \<and>
                        b ''created_timestamp'' = IntV k \<and> x ''created_timestamp'' = IntV k' \<and>
                        (t' < t \<or> (t' = t \<and> k' \<le> k))))"
  have pu: "?proj m ?u = m ?u" for m by (simp add: row_of_Cons_other)
  have pe: "?proj m ''event_timestamp'' = m ''event_timestamp''" for m by simp
  have pc: "?proj m ''created_timestamp'' = m ''created_timestamp''" for m
    by (simp add: row_of_Cons_other)
  have d: "distinct (map (\<lambda>l. l ?u) (map ?proj ?ms))"
    unfolding map_map comp_def pu by (simp only: first_rows_keys distinct_remdups)
  have j: "cleaned_join fv B = filter (\<lambda>a. \<exists>l\<in>set (map ?proj ?ms). using_match ?cols a l) B"
    unfolding cleaned_join_def cleaned_using_def cr fv_latest_Some[OF cr H] option.case append.simps
    by (rule inner_join_using_filter[OF d, where k = "\<lambda>a. a ?u"])
       (simp add: using_match_iff)
  have keys: "(\<lambda>r. r ?u) ` set ?ms = (\<lambda>r. r ?u) ` set ?I"
  proof -
    have "set (map (\<lambda>r. r ?u) ?ms) = set (remdups (map (\<lambda>r. r ?u) ?I))"
      by (simp only: first_rows_keys)
    then show ?thesis by (simp only: set_map set_remdups)
  qed
  have um: "using_match ?cols b (?proj m) \<longleftrightarrow>
            b ?u = m ?u \<and> b ?u \<noteq> Null \<and> b ''event_timestamp'' = m ''event_timestamp'' \<and>
            b ''event_timestamp'' \<noteq> Null \<and> b ''created_timestamp'' = m ''created_timestamp'' \<and>
            b ''created_timestamp'' \<noteq> Null" for b m
    unfolding using_match_iff by (simp add: pu pe pc)
  have c: "(\<exists>l\<in>set (map ?proj ?ms). using_match ?cols b l) \<longleftrightarrow> ?P b" if b: "b \<in> set B" for b
  proof
    assume "\<exists>l\<in>set (map ?proj ?ms). using_match ?cols b l"
    then obtain m where m: "m \<in> set ?ms" and mm: "using_match ?cols b (?proj m)" by auto
    from mm have e: "b ?u = m ?u" "b ''event_timestamp'' = m ''event_timestamp''"
      "b ''created_timestamp'' = m ''created_timestamp''"
      unfolding um by blast+
    show "?P b"
    proof (intro conjI ballI impI)
      have "m \<in> set ?I" using m first_rows_subset by blast
      then show "\<exists>k. b ''created_timestamp'' = IntV k" using e(3) by auto
    next
      fix x assume x: "x \<in> set B" "x ?u = b ?u \<and> (\<exists>k'. x ''created_timestamp'' = IntV k')"
      then obtain k' where k': "x ''created_timestamp'' = IntV k'" by blast
      from x e(1) have xu: "x ?u = m ?u" by simp
      from first_is_newest[OF H m x(1) xu k']
      obtain t t' k where "m ''event_timestamp'' = IntV t" "x ''event_timestamp'' = IntV t'"
        "m ''created_timestamp'' = IntV k" "t' < t \<or> (t' = t \<and> k' \<le> k)" by blast
      with e k' show "\<exists>t t' k k'. b ''event_timestamp'' = IntV t \<and> x ''event_timestamp'' = IntV t' \<and>
                        b ''created_timestamp'' = IntV k \<and> x ''created_timestamp'' = IntV k' \<and>
                        (t' < t \<or> (t' = t \<and> k' \<le> k))" by simp
    qed
  next
    assume P: "?P b"
    then obtain kb where kb: "b ''created_timestamp'' = IntV kb" by blast
    from H b obtain tb where tb: "b ''event_timestamp'' = IntV tb" by blast
    have Qb: "?Q b"
    proof (intro exI[of _ kb] conjI ballI impI allI)
      show "b ''created_timestamp'' = IntV kb" by (rule kb)
    next
      fix x c'
      assume x: "x \<in> set B" "x ?u = b ?u \<and> x ''event_timestamp'' = b ''event_timestamp''"
        "x ''created_timestamp'' = IntV c'"
      with P obtain t t' k k' where "b ''event_timestamp'' = IntV t" "x ''event_timestamp'' = IntV t'"
        "b ''created_timestamp'' = IntV k" "x ''created_timestamp'' = IntV k'"
        "t' < t \<or> (t' = t \<and> k' \<le> k)" by blast
      with x kb show "c' \<le> kb" by simp
    qed
    with b have bI: "b \<in> set ?I" by simp
    then have "b ?u \<in> (\<lambda>r. r ?u) ` set ?I" by (rule imageI)
    with keys have "b ?u \<in> (\<lambda>r. r ?u) ` set ?ms" by simp
    then obtain m where m: "m \<in> set ?ms" "m ?u = b ?u" by (auto simp: image_iff)
    have mI: "m \<in> set ?I" using m(1) first_rows_subset by blast
    then have mB: "m \<in> set B" and "?Q m" by auto
    then obtain km where km: "m ''created_timestamp'' = IntV km" by blast
    from H mB obtain tm where tm: "m ''event_timestamp'' = IntV tm" by blast
    have "order_desc_le [''event_timestamp'', ''created_timestamp''] m b"
      using first_rows_least[OF m(1) bI] m(2) by simp
    then have 1: "tb < tm \<or> (tb = tm \<and> kb \<le> km)"
      using order_desc_le_pair[of m "''event_timestamp''" tm b tb "''created_timestamp''" km kb]
        tm tb km kb by simp
    from P mB m(2) km obtain t t' k k' where "b ''event_timestamp'' = IntV t"
      "m ''event_timestamp'' = IntV t'" "b ''created_timestamp'' = IntV k"
      "m ''created_timestamp'' = IntV k'" "t' < t \<or> (t' = t \<and> k' \<le> k)" by blast
    with tb tm kb km have 2: "tm < tb \<or> (tm = tb \<and> km \<le> kb)" by simp
    from 1 2 have "tm = tb" "km = kb" by auto
    moreover have "b ?u \<noteq> Null" using H b by blast
    ultimately have "using_match ?cols b (?proj m)"
      unfolding um using m(2) tb tm kb km by simp
    with m(1) show "\<exists>l\<in>set (map ?proj ?ms). using_match ?cols b l" by auto
  qed
  show ?thesis unfolding j by (rule filter_cong[OF refl]) (rule c)
qed

lemma zip_cols: "zip cols (map r cols) = map (\<lambda>c. (c, r c)) cols"
  by (induction cols) auto

lemma set_fv_entity_dataframe:
  "set (fv_entity_dataframe fv ed) =
   (\<lambda>r. row_of (map (\<lambda>c. (c, r c)) (entities fv @ [''entity_timestamp'', uid_col fv]))) ` set ed"
  unfolding fv_entity_dataframe_def Let_def
  by (simp only: set_map set_remdups image_image zip_cols)

lemma entity_dataframe_row:
  assumes "distinct (map name fvs)" "fv \<in> set fvs"
  shows "with_columns r ((''entity_timestamp'', r ts_col) #
            map (\<lambda>fv. (uid_col fv, entity_row_unique_id ts_col fv r)) fvs) (uid_col fv) =
         entity_row_unique_id ts_col fv r"
  using assms by (simp add: with_columns_def map_of_uid_cols)

lemma entity_dataframe_other:
  assumes "k \<noteq> ''entity_timestamp''" "k \<notin> uid_col ` set fvs"
  shows "with_columns r ((''entity_timestamp'', v) # map (\<lambda>fv. (uid_col fv, g fv)) fvs) k = r k"
proof -
  have "map_of (map (\<lambda>fv. (uid_col fv, g fv)) fvs) k = None"
    using assms(2) by (induction fvs) auto
  with assms(1) show ?thesis by (simp add: with_columns_def)
qed

lemma base_rows_have_ids:
  assumes dn: "distinct (map name fvs)" and fv: "fv \<in> set fvs"
    and en: "\<forall>k\<in>set (entities fv). k \<noteq> ''entity_timestamp'' \<and> k \<notin> uid_col ` set fvs"
    and b: "b \<in> set (fv_base fv sub (fv_entity_dataframe fv (entity_dataframe ts_col fvs left_table)))"
  shows "b (uid_col fv) \<noteq> Null \<and> (\<exists>t. b ''event_timestamp'' = IntV t)"
proof -
  let ?cols = "entities fv @ [''entity_timestamp'', uid_col fv]"
  from b obtain s e where s: "s \<in> set sub"
    and e: "e \<in> set (fv_entity_dataframe fv (entity_dataframe ts_col fvs left_table))"
    and h: "holds (base_on fv s e)"
    and bd: "b = with_columns s [(''entity_timestamp'', e ''entity_timestamp''), (uid_col fv, e (uid_col fv))]"
    by (auto simp: fv_base_def inner_join_on_def)
  from e obtain r0 where r0: "r0 \<in> set left_table"
    and ed: "e = row_of (map (\<lambda>c. (c, (with_columns r0 ((''entity_timestamp'', r0 ts_col) #
                 map (\<lambda>fv. (uid_col fv, entity_row_unique_id ts_col fv r0)) fvs)) c)) ?cols)"
    unfolding set_fv_entity_dataframe entity_dataframe_def by auto
  let ?r = "with_columns r0 ((''entity_timestamp'', r0 ts_col) #
                 map (\<lambda>fv. (uid_col fv, entity_row_unique_id ts_col fv r0)) fvs)"
  have ec: "e c = ?r c" if "c \<in> set ?cols" for c
    using that unfolding ed by (simp only: row_of_cols if_True)
  have eu: "e (uid_col fv) = entity_row_unique_id ts_col fv r0"
    using ec[of "uid_col fv"] entity_dataframe_row[OF dn fv] by simp
  have et: "e ''entity_timestamp'' = r0 ts_col"
    using ec[of "''entity_timestamp''"] by (simp add: with_columns_def)
  have ek: "e k = r0 k" if "k \<in> set (entities fv)" for k
    using ec[of k] en that entity_dataframe_other[of k fvs r0] by simp
  from h obtain t te where tt: "s ''event_timestamp'' = IntV t" "e ''entity_timestamp'' = IntV te"
    and kk: "\<forall>k\<in>set (entities fv). s k = e k \<and> s k \<noteq> Null"
    unfolding holds_base_on by blast
  have ts: "r0 ts_col \<noteq> Null" using tt(2) et by simp
  have keys: "\<forall>k\<in>set (entities fv). r0 k \<noteq> Null" using kk ek by auto
  have "entity_row_unique_id ts_col fv r0 \<noteq> Null"
  proof (cases "entities fv = []")
    case True
    with ts show ?thesis by (simp add: entity_row_unique_id_def) (metis text_of_cast_varchar text_of.simps(2))
  next
    case False
    with ts keys show ?thesis
      by (simp add: entity_row_unique_id_def sql_concat_def list_all_iff text_of_cast_varchar)
  qed
  with eu tt(1) show ?thesis unfolding bd by (simp add: with_columns_def)
qed

lemma fv_latest_None_props:
  assumes cr: "truthy (created_timestamp_column fv) = None"
    and H: "\<forall>b\<in>set B. b (uid_col fv) \<noteq> Null \<and> (\<exists>t. b ''event_timestamp'' = IntV t)"
  shows "map (\<lambda>l. l (uid_col fv)) (fv_latest fv B) = remdups (map (\<lambda>b. b (uid_col fv)) B)"
    and "\<forall>l\<in>set (fv_latest fv B). \<forall>x\<in>set B. x (uid_col fv) = l (uid_col fv) \<longrightarrow>
           (\<exists>t t'. l ''event_timestamp'' = IntV t \<and> x ''event_timestamp'' = IntV t' \<and> t' \<le> t)"
proof -
  let ?u = "uid_col fv"
  let ?ms = "first_rows (\<lambda>r. r ?u) [''event_timestamp''] B"
  let ?proj = "\<lambda>m. row_of [(''event_timestamp'', m ''event_timestamp''), (?u, m ?u)]"
  have pu: "?proj m ?u = m ?u" for m by (simp add: row_of_Cons_other)
  have pe: "?proj m ''event_timestamp'' = m ''event_timestamp''" for m by simp
  show "map (\<lambda>l. l ?u) (fv_latest fv B) = remdups (map (\<lambda>b. b ?u) B)"
    unfolding fv_latest_None[OF cr] map_map comp_def pu by (rule first_rows_keys)
  show "\<forall>l\<in>set (fv_latest fv B). \<forall>x\<in>set B. x ?u = l ?u \<longrightarrow>
           (\<exists>t t'. l ''event_timestamp'' = IntV t \<and> x ''event_timestamp'' = IntV t' \<and> t' \<le> t)"
  proof (intro ballI impI)
    fix l x assume l: "l \<in> set (fv_latest fv B)" and x: "x \<in> set B" "x ?u = l ?u"
    from l obtain m where m: "m \<in> set ?ms" "l = ?proj m"
      unfolding fv_latest_None[OF cr] by auto
    have mB: "m \<in> set B" using m(1) first_rows_subset by blast
    from H mB obtain t where t: "m ''event_timestamp'' = IntV t" by blast
    from H x(1) obtain t' where t': "x ''event_timestamp'' = IntV t'" by blast
    have "order_desc_le [''event_timestamp''] m x"
      using first_rows_least[OF m(1) x(1)] x(2) m(2) pu by simp
    with order_desc_le_single[of m "''event_timestamp''" t x t', OF t t'] have "t' \<le> t" by simp
    with t t' show "\<exists>t t'. l ''event_timestamp'' = IntV t \<and> x ''event_timestamp'' = IntV t' \<and> t' \<le> t"
      unfolding m(2) pe by blast
  qed
qed

lemma fv_latest_Some_props:
  assumes cr: "truthy (created_timestamp_column fv) = Some c0"
    and H: "\<forall>b\<in>set B. b (uid_col fv) \<noteq> Null \<and> (\<exists>t. b ''event_timestamp'' = IntV t)"
  shows "distinct (map (\<lambda>l. l (uid_col fv)) (fv_latest fv B))"
    and "\<forall>l\<in>set (fv_latest fv B). \<forall>x\<in>set B.
           x (uid_col fv) = l (uid_col fv) \<and> (\<exists>k'. x ''created_timestamp'' = IntV k') \<longrightarrow>
           (\<exists>t t' k k'. l ''event_timestamp'' = IntV t \<and> x ''event_timestamp'' = IntV t' \<and>
              l ''created_timestamp'' = IntV k \<and> x ''created_timestamp'' = IntV k' \<and>
              (t' < t \<or> (t' = t \<and> k' \<le> k)))"
proof -
  let ?u = "uid_col fv"
  let ?I = "filter (\<lambda>b. \<exists>c. b ''created_timestamp'' = IntV c \<and>
                   (\<forall>x\<in>set B. x ?u = b ?u \<and> x ''event_timestamp'' = b ''event_timestamp'' \<longrightarrow>
                      (\<forall>c'. x ''created_timestamp'' = IntV c' \<longrightarrow> c' \<le> c))) B"
  let ?ms = "first_rows (\<lambda>r. r ?u) [''event_timestamp'', ''created_timestamp''] ?I"
  let ?proj = "\<lambda>m. row_of [(''event_timestamp'', m ''event_timestamp''),
                           (''created_timestamp'', m ''created_timestamp''), (?u, m ?u)]"
  have pu: "?proj m ?u = m ?u" for m by (simp add: row_of_Cons_other)
  have pe: "?proj m ''event_timestamp'' = m ''event_timestamp''" for m by simp
  have pc: "?proj m ''created_timestamp'' = m ''created_timestamp''" for m
    by (simp add: row_of_Cons_other)
  show "distinct (map (\<lambda>l. l ?u) (fv_latest fv B))"
    unfolding fv_latest_Some[OF cr H] map_map comp_def pu
    by (simp only: first_rows_keys distinct_remdups)
  show "\<forall>l\<in>set (fv_latest fv B). \<forall>x\<in>set B.
           x ?u = l ?u \<and> (\<exists>k'. x ''created_timestamp'' = IntV k') \<longrightarrow>
           (\<exists>t t' k k'. l ''event_timestamp'' = IntV t \<and> x ''event_timestamp'' = IntV t' \<and>
              l ''created_timestamp'' = IntV k \<and> x ''created_timestamp'' = IntV k' \<and>
              (t' < t \<or> (t' = t \<and> k' \<le> k)))"
  proof (intro ballI impI)
    fix l x assume l: "l \<in> set (fv_latest fv B)" and x: "x \<in> set B"
      and xx: "x ?u = l ?u \<and> (\<exists>k'. x ''created_timestamp'' = IntV k')"
    from l obtain m where m: "m \<in> set ?ms" "l = ?proj m"
      unfolding fv_latest_Some[OF cr H] by auto
    from xx obtain k' where k': "x ''created_timestamp'' = IntV k'" by blast
    from xx m(2) pu have xu: "x ?u = m ?u" by simp
    from first_is_newest[OF H m(1) x xu k']
    obtain t t' k where "m ''event_timestamp'' = IntV t" "x ''event_timestamp'' = IntV t'"
        "m ''created_timestamp'' = IntV k" "t' < t \<or> (t' = t \<and> k' \<le> k)" by blast
    with k' show "\<exists>t t' k k'. l ''event_timestamp'' = IntV t \<and> x ''event_timestamp'' = IntV t' \<and>
              l ''created_timestamp'' = IntV k \<and> x ''created_timestamp'' = IntV k' \<and>
              (t' < t \<or> (t' = t \<and> k' \<le> k))"
      unfolding m(2) pe pc by blast
  qed
qed


lemma fv_cleaned_None:
  assumes cr: "truthy (created_timestamp_column fv) = None"
    and H: "\<forall>b\<in>set B. b (uid_col fv) \<noteq> Null \<and> (\<exists>t. b ''event_timestamp'' = IntV t)"
  shows "fv_cleaned fv B =
         map (\<lambda>b. with_columns (without_columns b [uid_col fv, ''event_timestamp''])
                     [(uid_col fv, b (uid_col fv))])
           (filter (\<lambda>b. \<forall>x\<in>set B. x (uid_col fv) = b (uid_col fv) \<longrightarrow>
                   (\<exists>t u. b ''event_timestamp'' = IntV t \<and> x ''event_timestamp'' = IntV u \<and> u \<le> t)) B)"
  unfolding fv_cleaned_def cleaned_join_None[OF cr H]
  by (simp add: cleaned_using_def cr)

lemma fv_cleaned_Some:
  assumes cr: "truthy (created_timestamp_column fv) = Some c0"
    and H: "\<forall>b\<in>set B. b (uid_col fv) \<noteq> Null \<and> (\<exists>t. b ''event_timestamp'' = IntV t)"
  shows "fv_cleaned fv B =
         map (\<lambda>b. with_columns
                     (without_columns b [uid_col fv, ''event_timestamp'', ''created_timestamp''])
                     [(uid_col fv, b (uid_col fv))])
           (filter (\<lambda>b. (\<exists>k. b ''created_timestamp'' = IntV k) \<and>
                  (\<forall>x\<in>set B. x (uid_col fv) = b (uid_col fv) \<and> (\<exists>k'. x ''created_timestamp'' = IntV k') \<longrightarrow>
                     (\<exists>t t' k k'. b ''event_timestamp'' = IntV t \<and> x ''event_timestamp'' = IntV t' \<and>
                        b ''created_timestamp'' = IntV k \<and> x ''created_timestamp'' = IntV k' \<and>
                        (t' < t \<or> (t' = t \<and> k' \<le> k))))) B)"
  unfolding fv_cleaned_def cleaned_join_Some[OF cr H]
  by (simp add: cleaned_using_def cr)

lemma fv_cleaned_Some_total:
  assumes cr: "truthy (created_timestamp_column fv) = Some c0"
    and H: "\<forall>b\<in>set B. b (uid_col fv) \<noteq> Null \<and> (\<exists>t. b ''event_timestamp'' = IntV t)"
    and Hc: "\<forall>b\<in>set B. \<exists>k. b ''created_timestamp'' = IntV k"
  shows "fv_cleaned fv B =
         map (\<lambda>b. with_columns
                     (without_columns b [uid_col fv, ''event_timestamp'', ''created_timestamp''])
                     [(uid_col fv, b (uid_col fv))])
           (filter (\<lambda>b. \<forall>x\<in>set B. x (uid_col fv) = b (uid_col fv) \<longrightarrow>
                     (\<exists>t t' k k'. b ''event_timestamp'' = IntV t \<and> x ''event_timestamp'' = IntV t' \<and>
                        b ''created_timestamp'' = IntV k \<and> x ''created_timestamp'' = IntV k' \<and>
                        (t' < t \<or> (t' = t \<and> k' \<le> k)))) B)"
proof -
  have "filter (\<lambda>b. (\<exists>k. b ''created_timestamp'' = IntV k) \<and>
                  (\<forall>x\<in>set B. x (uid_col fv) = b (uid_col fv) \<and> (\<exists>k'. x ''created_timestamp'' = IntV k') \<longrightarrow>
                     (\<exists>t t' k k'. b ''event_timestamp'' = IntV t \<and> x ''event_timestamp'' = IntV t' \<and>
                        b ''created_timestamp'' = IntV k \<and> x ''created_timestamp'' = IntV k' \<and>
                        (t' < t \<or> (t' = t \<and> k' \<le> k))))) B =
        filter (\<lambda>b. \<forall>x\<in>set B. x (uid_col fv) = b (uid_col fv) \<longrightarrow>
                     (\<exists>t t' k k'. b ''event_timestamp'' = IntV t \<and> x ''event_timestamp'' = IntV t' \<and>
                        b ''created_timestamp'' = IntV k \<and> x ''created_timestamp'' = IntV k' \<and>
                        (t' < t \<or> (t' = t \<and> k' \<le> k)))) B"
  proof (rule filter_cong[OF refl])
    fix b assume b: "b \<in> set B"
    from Hc b obtain kb where kb: "b ''created_timestamp'' = IntV kb" by blast
    show "((\<exists>k. b ''created_timestamp'' = IntV k) \<and>
                  (\<forall>x\<in>set B. x (uid_col fv) = b (uid_col fv) \<and> (\<exists>k'. x ''created_timestamp'' = IntV k') \<longrightarrow>
                     (\<exists>t t' k k'. b ''event_timestamp'' = IntV t \<and> x ''event_timestamp'' = IntV t' \<and>
                        b ''created_timestamp'' = IntV k \<and> x ''created_timestamp'' = IntV k' \<and>
                        (t' < t \<or> (t' = t \<and> k' \<le> k))))) =
          (\<forall>x\<in>set B. x (uid_col fv) = b (uid_col fv) \<longrightarrow>
                     (\<exists>t t' k k'. b ''event_timestamp'' = IntV t \<and> x ''event_timestamp'' = IntV t' \<and>
                        b ''created_timestamp'' = IntV k \<and> x ''created_timestamp'' = IntV k' \<and>
                        (t' < t \<or> (t' = t \<and> k' \<le> k))))"
      using Hc kb by blast
  qed
  then show ?thesis unfolding fv_cleaned_Some[OF cr H] by simp
qed

text \<open>
  C3. On joined rows that carry a unique id and an event timestamp (as the rows of
  \<^verbatim>\<open>__base\<close> do, last part). With a created-timestamp column, and no joined row whose
  created timestamp is NULL: \<^verbatim>\<open>__dedup\<close> has one row per (unique id, event timestamp), with
  the greatest created timestamp of the rows sharing them; \<^verbatim>\<open>__latest\<close> has one row per
  unique id, and no joined row with that id is newer, by event timestamp and then created
  timestamp; \<^verbatim>\<open>__cleaned\<close> holds the rows of \<^verbatim>\<open>__base\<close> that carry, for their unique id,
  that newest pair of event and created timestamp, each with the columns of \<^verbatim>\<open>base.*\<close>
  (those of \<^verbatim>\<open>__base\<close> but the three of \<^verbatim>\<open>USING\<close>) and the unique id. Without a
  created-timestamp column the ranking is by event timestamp only, \<^verbatim>\<open>__cleaned\<close> holds the
  rows of \<^verbatim>\<open>__base\<close> whose event timestamp is the greatest of their unique id, and the
  \<^verbatim>\<open>USING\<close> columns are the unique id and the event timestamp.
\<close>

theorem latest_row_per_unique_id:
  "((\<forall>b\<in>set B. b (uid_col fv) \<noteq> Null \<and> (\<exists>t. b ''event_timestamp'' = IntV t)) \<longrightarrow>
      (truthy (created_timestamp_column fv) = None \<longrightarrow>
         map (\<lambda>l. l (uid_col fv)) (fv_latest fv B) = remdups (map (\<lambda>b. b (uid_col fv)) B) \<and>
         (\<forall>l\<in>set (fv_latest fv B). \<forall>x\<in>set B. x (uid_col fv) = l (uid_col fv) \<longrightarrow>
            (\<exists>t t'. l ''event_timestamp'' = IntV t \<and> x ''event_timestamp'' = IntV t' \<and> t' \<le> t)) \<and>
         fv_cleaned fv B =
           map (\<lambda>b. with_columns (without_columns b [uid_col fv, ''event_timestamp''])
                       [(uid_col fv, b (uid_col fv))])
             (filter (\<lambda>b. \<forall>x\<in>set B. x (uid_col fv) = b (uid_col fv) \<longrightarrow>
                       (\<exists>t u. b ''event_timestamp'' = IntV t \<and> x ''event_timestamp'' = IntV u \<and> u \<le> t))
                B)) \<and>
      (truthy (created_timestamp_column fv) \<noteq> None \<and>
       (\<forall>b\<in>set B. \<exists>k. b ''created_timestamp'' = IntV k) \<longrightarrow>
         map (\<lambda>d. (d (uid_col fv), d ''event_timestamp'', d ''created_timestamp'')) (fv_dedup fv B) =
           map (\<lambda>(u, t). (u, t, sql_max (map (\<lambda>r. r ''created_timestamp'')
                                  (filter (\<lambda>b. b (uid_col fv) = u \<and> b ''event_timestamp'' = t) B))))
               (remdups (map (\<lambda>b. (b (uid_col fv), b ''event_timestamp'')) B)) \<and>
         distinct (map (\<lambda>l. l (uid_col fv)) (fv_latest fv B)) \<and>
         (\<forall>l\<in>set (fv_latest fv B). \<forall>x\<in>set B. x (uid_col fv) = l (uid_col fv) \<longrightarrow>
            (\<exists>t t' k k'. l ''event_timestamp'' = IntV t \<and> x ''event_timestamp'' = IntV t' \<and>
               l ''created_timestamp'' = IntV k \<and> x ''created_timestamp'' = IntV k' \<and>
               (t' < t \<or> (t' = t \<and> k' \<le> k)))) \<and>
         fv_cleaned fv B =
           map (\<lambda>b. with_columns
                       (without_columns b [uid_col fv, ''event_timestamp'', ''created_timestamp''])
                       [(uid_col fv, b (uid_col fv))])
             (filter (\<lambda>b. \<forall>x\<in>set B. x (uid_col fv) = b (uid_col fv) \<longrightarrow>
                       (\<exists>t t' k k'. b ''event_timestamp'' = IntV t \<and> x ''event_timestamp'' = IntV t' \<and>
                          b ''created_timestamp'' = IntV k \<and> x ''created_timestamp'' = IntV k' \<and>
                          (t' < t \<or> (t' = t \<and> k' \<le> k))))
                B)))
   \<and> (distinct (map name fvs) \<and> fv \<in> set fvs \<and>
        (\<forall>k\<in>set (entities fv). k \<noteq> ''entity_timestamp'' \<and> k \<notin> uid_col ` set fvs) \<longrightarrow>
        (\<forall>b\<in>set (fv_base fv sub (fv_entity_dataframe fv (entity_dataframe ts_col fvs left_table))).
           b (uid_col fv) \<noteq> Null \<and> (\<exists>t. b ''event_timestamp'' = IntV t)))"
proof (intro conjI impI)
  assume H: "\<forall>b\<in>set B. b (uid_col fv) \<noteq> Null \<and> (\<exists>t. b ''event_timestamp'' = IntV t)"
    and cr: "truthy (created_timestamp_column fv) = None"
  show "map (\<lambda>l. l (uid_col fv)) (fv_latest fv B) = remdups (map (\<lambda>b. b (uid_col fv)) B)"
    by (rule fv_latest_None_props(1)[OF cr H])
  show "\<forall>l\<in>set (fv_latest fv B). \<forall>x\<in>set B. x (uid_col fv) = l (uid_col fv) \<longrightarrow>
            (\<exists>t t'. l ''event_timestamp'' = IntV t \<and> x ''event_timestamp'' = IntV t' \<and> t' \<le> t)"
    by (rule fv_latest_None_props(2)[OF cr H])
  show "fv_cleaned fv B =
           map (\<lambda>b. with_columns (without_columns b [uid_col fv, ''event_timestamp''])
                       [(uid_col fv, b (uid_col fv))])
             (filter (\<lambda>b. \<forall>x\<in>set B. x (uid_col fv) = b (uid_col fv) \<longrightarrow>
                       (\<exists>t u. b ''event_timestamp'' = IntV t \<and> x ''event_timestamp'' = IntV u \<and> u \<le> t))
                B)"
    by (rule fv_cleaned_None[OF cr H])
next
  assume H: "\<forall>b\<in>set B. b (uid_col fv) \<noteq> Null \<and> (\<exists>t. b ''event_timestamp'' = IntV t)"
    and a: "truthy (created_timestamp_column fv) \<noteq> None \<and>
            (\<forall>b\<in>set B. \<exists>k. b ''created_timestamp'' = IntV k)"
  from a obtain c0 where cr: "truthy (created_timestamp_column fv) = Some c0" by auto
  from a have Hc: "\<forall>b\<in>set B. \<exists>k. b ''created_timestamp'' = IntV k" by simp
  show "map (\<lambda>d. (d (uid_col fv), d ''event_timestamp'', d ''created_timestamp'')) (fv_dedup fv B) =
           map (\<lambda>(u, t). (u, t, sql_max (map (\<lambda>r. r ''created_timestamp'')
                                  (filter (\<lambda>b. b (uid_col fv) = u \<and> b ''event_timestamp'' = t) B))))
               (remdups (map (\<lambda>b. (b (uid_col fv), b ''event_timestamp'')) B))"
    by (rule fv_dedup_rows)
  show "distinct (map (\<lambda>l. l (uid_col fv)) (fv_latest fv B))"
    by (rule fv_latest_Some_props(1)[OF cr H])
  show "\<forall>l\<in>set (fv_latest fv B). \<forall>x\<in>set B. x (uid_col fv) = l (uid_col fv) \<longrightarrow>
            (\<exists>t t' k k'. l ''event_timestamp'' = IntV t \<and> x ''event_timestamp'' = IntV t' \<and>
               l ''created_timestamp'' = IntV k \<and> x ''created_timestamp'' = IntV k' \<and>
               (t' < t \<or> (t' = t \<and> k' \<le> k)))"
  proof (intro ballI impI)
    fix l x assume l: "l \<in> set (fv_latest fv B)" and x: "x \<in> set B"
      and e: "x (uid_col fv) = l (uid_col fv)"
    from Hc x have "\<exists>k'. x ''created_timestamp'' = IntV k'" by simp
    with e have "x (uid_col fv) = l (uid_col fv) \<and> (\<exists>k'. x ''created_timestamp'' = IntV k')" by simp
    with fv_latest_Some_props(2)[OF cr H] l x
    show "\<exists>t t' k k'. l ''event_timestamp'' = IntV t \<and> x ''event_timestamp'' = IntV t' \<and>
               l ''created_timestamp'' = IntV k \<and> x ''created_timestamp'' = IntV k' \<and>
               (t' < t \<or> (t' = t \<and> k' \<le> k))"
      by simp
  qed
  show "fv_cleaned fv B =
           map (\<lambda>b. with_columns
                       (without_columns b [uid_col fv, ''event_timestamp'', ''created_timestamp''])
                       [(uid_col fv, b (uid_col fv))])
             (filter (\<lambda>b. \<forall>x\<in>set B. x (uid_col fv) = b (uid_col fv) \<longrightarrow>
                       (\<exists>t t' k k'. b ''event_timestamp'' = IntV t \<and> x ''event_timestamp'' = IntV t' \<and>
                          b ''created_timestamp'' = IntV k \<and> x ''created_timestamp'' = IntV k' \<and>
                          (t' < t \<or> (t' = t \<and> k' \<le> k))))
                B)"
    by (rule fv_cleaned_Some_total[OF cr H Hc])
next
  assume a: "distinct (map name fvs) \<and> fv \<in> set fvs \<and>
        (\<forall>k\<in>set (entities fv). k \<noteq> ''entity_timestamp'' \<and> k \<notin> uid_col ` set fvs)"
  show "\<forall>b\<in>set (fv_base fv sub (fv_entity_dataframe fv (entity_dataframe ts_col fvs left_table))).
           b (uid_col fv) \<noteq> Null \<and> (\<exists>t. b ''event_timestamp'' = IntV t)"
  proof
    fix b assume "b \<in> set (fv_base fv sub (fv_entity_dataframe fv (entity_dataframe ts_col fvs left_table)))"
    with a show "b (uid_col fv) \<noteq> Null \<and> (\<exists>t. b ''event_timestamp'' = IntV t)"
      using base_rows_have_ids[where fvs = fvs and fv = fv and ts_col = ts_col] by blast
  qed
qed

theorem latest_row_per_unique_id_witness:
  "map (\<lambda>r. map r [''F__entity_row_unique_id'', ''v'', ''event_timestamp'', ''created_timestamp''])
     (fv_cleaned example_created_fv example_base) = [[StrV ''138700'', IntV 7, Null, Null]]
   \<and> map (\<lambda>r. map r [''F__entity_row_unique_id'', ''v'', ''event_timestamp''])
     (fv_cleaned example_fv example_base) =
       [[StrV ''138700'', IntV 6, Null], [StrV ''138700'', IntV 7, Null]]"
proof -
  have u: "uid_col example_created_fv = ''F__entity_row_unique_id''"
    "uid_col example_fv = ''F__entity_row_unique_id''"
    by (simp_all add: uid_col_def example_created_fv_def example_fv_def)
  have H1: "\<forall>b\<in>set example_base. b (uid_col example_created_fv) \<noteq> Null \<and>
              (\<exists>t. b ''event_timestamp'' = IntV t)"
    unfolding u by (simp add: example_base_def row_of_def with_columns_def)
  have H2: "\<forall>b\<in>set example_base. b (uid_col example_fv) \<noteq> Null \<and>
              (\<exists>t. b ''event_timestamp'' = IntV t)"
    unfolding u by (simp add: example_base_def row_of_def with_columns_def)
  have c1: "truthy (created_timestamp_column example_created_fv) \<noteq> None \<and>
            (\<forall>b\<in>set example_base. \<exists>k. b ''created_timestamp'' = IntV k)"
    by (simp add: example_created_fv_def truthy_def example_base_def row_of_def with_columns_def)
  have c2: "truthy (created_timestamp_column example_fv) = None"
    by (simp add: example_fv_def truthy_def)
  from latest_row_per_unique_id[of example_base example_created_fv] H1 c1
  have e1: "fv_cleaned example_created_fv example_base =
           map (\<lambda>b. with_columns
                       (without_columns b [uid_col example_created_fv, ''event_timestamp'', ''created_timestamp''])
                       [(uid_col example_created_fv, b (uid_col example_created_fv))])
             (filter (\<lambda>b. \<forall>x\<in>set example_base. x (uid_col example_created_fv) = b (uid_col example_created_fv) \<longrightarrow>
                       (\<exists>t t' k k'. b ''event_timestamp'' = IntV t \<and> x ''event_timestamp'' = IntV t' \<and>
                          b ''created_timestamp'' = IntV k \<and> x ''created_timestamp'' = IntV k' \<and>
                          (t' < t \<or> (t' = t \<and> k' \<le> k))))
                example_base)"
    by blast
  from latest_row_per_unique_id[of example_base example_fv] H2 c2
  have e2: "fv_cleaned example_fv example_base =
           map (\<lambda>b. with_columns (without_columns b [uid_col example_fv, ''event_timestamp''])
                       [(uid_col example_fv, b (uid_col example_fv))])
             (filter (\<lambda>b. \<forall>x\<in>set example_base. x (uid_col example_fv) = b (uid_col example_fv) \<longrightarrow>
                       (\<exists>t u. b ''event_timestamp'' = IntV t \<and> x ''event_timestamp'' = IntV u \<and> u \<le> t))
                example_base)"
    by blast
  show ?thesis
    unfolding e1 e2 u
    by (simp add: example_base_def row_of_def with_columns_def without_columns_def)
qed

text \<open>
  A joined row whose created timestamp is NULL matches no row of \<^verbatim>\<open>__dedup\<close> in the
  \<^verbatim>\<open>USING\<close> join of line 375, whatever its event timestamp: of a request's two joined rows,
  the newer without a created timestamp, \<^verbatim>\<open>__cleaned\<close> holds the older one.
\<close>

theorem null_created_counterexample:
  "map (\<lambda>r. map r [''event_timestamp'', ''created_timestamp'', ''v'']) null_created_base =
     [[IntV 36000, IntV 1, IntV 5], [IntV 37800, Null, IntV 7]]
   \<and> map (\<lambda>r. map r [''F__entity_row_unique_id'', ''v''])
       (fv_cleaned example_created_fv null_created_base) = [[StrV ''138700'', IntV 5]]"
proof -
  have u: "uid_col example_created_fv = ''F__entity_row_unique_id''"
    by (simp add: uid_col_def example_created_fv_def example_fv_def)
  have H: "\<forall>b\<in>set null_created_base. b (uid_col example_created_fv) \<noteq> Null \<and>
              (\<exists>t. b ''event_timestamp'' = IntV t)"
    unfolding u by (simp add: null_created_base_def row_of_def with_columns_def)
  have c: "truthy (created_timestamp_column example_created_fv) = Some ''created''"
    by (simp add: example_created_fv_def truthy_def)
  show ?thesis
    unfolding fv_cleaned_Some[OF c H] u
    by (simp add: null_created_base_def row_of_def with_columns_def without_columns_def)
qed
section \<open>The final assembly (lines 401-412)\<close>

subsection \<open>Left joins keep every row of the left side\<close>

lemma with_columns_map:
  "with_columns a (map (\<lambda>k. (k, g k)) extra) k = (if k \<in> set extra then g k else a k)"
  by (simp add: with_columns_def map_of_map_restrict restrict_map_def)









lemma length_entity_dataframe [simp]: "length (entity_dataframe ts_col fvs left_table) = length left_table"
  by (simp add: entity_dataframe_def)

lemma row_of_map_alias:
  "row_of (map (\<lambda>f. (g f, c (g f))) fs) k = (if k \<in> g ` set fs then c k else Null)"
proof -
  have "map (\<lambda>f. (g f, c (g f))) fs = map (\<lambda>k. (k, c k)) (map g fs)" by (simp add: comp_def)
  then show ?thesis by (simp only: row_of_cols set_map)
qed

lemma with_columns_alias:
  "with_columns a (map (\<lambda>k. (k, g k)) (map al fs)) k = (if k \<in> al ` set fs then g k else a k)"
  by (simp only: with_columns_map set_map)








lemma joined_rows_fold:
  "joined_rows full_names ts_col fvs db q =
   foldl (\<lambda>acc fv. final_join full_names fv acc (fv_result full_names ts_col fvs db (db q) fv))
     (entity_dataframe ts_col fvs (db q)) fvs"
  by (simp add: joined_rows_def Let_def)


subsection \<open>The query on the example tables, one sub-query after the other\<close>

lemma with_columns_row_of: "with_columns (row_of kvs) kvs' = row_of (kvs' @ kvs)"
  by (auto simp: row_of_def with_columns_def fun_eq_iff map_add_def split: option.splits)

lemma row_of_Nil: "row_of [] k = Null"
  by (simp add: row_of_def with_columns_def)

lemma row_of_Cons: "row_of ((c, v) # kvs) k = (if k = c then v else row_of kvs k)"
  by (simp add: row_of_def with_columns_def)

lemma without_columns_row_of:
  "without_columns (row_of kvs) cols = row_of (filter (\<lambda>kv. fst kv \<notin> set cols) kvs)"
proof (rule ext)
  fix k
  show "without_columns (row_of kvs) cols k = row_of (filter (\<lambda>kv. fst kv \<notin> set cols) kvs) k"
  proof (induction kvs)
    case Nil show ?case by (simp add: without_columns_def row_of_Nil)
  next
    case (Cons kv kvs)
    obtain c v where kv: "kv = (c, v)" by (cases kv)
    from Cons show ?case
      by (auto simp: kv without_columns_def row_of_Cons row_of_Nil)
  qed
qed

lemma example_fv_uid: "uid_col example_fv = ''F__entity_row_unique_id''"
  by (simp add: uid_col_def example_fv_def)

lemma example_fv_no_created: "truthy (created_timestamp_column example_fv) = None"
  by (simp add: example_fv_def truthy_def)

lemma example_fv_table: "table_subquery example_fv = ''f_table''"
  by (simp add: example_fv_def)

lemma example_entity_rows: "entity_dataframe ''ts'' [example_fv] (example_db ''requests'') =
   [row_of [(''entity_timestamp'', IntV 38700), (''F__entity_row_unique_id'', StrV ''138700''),
            (''id'', IntV 1), (''ts'', IntV 38700)],
    row_of [(''entity_timestamp'', IntV 32400), (''F__entity_row_unique_id'', StrV ''132400''),
            (''id'', IntV 1), (''ts'', IntV 32400)],
    row_of [(''entity_timestamp'', IntV 36900), (''F__entity_row_unique_id'', StrV ''136900''),
            (''id'', IntV 1), (''ts'', IntV 36900)]]"
  by (simp add: entity_dataframe_def entity_row_unique_id_def uid_col_def example_db_def
        sql_concat_def str_int_def digit_char_def
        with_columns_row_of row_of_Cons row_of_Nil example_fv_def)

lemma example_request_rows: "fv_entity_dataframe example_fv
   [row_of [(''entity_timestamp'', IntV 38700), (''F__entity_row_unique_id'', StrV ''138700''),
            (''id'', IntV 1), (''ts'', IntV 38700)],
    row_of [(''entity_timestamp'', IntV 32400), (''F__entity_row_unique_id'', StrV ''132400''),
            (''id'', IntV 1), (''ts'', IntV 32400)],
    row_of [(''entity_timestamp'', IntV 36900), (''F__entity_row_unique_id'', StrV ''136900''),
            (''id'', IntV 1), (''ts'', IntV 36900)]] =
   [row_of [(''id'', IntV 1), (''entity_timestamp'', IntV 38700), (''F__entity_row_unique_id'', StrV ''138700'')],
    row_of [(''id'', IntV 1), (''entity_timestamp'', IntV 32400), (''F__entity_row_unique_id'', StrV ''132400'')],
    row_of [(''id'', IntV 1), (''entity_timestamp'', IntV 36900), (''F__entity_row_unique_id'', StrV ''136900'')]]"
  by (simp add: fv_entity_dataframe_def uid_col_def example_fv_def row_of_Cons row_of_Nil)

lemma example_subquery_rows: "fv_subquery False example_fv
   [row_of [(''entity_timestamp'', IntV 38700), (''F__entity_row_unique_id'', StrV ''138700''),
            (''id'', IntV 1), (''ts'', IntV 38700)],
    row_of [(''entity_timestamp'', IntV 32400), (''F__entity_row_unique_id'', StrV ''132400''),
            (''id'', IntV 1), (''ts'', IntV 32400)],
    row_of [(''entity_timestamp'', IntV 36900), (''F__entity_row_unique_id'', StrV ''136900''),
            (''id'', IntV 1), (''ts'', IntV 36900)]] (example_db ''f_table'') =
   [row_of [(''event_timestamp'', IntV 36000), (''id'', IntV 1), (''v'', IntV 5)],
    row_of [(''event_timestamp'', IntV 37800), (''id'', IntV 1), (''v'', IntV 7)]]"
  by (simp add: fv_subquery_def subquery_where_def subquery_row_def example_fv_def example_db_def
        truthy_def feature_alias_def sql_max_def sql_min_def sql_ge_def holds_sql_and holds_sql_le
        row_of_Cons row_of_Nil Let_def)

lemma example_base_rows: "fv_base example_fv
   [row_of [(''event_timestamp'', IntV 36000), (''id'', IntV 1), (''v'', IntV 5)],
    row_of [(''event_timestamp'', IntV 37800), (''id'', IntV 1), (''v'', IntV 7)]]
   [row_of [(''id'', IntV 1), (''entity_timestamp'', IntV 38700), (''F__entity_row_unique_id'', StrV ''138700'')],
    row_of [(''id'', IntV 1), (''entity_timestamp'', IntV 32400), (''F__entity_row_unique_id'', StrV ''132400'')],
    row_of [(''id'', IntV 1), (''entity_timestamp'', IntV 36900), (''F__entity_row_unique_id'', StrV ''136900'')]] =
   [row_of [(''entity_timestamp'', IntV 38700), (''F__entity_row_unique_id'', StrV ''138700''),
            (''event_timestamp'', IntV 36000), (''id'', IntV 1), (''v'', IntV 5)],
    row_of [(''entity_timestamp'', IntV 36900), (''F__entity_row_unique_id'', StrV ''136900''),
            (''event_timestamp'', IntV 36000), (''id'', IntV 1), (''v'', IntV 5)],
    row_of [(''entity_timestamp'', IntV 38700), (''F__entity_row_unique_id'', StrV ''138700''),
            (''event_timestamp'', IntV 37800), (''id'', IntV 1), (''v'', IntV 7)]]"
  by (simp add: fv_base_def inner_join_on_def holds_base_on uid_col_def example_fv_def
        with_columns_row_of row_of_Cons row_of_Nil)

lemma example_cleaned_rows: "fv_cleaned example_fv
   [row_of [(''entity_timestamp'', IntV 38700), (''F__entity_row_unique_id'', StrV ''138700''),
            (''event_timestamp'', IntV 36000), (''id'', IntV 1), (''v'', IntV 5)],
    row_of [(''entity_timestamp'', IntV 36900), (''F__entity_row_unique_id'', StrV ''136900''),
            (''event_timestamp'', IntV 36000), (''id'', IntV 1), (''v'', IntV 5)],
    row_of [(''entity_timestamp'', IntV 38700), (''F__entity_row_unique_id'', StrV ''138700''),
            (''event_timestamp'', IntV 37800), (''id'', IntV 1), (''v'', IntV 7)]] =
   [row_of [(''F__entity_row_unique_id'', StrV ''136900''), (''entity_timestamp'', IntV 36900),
            (''id'', IntV 1), (''v'', IntV 5)],
    row_of [(''F__entity_row_unique_id'', StrV ''138700''), (''entity_timestamp'', IntV 38700),
            (''id'', IntV 1), (''v'', IntV 7)]]"
  by (subst fv_cleaned_None[OF example_fv_no_created])
     (simp_all add: example_fv_uid row_of_Cons row_of_Nil with_columns_row_of without_columns_row_of)

lemma example_final_rows: "map (\<lambda>r. map r [''id'', ''ts'', ''v''])
   (final_join False example_fv
     [row_of [(''entity_timestamp'', IntV 38700), (''F__entity_row_unique_id'', StrV ''138700''),
            (''id'', IntV 1), (''ts'', IntV 38700)],
      row_of [(''entity_timestamp'', IntV 32400), (''F__entity_row_unique_id'', StrV ''132400''),
            (''id'', IntV 1), (''ts'', IntV 32400)],
      row_of [(''entity_timestamp'', IntV 36900), (''F__entity_row_unique_id'', StrV ''136900''),
            (''id'', IntV 1), (''ts'', IntV 36900)]]
     [row_of [(''F__entity_row_unique_id'', StrV ''136900''), (''entity_timestamp'', IntV 36900),
            (''id'', IntV 1), (''v'', IntV 5)],
      row_of [(''F__entity_row_unique_id'', StrV ''138700''), (''entity_timestamp'', IntV 38700),
            (''id'', IntV 1), (''v'', IntV 7)]]) =
   [[IntV 1, IntV 38700, IntV 7], [IntV 1, IntV 32400, Null], [IntV 1, IntV 36900, IntV 5]]"
  by (simp add: final_join_def left_join_using_def using_match_def holds_sql_eq uid_col_def
        feature_alias_def example_fv_def with_columns_row_of row_of_Cons row_of_Nil)

lemma example_fv_result:
  "fv_result False ''ts'' [example_fv] example_db (example_db ''requests'') example_fv =
   [row_of [(''F__entity_row_unique_id'', StrV ''136900''), (''entity_timestamp'', IntV 36900),
            (''id'', IntV 1), (''v'', IntV 5)],
    row_of [(''F__entity_row_unique_id'', StrV ''138700''), (''entity_timestamp'', IntV 38700),
            (''id'', IntV 1), (''v'', IntV 7)]]"
  unfolding fv_result_def Let_def example_fv_table example_entity_rows example_request_rows example_subquery_rows example_base_rows by (rule example_cleaned_rows)

lemma example_join_eval:
  "point_in_time_join False [''id'', ''ts'', ''v''] ''ts'' [example_fv] example_db ''requests'' =
   [[IntV 1, IntV 38700, IntV 7], [IntV 1, IntV 32400, Null], [IntV 1, IntV 36900, IntV 5]]"
  unfolding point_in_time_join_def joined_rows_fold foldl.simps example_fv_result example_entity_rows
  by (rule example_final_rows)















subsection \<open>The joined rows\<close>




section \<open>Qualified and unqualified feature names\<close>

subsection \<open>Lists of rows that correspond one to one\<close>

lemma list_all2_filter2:
  assumes "list_all2 R xs ys" and "\<And>x y. R x y \<Longrightarrow> P x = Q y"
  shows "list_all2 R (filter P xs) (filter Q ys)"
  using assms(1)
proof (induction rule: list_all2_induct)
  case Nil show ?case by simp
next
  case (Cons x xs y ys)
  from assms(2)[OF Cons.hyps(1)] Cons show ?case by simp
qed

lemma list_all2_concat_map:
  assumes "list_all2 S xs ys" and "\<And>x y. S x y \<Longrightarrow> list_all2 R (f x) (g y)"
  shows "list_all2 R (concat (map f xs)) (concat (map g ys))"
  using assms(1)
proof (induction rule: list_all2_induct)
  case Nil show ?case by simp
next
  case (Cons x xs y ys)
  from assms(2)[OF Cons.hyps(1)] Cons.IH show ?case by (simp add: list_all2_appendI)
qed

lemma list_all2_insort_by:
  assumes "list_all2 R xs ys" and "R x y"
    and "\<And>a b a' b'. R a a' \<Longrightarrow> R b b' \<Longrightarrow> le a b = le a' b'"
  shows "list_all2 R (insort_by le x xs) (insort_by le y ys)"
  using assms(1)
proof (induction rule: list_all2_induct)
  case Nil show ?case using assms(2) by simp
next
  case (Cons a xs b ys)
  have "le x a = le y b" by (rule assms(3)[OF assms(2) Cons.hyps(1)])
  with Cons assms(2) show ?case by simp
qed

lemma list_all2_order_by:
  assumes "list_all2 R xs ys"
    and "\<And>a b a' b'. R a a' \<Longrightarrow> R b b' \<Longrightarrow> le a b = le a' b'"
  shows "list_all2 R (order_by le xs) (order_by le ys)"
  using assms(1)
proof (induction rule: list_all2_induct)
  case Nil show ?case by (simp add: order_by_def)
next
  case (Cons x xs y ys)
  from Cons.IH have "list_all2 R (foldr (insort_by le) xs []) (foldr (insort_by le) ys [])"
    by (simp add: order_by_def)
  from list_all2_insort_by[OF this Cons.hyps(1) assms(2)]
  show ?case by (simp add: order_by_def)
qed

lemma list_all2_hd:
  "list_all2 R xs ys \<Longrightarrow> xs \<noteq> [] \<Longrightarrow> R (hd xs) (hd ys)"
  by (cases xs; cases ys) auto

lemma list_all2_map_key:
  assumes "list_all2 R xs ys" and "\<And>x y. R x y \<Longrightarrow> key x = key y"
  shows "map key xs = map key ys"
  using assms(1)
proof (induction rule: list_all2_induct)
  case Nil show ?case by simp
next
  case (Cons x xs y ys)
  from assms(2)[OF Cons.hyps(1)] Cons.IH show ?case by simp
qed

lemma list_all2_first_rows:
  assumes r: "list_all2 R xs ys"
    and key: "\<And>x y. R x y \<Longrightarrow> key x = key y"
    and le: "\<And>a b a' b'. R a a' \<Longrightarrow> R b b' \<Longrightarrow> order_desc_le cols a b = order_desc_le cols a' b'"
  shows "list_all2 R (first_rows key cols xs) (first_rows key cols ys)"
proof -
  have k: "map key xs = map key ys" by (rule list_all2_map_key[OF r key])
  have one: "R (hd (order_by (order_desc_le cols) (filter (\<lambda>r. key r = k) xs)))
               (hd (order_by (order_desc_le cols) (filter (\<lambda>r. key r = k) ys)))"
    if "k \<in> set (map key xs)" for k
  proof -
    have f: "list_all2 R (filter (\<lambda>r. key r = k) xs) (filter (\<lambda>r. key r = k) ys)"
      by (rule list_all2_filter2[OF r]) (simp add: key)
    have ne: "filter (\<lambda>r. key r = k) xs \<noteq> []" using that by (auto simp: filter_empty_conv)
    then have ne': "order_by (order_desc_le cols) (filter (\<lambda>r. key r = k) xs) \<noteq> []"
      by (simp add: order_by_Nil_iff)
    from list_all2_hd[OF list_all2_order_by[OF f le] ne'] show ?thesis .
  qed
  have "list_all2 R
          (map (\<lambda>k. hd (order_by (order_desc_le cols) (filter (\<lambda>r. key r = k) xs))) (remdups (map key xs)))
          (map (\<lambda>k. hd (order_by (order_desc_le cols) (filter (\<lambda>r. key r = k) ys))) (remdups (map key xs)))"
    unfolding list_all2_map1 list_all2_map2 list_all2_same
    using one by simp
  then show ?thesis
    unfolding first_rows_def groups_def map_map comp_def prod.case k[symmetric] .
qed

lemma list_all2_inner_join_using:
  assumes r: "list_all2 R A A'"
    and m: "\<And>a a' b. R a a' \<Longrightarrow> using_match cols a b = using_match cols a' b"
  shows "list_all2 R (inner_join_using cols [] A Bs) (inner_join_using cols [] A' Bs)"
  unfolding inner_join_using_no_extra
proof (rule list_all2_concat_map[OF r])
  fix a a' assume a: "R a a'"
  have "filter (using_match cols a) Bs = filter (using_match cols a') Bs"
    using m[OF a] by (intro filter_cong) simp_all
  then show "list_all2 R (map (\<lambda>b. a) (filter (using_match cols a) Bs))
                (map (\<lambda>b. a') (filter (using_match cols a') Bs))"
    using a by (simp add: list_all2_conv_all_nth)
qed

lemma list_all2_inner_join_on:
  assumes r: "list_all2 R A A'"
    and c: "\<And>a a' b. R a a' \<Longrightarrow> holds (cond a b) = holds (cond a' b)"
    and s: "\<And>a a' b. R a a' \<Longrightarrow> R (sel a b) (sel a' b)"
  shows "list_all2 R (inner_join_on cond sel A Bs) (inner_join_on cond sel A' Bs)"
  unfolding inner_join_on_def
proof (rule list_all2_concat_map[OF r])
  fix a a' assume a: "R a a'"
  have "filter (\<lambda>b. holds (cond a b)) Bs = filter (\<lambda>b. holds (cond a' b)) Bs"
    using c[OF a] by (intro filter_cong) simp_all
  then show "list_all2 R (map (sel a) (filter (\<lambda>b. holds (cond a b)) Bs))
                (map (sel a') (filter (\<lambda>b. holds (cond a' b)) Bs))"
    using s[OF a] by (simp add: list_all2_conv_all_nth)
qed

subsection \<open>The sub-queries of one feature view in the two modes\<close>

lemma renamed_outside: "renamed fv x y \<Longrightarrow> k \<notin> feature_columns fv \<Longrightarrow> x k = y k"
  by (simp add: renamed_def)

lemma renamed_feature:
  "renamed fv x y \<Longrightarrow> f \<in> set (features fv) \<Longrightarrow>
   x (feature_alias True fv f) = y (feature_alias False fv f)"
  by (simp add: renamed_def)

lemma row_of_append:
  "row_of (xs @ ys) k = (if k \<in> fst ` set xs then row_of xs k else row_of ys k)"
proof -
  have "k \<in> fst ` set xs \<longleftrightarrow> map_of xs k \<noteq> None" by (simp add: map_of_eq_None_iff)
  then show ?thesis
    by (cases "map_of xs k") (simp_all add: row_of_def with_columns_def map_add_def)
qed

lemma row_of_absent: "k \<notin> fst ` set kvs \<Longrightarrow> row_of kvs k = Null"
  by (simp add: row_of_def with_columns_def map_of_eq_None_iff[THEN iffD2])

lemma feature_alias_inj: "feature_alias full_names fv f = feature_alias full_names fv g \<longleftrightarrow> f = g"
  by (simp add: feature_alias_def)

lemma row_of_features:
  "f \<in> set fs \<Longrightarrow>
   row_of (map (\<lambda>f. (feature_alias full_names fv f, s f)) fs) (feature_alias full_names fv f) = s f"
proof (induction fs)
  case Nil then show ?case by simp
next
  case (Cons g fs)
  show ?case
  proof (cases "g = f")
    case True then show ?thesis by (simp add: row_of_Cons)
  next
    case False
    then have "feature_alias full_names fv f \<noteq> feature_alias full_names fv g"
      by (simp add: feature_alias_inj)
    with Cons False show ?thesis by (simp add: row_of_Cons)
  qed
qed

lemma renamed_subquery_row:
  assumes V: "\<forall>a\<in>feature_columns fv. a \<noteq> ''event_timestamp'' \<and> a \<noteq> ''created_timestamp'' \<and>
                 a \<notin> snd ` set (entity_selections fv)"
  shows "renamed fv (subquery_row True fv s) (subquery_row False fv s)"
proof -
  let ?P = "[(''event_timestamp'', s (event_timestamp_column fv))] @
             (case truthy (created_timestamp_column fv) of
                None \<Rightarrow> []
              | Some c \<Rightarrow> [(''created_timestamp'', s c)]) @
             map (\<lambda>(c, k). (k, s c)) (entity_selections fv)"
  let ?D = "\<lambda>full. map (\<lambda>feature. (feature_alias full fv feature, s feature)) (features fv)"
  have sr: "subquery_row full fv s = row_of (?P @ ?D full)" for full
    by (simp add: subquery_row_def)
  have keys: "fst ` set ?P \<subseteq> {''event_timestamp'', ''created_timestamp''} \<union> snd ` set (entity_selections fv)"
    by (force split: option.splits)
  have out: "subquery_row True fv s k = subquery_row False fv s k" if k: "k \<notin> feature_columns fv" for k
  proof -
    have "k \<notin> fst ` set (?D full)" for full
      using k by (cases full) (auto simp: feature_columns_def image_iff)
    then have "row_of (?D full) k = Null" for full by (rule row_of_absent)
    then show ?thesis unfolding sr row_of_append by simp
  qed
  have feat: "subquery_row True fv s (feature_alias True fv f) =
              subquery_row False fv s (feature_alias False fv f)" if f: "f \<in> set (features fv)" for f
  proof -
    have "feature_alias full fv f \<in> feature_columns fv" for full
      using f by (cases full) (auto simp: feature_columns_def)
    with V keys have "feature_alias full fv f \<notin> fst ` set ?P" for full by blast
    then have "subquery_row full fv s (feature_alias full fv f) = s f" for full
      unfolding sr row_of_append using row_of_features[OF f] by simp
    then show ?thesis by simp
  qed
  from out feat show ?thesis by (simp add: renamed_def)
qed

lemma renamed_subquery:
  assumes V: "\<forall>a\<in>feature_columns fv. a \<noteq> ''event_timestamp'' \<and> a \<noteq> ''created_timestamp'' \<and>
                 a \<notin> snd ` set (entity_selections fv)"
  shows "list_all2 (renamed fv) (fv_subquery True fv ed source) (fv_subquery False fv ed source)"
  unfolding fv_subquery_def list_all2_map1 list_all2_map2 list_all2_same
  using renamed_subquery_row[OF V] by simp

lemma base_on_cong:
  assumes "a ''event_timestamp'' = a' ''event_timestamp''" and "\<forall>k\<in>set (entities fv). a k = a' k"
  shows "base_on fv a b = base_on fv a' b"
proof -
  have m: "map (\<lambda>entity. sql_eq (a entity) (b entity)) (entities fv) =
        map (\<lambda>entity. sql_eq (a' entity) (b entity)) (entities fv)"
    using assms(2) by (intro map_cong) simp_all
  show ?thesis unfolding base_on_def assms(1) m ..
qed

lemma with_columns_2:
  "with_columns r [(c, v), (d, w)] k = (if k = c then v else if k = d then w else r k)"
  by (simp add: with_columns_def)

lemma renamed_base:
  assumes V: "\<forall>a\<in>feature_columns fv. a \<noteq> ''event_timestamp'' \<and> a \<noteq> ''entity_timestamp'' \<and>
                 a \<noteq> uid_col fv \<and> a \<notin> set (entities fv)"
    and r: "list_all2 (renamed fv) A A'"
  shows "list_all2 (renamed fv) (fv_base fv A Bs) (fv_base fv A' Bs)"
  unfolding fv_base_def
proof (rule list_all2_inner_join_on[OF r])
  fix a a' b assume a: "renamed fv a a'"
  have e: "a ''event_timestamp'' = a' ''event_timestamp''"
    using V by (intro renamed_outside[OF a]) blast
  have k: "\<forall>k\<in>set (entities fv). a k = a' k"
    using V by (auto intro!: renamed_outside[OF a])
  show "holds (base_on fv a b) = holds (base_on fv a' b)"
    by (simp only: base_on_cong[OF e k])
  have fc: "feature_alias full fv f \<in> feature_columns fv" if "f \<in> set (features fv)" for full f
    using that by (cases full) (auto simp: feature_columns_def)
  show "renamed fv (with_columns a [(''entity_timestamp'', b ''entity_timestamp''), (uid_col fv, b (uid_col fv))])
          (with_columns a' [(''entity_timestamp'', b ''entity_timestamp''), (uid_col fv, b (uid_col fv))])"
    unfolding renamed_def with_columns_2
  proof (intro conjI allI impI ballI)
    fix k assume "k \<notin> feature_columns fv"
    then show "(if k = ''entity_timestamp'' then b ''entity_timestamp''
               else if k = uid_col fv then b (uid_col fv) else a k) =
              (if k = ''entity_timestamp'' then b ''entity_timestamp''
               else if k = uid_col fv then b (uid_col fv) else a' k)"
      using renamed_outside[OF a] by simp
  next
    fix f assume f: "f \<in> set (features fv)"
    from V fc[OF f] have "feature_alias full fv f \<noteq> ''entity_timestamp'' \<and>
        feature_alias full fv f \<noteq> uid_col fv" for full by blast
    then show "(if feature_alias True fv f = ''entity_timestamp'' then b ''entity_timestamp''
               else if feature_alias True fv f = uid_col fv then b (uid_col fv)
                    else a (feature_alias True fv f)) =
              (if feature_alias False fv f = ''entity_timestamp'' then b ''entity_timestamp''
               else if feature_alias False fv f = uid_col fv then b (uid_col fv)
                    else a' (feature_alias False fv f))"
      using renamed_feature[OF a f] by simp
  qed
qed

lemma order_desc_le_cong:
  "\<forall>c\<in>set cols. a c = a' c \<and> b c = b' c \<Longrightarrow>
   order_desc_le cols a b = order_desc_le cols a' b'"
  by (induction cols) simp_all

lemma using_match_cong:
  "\<forall>c\<in>set cols. a c = a' c \<Longrightarrow> using_match cols a b = using_match cols a' b"
  by (simp add: using_match_iff)

lemma fv_dedup_cong:
  assumes k: "map (\<lambda>r. (r (uid_col fv), r ''event_timestamp'')) B =
              map (\<lambda>r. (r (uid_col fv), r ''event_timestamp'')) B'"
    and c: "map (\<lambda>r. r ''created_timestamp'') B = map (\<lambda>r. r ''created_timestamp'') B'"
  shows "fv_dedup fv B = fv_dedup fv B'"
proof -
  let ?key = "\<lambda>r. (r (uid_col fv), r ''event_timestamp'')"
  let ?S = "\<lambda>x y. ?key x = ?key y \<and> x ''created_timestamp'' = y ''created_timestamp''"
  have r: "list_all2 ?S B B'"
  proof -
    have l: "length B = length B'" using k by (rule map_eq_imp_length_eq)
    have "?key (B ! i) = ?key (B' ! i) \<and> (B ! i) ''created_timestamp'' = (B' ! i) ''created_timestamp''"
      if "i < length B" for i
    proof -
      have "map ?key B ! i = map ?key B' ! i" using k by simp
      moreover have "map (\<lambda>r. r ''created_timestamp'') B ! i = map (\<lambda>r. r ''created_timestamp'') B' ! i"
        using c by simp
      ultimately show ?thesis using that l by simp
    qed
    with l show ?thesis by (simp add: list_all2_conv_all_nth)
  qed
  have g: "map (\<lambda>r. r ''created_timestamp'') (filter (\<lambda>r. ?key r = q) B) =
           map (\<lambda>r. r ''created_timestamp'') (filter (\<lambda>r. ?key r = q) B')" for q
  proof -
    have "list_all2 ?S (filter (\<lambda>r. ?key r = q) B) (filter (\<lambda>r. ?key r = q) B')"
      by (rule list_all2_filter2[OF r]) simp
    then show ?thesis by (rule list_all2_map_key) simp
  qed
  show ?thesis
    unfolding fv_dedup_def groups_def map_map comp_def case_prod_unfold fst_conv snd_conv k g ..
qed

lemma fv_latest_Some_first_rows:
  assumes "truthy (created_timestamp_column fv) = Some c"
  shows "fv_latest fv B =
         map (\<lambda>m. row_of [(''event_timestamp'', m ''event_timestamp''),
                           (''created_timestamp'', m ''created_timestamp''),
                           (uid_col fv, m (uid_col fv))])
           (first_rows (\<lambda>r. r (uid_col fv)) [''event_timestamp'', ''created_timestamp'']
              (inner_join_using [uid_col fv, ''event_timestamp'', ''created_timestamp''] []
                 B (fv_dedup fv B)))"
  by (simp add: fv_latest_def assms first_rows_of_row_number_over' comp_def with_columns_single_other)

lemma renamed_latest:
  assumes V: "\<forall>a\<in>feature_columns fv. a \<noteq> ''event_timestamp'' \<and> a \<noteq> ''created_timestamp'' \<and>
                 a \<noteq> uid_col fv"
    and r: "list_all2 (renamed fv) B B'"
  shows "fv_latest fv B = fv_latest fv B'"
proof -
  have ev: "x ''event_timestamp'' = y ''event_timestamp''" if "renamed fv x y" for x y
    using V by (intro renamed_outside[OF that]) blast
  have cr: "x ''created_timestamp'' = y ''created_timestamp''" if "renamed fv x y" for x y
    using V by (intro renamed_outside[OF that]) blast
  have u: "x (uid_col fv) = y (uid_col fv)" if "renamed fv x y" for x y
    using V by (intro renamed_outside[OF that]) blast
  have le1: "order_desc_le [''event_timestamp''] a b = order_desc_le [''event_timestamp''] a' b'"
    if "renamed fv a a'" "renamed fv b b'" for a b a' b'
    using ev[OF that(1)] ev[OF that(2)] by (intro order_desc_le_cong) simp
  have le2: "order_desc_le [''event_timestamp'', ''created_timestamp''] a b =
             order_desc_le [''event_timestamp'', ''created_timestamp''] a' b'"
    if "renamed fv a a'" "renamed fv b b'" for a b a' b'
    using ev[OF that(1)] ev[OF that(2)] cr[OF that(1)] cr[OF that(2)]
    by (intro order_desc_le_cong) simp
  have p2: "row_of [(''event_timestamp'', x ''event_timestamp''), (uid_col fv, x (uid_col fv))] =
            row_of [(''event_timestamp'', y ''event_timestamp''), (uid_col fv, y (uid_col fv))]"
    if "renamed fv x y" for x y
    unfolding ev[OF that] u[OF that] ..
  have p3: "row_of [(''event_timestamp'', x ''event_timestamp''),
                    (''created_timestamp'', x ''created_timestamp''), (uid_col fv, x (uid_col fv))] =
            row_of [(''event_timestamp'', y ''event_timestamp''),
                    (''created_timestamp'', y ''created_timestamp''), (uid_col fv, y (uid_col fv))]"
    if "renamed fv x y" for x y
    unfolding ev[OF that] u[OF that] cr[OF that] ..
  have kk: "(x (uid_col fv), x ''event_timestamp'') = (y (uid_col fv), y ''event_timestamp'')"
    if "renamed fv x y" for x y
    unfolding ev[OF that] u[OF that] ..
  have um: "using_match [uid_col fv, ''event_timestamp'', ''created_timestamp''] a b =
            using_match [uid_col fv, ''event_timestamp'', ''created_timestamp''] a' b"
    if "renamed fv a a'" for a a' b
    using ev[OF that] u[OF that] cr[OF that] by (intro using_match_cong) simp
  show ?thesis
  proof (cases "truthy (created_timestamp_column fv)")
    case None
    have "list_all2 (renamed fv) (first_rows (\<lambda>r. r (uid_col fv)) [''event_timestamp''] B)
            (first_rows (\<lambda>r. r (uid_col fv)) [''event_timestamp''] B')"
      by (rule list_all2_first_rows[OF r u le1])
    then have "map (\<lambda>m. row_of [(''event_timestamp'', m ''event_timestamp''), (uid_col fv, m (uid_col fv))])
                 (first_rows (\<lambda>r. r (uid_col fv)) [''event_timestamp''] B) =
               map (\<lambda>m. row_of [(''event_timestamp'', m ''event_timestamp''), (uid_col fv, m (uid_col fv))])
                 (first_rows (\<lambda>r. r (uid_col fv)) [''event_timestamp''] B')"
      by (rule list_all2_map_key) (rule p2)
    then show ?thesis unfolding fv_latest_None[OF None] .
  next
    case (Some c)
    let ?cols = "[uid_col fv, ''event_timestamp'', ''created_timestamp'']"
    have k: "map (\<lambda>r. (r (uid_col fv), r ''event_timestamp'')) B =
              map (\<lambda>r. (r (uid_col fv), r ''event_timestamp'')) B'"
      by (rule list_all2_map_key[OF r]) (rule kk)
    have c: "map (\<lambda>r. r ''created_timestamp'') B = map (\<lambda>r. r ''created_timestamp'') B'"
      by (rule list_all2_map_key[OF r]) (rule cr)
    have d: "fv_dedup fv B = fv_dedup fv B'" by (rule fv_dedup_cong[OF k c])
    have j: "list_all2 (renamed fv) (inner_join_using ?cols [] B (fv_dedup fv B))
               (inner_join_using ?cols [] B' (fv_dedup fv B'))"
      unfolding d
      by (rule list_all2_inner_join_using[OF r]) (rule um)
    have "list_all2 (renamed fv)
            (first_rows (\<lambda>r. r (uid_col fv)) [''event_timestamp'', ''created_timestamp'']
               (inner_join_using ?cols [] B (fv_dedup fv B)))
            (first_rows (\<lambda>r. r (uid_col fv)) [''event_timestamp'', ''created_timestamp'']
               (inner_join_using ?cols [] B' (fv_dedup fv B')))"
      by (rule list_all2_first_rows[OF j u le2])
    then have "map (\<lambda>m. row_of [(''event_timestamp'', m ''event_timestamp''),
                           (''created_timestamp'', m ''created_timestamp''),
                           (uid_col fv, m (uid_col fv))])
                 (first_rows (\<lambda>r. r (uid_col fv)) [''event_timestamp'', ''created_timestamp'']
                    (inner_join_using ?cols [] B (fv_dedup fv B))) =
               map (\<lambda>m. row_of [(''event_timestamp'', m ''event_timestamp''),
                           (''created_timestamp'', m ''created_timestamp''),
                           (uid_col fv, m (uid_col fv))])
                 (first_rows (\<lambda>r. r (uid_col fv)) [''event_timestamp'', ''created_timestamp'']
                    (inner_join_using ?cols [] B' (fv_dedup fv B')))"
      by (rule list_all2_map_key) (rule p3)
    then show ?thesis unfolding fv_latest_Some_first_rows[OF Some] .
  qed
qed

lemma renamed_cleaned:
  assumes V: "\<forall>a\<in>feature_columns fv. a \<noteq> ''event_timestamp'' \<and> a \<noteq> ''created_timestamp'' \<and>
                 a \<noteq> uid_col fv"
    and r: "list_all2 (renamed fv) B B'"
  shows "list_all2 (renamed fv) (fv_cleaned fv B) (fv_cleaned fv B')"
proof -
  have ev: "x ''event_timestamp'' = y ''event_timestamp''" if "renamed fv x y" for x y
    using V by (intro renamed_outside[OF that]) blast
  have cr: "x ''created_timestamp'' = y ''created_timestamp''" if "renamed fv x y" for x y
    using V by (intro renamed_outside[OF that]) blast
  have u: "x (uid_col fv) = y (uid_col fv)" if "renamed fv x y" for x y
    using V by (intro renamed_outside[OF that]) blast
  have cu: "set (cleaned_using fv) \<subseteq> {uid_col fv, ''event_timestamp'', ''created_timestamp''}"
    by (auto simp: cleaned_using_def split: option.splits)
  have l: "fv_latest fv B = fv_latest fv B'" by (rule renamed_latest[OF V r])
  have j: "list_all2 (renamed fv) (cleaned_join fv B) (cleaned_join fv B')"
    unfolding cleaned_join_def l
  proof (rule list_all2_inner_join_using[OF r])
    fix a a' b assume a: "renamed fv a a'"
    have "\<forall>c\<in>set (cleaned_using fv). a c = a' c" using cu u[OF a] ev[OF a] cr[OF a] by auto
    then show "using_match (cleaned_using fv) a b = using_match (cleaned_using fv) a' b"
      by (rule using_match_cong)
  qed
  have fc: "feature_alias full fv f \<in> feature_columns fv" if "f \<in> set (features fv)" for full f
    using that by (cases full) (auto simp: feature_columns_def)
  have s: "renamed fv (with_columns (without_columns x (cleaned_using fv)) [(uid_col fv, x (uid_col fv))])
             (with_columns (without_columns y (cleaned_using fv)) [(uid_col fv, y (uid_col fv))])"
    if xy: "renamed fv x y" for x y
    unfolding renamed_def
  proof (intro conjI allI impI ballI)
    fix k assume "k \<notin> feature_columns fv"
    then have "x k = y k" by (rule renamed_outside[OF xy])
    then show "with_columns (without_columns x (cleaned_using fv)) [(uid_col fv, x (uid_col fv))] k =
               with_columns (without_columns y (cleaned_using fv)) [(uid_col fv, y (uid_col fv))] k"
      using u[OF xy] by (simp add: with_columns_def without_columns_def)
  next
    fix f assume f: "f \<in> set (features fv)"
    from V fc[OF f] have n: "feature_alias full fv f \<noteq> uid_col fv \<and>
        feature_alias full fv f \<notin> set (cleaned_using fv)" for full
      using cu by blast
    show "with_columns (without_columns x (cleaned_using fv)) [(uid_col fv, x (uid_col fv))]
            (feature_alias True fv f) =
          with_columns (without_columns y (cleaned_using fv)) [(uid_col fv, y (uid_col fv))]
            (feature_alias False fv f)"
      using n[of True] n[of False] renamed_feature[OF xy f]
      by (simp add: with_columns_def without_columns_def)
  qed
  show ?thesis
    unfolding fv_cleaned_def list_all2_map1 list_all2_map2
    by (rule list_all2_mono[OF j]) (rule s)
qed

lemma renamed_result:
  assumes V: "\<forall>a\<in>feature_columns fv.
                 a \<notin> {''event_timestamp'', ''created_timestamp'', ''entity_timestamp'', uid_col fv} \<union>
                     set (entities fv) \<union> snd ` set (entity_selections fv)"
  shows "list_all2 (renamed fv) (fv_result True ts_col fvs db left_table fv)
           (fv_result False ts_col fvs db left_table fv)"
proof -
  have V1: "\<forall>a\<in>feature_columns fv. a \<noteq> ''event_timestamp'' \<and> a \<noteq> ''created_timestamp'' \<and>
                 a \<notin> snd ` set (entity_selections fv)" using V by blast
  have V2: "\<forall>a\<in>feature_columns fv. a \<noteq> ''event_timestamp'' \<and> a \<noteq> ''entity_timestamp'' \<and>
                 a \<noteq> uid_col fv \<and> a \<notin> set (entities fv)" using V by blast
  have V3: "\<forall>a\<in>feature_columns fv. a \<noteq> ''event_timestamp'' \<and> a \<noteq> ''created_timestamp'' \<and>
                 a \<noteq> uid_col fv" using V by blast
  show ?thesis
    unfolding fv_result_def Let_def
    by (intro renamed_cleaned[OF V3] renamed_base[OF V2] renamed_subquery[OF V1])
qed

subsection \<open>The final join in the two modes\<close>

lemma list_all2_map_eq:
  assumes "list_all2 R xs ys" and "\<And>x y. R x y \<Longrightarrow> f x = g y"
  shows "map f xs = map g ys"
  using assms(1)
proof (induction rule: list_all2_induct)
  case Nil show ?case by simp
next
  case (Cons x xs y ys)
  from assms(2)[OF Cons.hyps(1)] Cons.IH show ?case by simp
qed

lemma feature_alias_in_columns:
  "f \<in> set (features fv) \<Longrightarrow> feature_alias full fv f \<in> feature_columns fv"
  by (cases full) (auto simp: feature_columns_def)

lemma renamed_joined_extend:
  assumes a: "renamed_joined fvs done a a'"
    and v: "\<forall>f\<in>set (features g). vT (feature_alias True g f) = vF (feature_alias False g f)"
    and g: "g \<in> set fvs"
    and DT: "\<forall>h\<in>set done. \<forall>f\<in>set (features h).
               feature_alias True h f \<notin> feature_alias True g ` set (features g)"
    and DF: "\<forall>h\<in>set done. \<forall>f\<in>set (features h).
               feature_alias False h f \<notin> feature_alias False g ` set (features g)"
  shows "renamed_joined fvs (done @ [g])
           (with_columns a (map (\<lambda>k. (k, vT k)) (map (feature_alias True g) (features g))))
           (with_columns a' (map (\<lambda>k. (k, vF k)) (map (feature_alias False g) (features g))))"
  unfolding renamed_joined_def
proof (intro conjI allI impI ballI)
  fix k assume k: "k \<notin> (\<Union>fv\<in>set fvs. feature_columns fv)"
  with g have "k \<notin> feature_columns g" by blast
  then have "k \<notin> feature_alias True g ` set (features g)" "k \<notin> feature_alias False g ` set (features g)"
    by (auto simp: feature_columns_def)
  moreover from a k have "a k = a' k" by (simp add: renamed_joined_def)
  ultimately show "with_columns a (map (\<lambda>k. (k, vT k)) (map (feature_alias True g) (features g))) k =
                   with_columns a' (map (\<lambda>k. (k, vF k)) (map (feature_alias False g) (features g))) k"
    by (simp only: with_columns_alias if_False)
next
  fix h f assume h: "h \<in> set (done @ [g])" and f: "f \<in> set (features h)"
  show "with_columns a (map (\<lambda>k. (k, vT k)) (map (feature_alias True g) (features g)))
          (feature_alias True h f) =
        with_columns a' (map (\<lambda>k. (k, vF k)) (map (feature_alias False g) (features g)))
          (feature_alias False h f)"
  proof (cases "h \<in> set done")
    case True
    from DT True f have nT: "feature_alias True h f \<notin> feature_alias True g ` set (features g)" by blast
    from DF True f have nF: "feature_alias False h f \<notin> feature_alias False g ` set (features g)" by blast
    from a True f have "a (feature_alias True h f) = a' (feature_alias False h f)"
      by (simp add: renamed_joined_def)
    with nT nF show ?thesis by (simp only: with_columns_alias if_False)
  next
    case False
    with h have e: "h = g" by simp
    have iT: "feature_alias True g f \<in> feature_alias True g ` set (features g)"
      and iF: "feature_alias False g f \<in> feature_alias False g ` set (features g)"
      using f e by auto
    from v f e have "vT (feature_alias True g f) = vF (feature_alias False g f)" by simp
    with iT iF show ?thesis unfolding e by (simp only: with_columns_alias if_True)
  qed
qed

lemma final_join_renamed:
  assumes acc: "list_all2 (renamed_joined fvs done) accT accF"
    and cl: "list_all2 (renamed g) clT clF"
    and g: "g \<in> set fvs"
    and U: "uid_col g \<notin> (\<Union>fv\<in>set fvs. feature_columns fv)"
    and DT: "\<forall>h\<in>set done. \<forall>f\<in>set (features h).
               feature_alias True h f \<notin> feature_alias True g ` set (features g)"
    and DF: "\<forall>h\<in>set done. \<forall>f\<in>set (features h).
               feature_alias False h f \<notin> feature_alias False g ` set (features g)"
  shows "list_all2 (renamed_joined fvs (done @ [g]))
           (final_join True g accT clT) (final_join False g accF clF)"
proof -
  let ?u = "uid_col g"
  let ?proj = "\<lambda>full c. row_of ((?u, c ?u) #
                  map (\<lambda>feature. (feature_alias full g feature, c (feature_alias full g feature)))
                      (features g))"
  let ?Rp = "\<lambda>b b'. b ?u = b' ?u \<and>
               (\<forall>f\<in>set (features g). b (feature_alias True g f) = b' (feature_alias False g f))"
  from U g have Ug: "?u \<notin> feature_columns g" by blast
  have pu: "?proj full c ?u = c ?u" for full c by simp
  have pf: "?proj full c (feature_alias full g f) = c (feature_alias full g f)"
    if f: "f \<in> set (features g)" for full c f
  proof -
    from Ug feature_alias_in_columns[OF f] have "feature_alias full g f \<noteq> ?u" by metis
    then show ?thesis
      using row_of_features[OF f, of full g "\<lambda>f. c (feature_alias full g f)"]
      by (simp add: row_of_Cons_other)
  qed
  have p: "?Rp (?proj True c) (?proj False c')" if c: "renamed g c c'" for c c'
  proof (intro conjI ballI)
    show "?proj True c ?u = ?proj False c' ?u"
      unfolding pu by (rule renamed_outside[OF c Ug])
    fix f assume f: "f \<in> set (features g)"
    show "?proj True c (feature_alias True g f) = ?proj False c' (feature_alias False g f)"
      unfolding pf[OF f] by (rule renamed_feature[OF c f])
  qed
  have P: "list_all2 ?Rp (map (?proj True) clT) (map (?proj False) clF)"
    unfolding list_all2_map1 list_all2_map2 by (rule list_all2_mono[OF cl]) (rule p)
  have one: "list_all2 (renamed_joined fvs (done @ [g]))
       (case filter (using_match [?u] a) (map (?proj True) clT) of
          [] \<Rightarrow> [with_columns a (map (\<lambda>k. (k, Null)) (map (feature_alias True g) (features g)))]
        | m # ms \<Rightarrow> map (\<lambda>b. with_columns a (map (\<lambda>k. (k, b k)) (map (feature_alias True g) (features g))))
                      (m # ms))
       (case filter (using_match [?u] a') (map (?proj False) clF) of
          [] \<Rightarrow> [with_columns a' (map (\<lambda>k. (k, Null)) (map (feature_alias False g) (features g)))]
        | m # ms \<Rightarrow> map (\<lambda>b. with_columns a' (map (\<lambda>k. (k, b k)) (map (feature_alias False g) (features g))))
                      (m # ms))"
    if a: "renamed_joined fvs done a a'" for a a'
  proof -
    from a U have au: "a ?u = a' ?u" by (simp add: renamed_joined_def)
    have M: "list_all2 ?Rp (filter (using_match [?u] a) (map (?proj True) clT))
               (filter (using_match [?u] a') (map (?proj False) clF))"
      by (rule list_all2_filter2[OF P]) (simp add: using_match_iff au)
    have ext: "renamed_joined fvs (done @ [g])
           (with_columns a (map (\<lambda>k. (k, b k)) (map (feature_alias True g) (features g))))
           (with_columns a' (map (\<lambda>k. (k, b' k)) (map (feature_alias False g) (features g))))"
      if "?Rp b b'" for b b'
      by (rule renamed_joined_extend[OF a _ g DT DF]) (use that in simp)
    have nulls: "renamed_joined fvs (done @ [g])
           (with_columns a (map (\<lambda>k. (k, Null)) (map (feature_alias True g) (features g))))
           (with_columns a' (map (\<lambda>k. (k, Null)) (map (feature_alias False g) (features g))))"
      by (rule renamed_joined_extend[OF a _ g DT DF]) simp
    show ?thesis
    proof (cases "filter (using_match [?u] a) (map (?proj True) clT)")
      case Nil
      with M have "filter (using_match [?u] a') (map (?proj False) clF) = []" by simp
      with Nil nulls show ?thesis by simp
    next
      case (Cons m ms)
      with M obtain m' ms' where c': "filter (using_match [?u] a') (map (?proj False) clF) = m' # ms'"
        by (cases "filter (using_match [?u] a') (map (?proj False) clF)") auto
      from M have "list_all2 (renamed_joined fvs (done @ [g]))
          (map (\<lambda>b. with_columns a (map (\<lambda>k. (k, b k)) (map (feature_alias True g) (features g))))
             (filter (using_match [?u] a) (map (?proj True) clT)))
          (map (\<lambda>b. with_columns a' (map (\<lambda>k. (k, b k)) (map (feature_alias False g) (features g))))
             (filter (using_match [?u] a') (map (?proj False) clF)))"
        unfolding list_all2_map1 list_all2_map2 by (rule list_all2_mono) (rule ext)
      then show ?thesis unfolding Cons c' list.case .
    qed
  qed
  show ?thesis
    unfolding final_join_def left_join_using_def
    by (rule list_all2_concat_map[OF acc]) (rule one)
qed

lemma fold_renamed:
  assumes "list_all2 (renamed_joined fvs seen) accT accF"
    and "set gs \<subseteq> set fvs"
    and "\<forall>g\<in>set gs. list_all2 (renamed g) (RT g) (RF g)"
    and "\<forall>g\<in>set fvs. uid_col g \<notin> (\<Union>fv\<in>set fvs. feature_columns fv)"
    and "distinct (concat (map (\<lambda>fv. map (feature_alias True fv) (features fv)) (seen @ gs)))"
    and "distinct (concat (map (\<lambda>fv. map (feature_alias False fv) (features fv)) (seen @ gs)))"
  shows "list_all2 (renamed_joined fvs (seen @ gs))
           (foldl (\<lambda>acc fv. final_join True fv acc (RT fv)) accT gs)
           (foldl (\<lambda>acc fv. final_join False fv acc (RF fv)) accF gs)"
  using assms
proof (induction gs arbitrary: seen accT accF)
  case Nil then show ?case by simp
next
  case (Cons g gs)
  have g: "g \<in> set fvs" using Cons.prems(2) by simp
  have U: "uid_col g \<notin> (\<Union>fv\<in>set fvs. feature_columns fv)" using Cons.prems(4) g by blast
  have cl: "list_all2 (renamed g) (RT g) (RF g)" using Cons.prems(3) by simp
  have DT: "\<forall>h\<in>set seen. \<forall>f\<in>set (features h).
               feature_alias True h f \<notin> feature_alias True g ` set (features g)"
    using Cons.prems(5) by fastforce
  have DF: "\<forall>h\<in>set seen. \<forall>f\<in>set (features h).
               feature_alias False h f \<notin> feature_alias False g ` set (features g)"
    using Cons.prems(6) by fastforce
  have step: "list_all2 (renamed_joined fvs (seen @ [g]))
           (final_join True g accT (RT g)) (final_join False g accF (RF g))"
    by (rule final_join_renamed[OF Cons.prems(1) cl g U DT DF])
  have "list_all2 (renamed_joined fvs ((seen @ [g]) @ gs))
           (foldl (\<lambda>acc fv. final_join True fv acc (RT fv)) (final_join True g accT (RT g)) gs)
           (foldl (\<lambda>acc fv. final_join False fv acc (RF fv)) (final_join False g accF (RF g)) gs)"
    using Cons.prems by (intro Cons.IH[OF step]) simp_all
  then show ?case by simp
qed

lemma renamed_joined_cells:
  assumes r: "renamed_joined fvs fvs x y"
    and E: "\<forall>fv\<in>set fvs. \<forall>a\<in>feature_columns fv. a \<notin> set entity_columns"
  shows "map x (entity_columns @ concat (map (\<lambda>fv. map (feature_alias True fv) (features fv)) fvs)) =
         map y (entity_columns @ concat (map (\<lambda>fv. map (feature_alias False fv) (features fv)) fvs))"
proof -
  have e: "map x entity_columns = map y entity_columns"
  proof (rule map_cong[OF refl])
    fix k assume "k \<in> set entity_columns"
    with E have "k \<notin> (\<Union>fv\<in>set fvs. feature_columns fv)" by blast
    with r show "x k = y k" by (simp add: renamed_joined_def)
  qed
  have f: "map x (map (feature_alias True fv) (features fv)) =
           map y (map (feature_alias False fv) (features fv))" if "fv \<in> set fvs" for fv
    using r that by (simp add: renamed_joined_def)
  have "concat (map (\<lambda>fv. map x (map (feature_alias True fv) (features fv))) fvs) =
        concat (map (\<lambda>fv. map y (map (feature_alias False fv) (features fv))) fvs)"
    by (rule arg_cong[where f = concat], rule map_cong[OF refl]) (rule f)
  then have "map x (concat (map (\<lambda>fv. map (feature_alias True fv) (features fv)) fvs)) =
        map y (concat (map (\<lambda>fv. map (feature_alias False fv) (features fv)) fvs))"
    by (simp only: map_concat map_map comp_def)
  with e show ?thesis by (simp only: map_append)
qed

text \<open>
  C6. The select list being the columns of the entity table followed by the features of every
  view, under their names in the mode, the query compiled with \<^verbatim>\<open>full_feature_names\<close> and the
  query compiled without return the same rows, cell by cell and in the same order: the
  column of feature \<open>f\<close> of view \<open>F\<close> is named \<^verbatim>\<open>F__f\<close> in the first and \<^verbatim>\<open>f\<close> in the second.
  This is for names that make both queries well formed: in neither mode is a feature column
  named like a timestamp column, a join key, a unique-id column, a column of the entity table
  or another feature column.
\<close>

theorem full_feature_names_renames_only:
  assumes V: "\<forall>fv\<in>set fvs. \<forall>a\<in>feature_columns fv.
                 a \<notin> {''event_timestamp'', ''created_timestamp'', ''entity_timestamp''} \<union>
                     set (entities fv) \<union> snd ` set (entity_selections fv)"
    and U: "\<forall>fv\<in>set fvs. \<forall>g\<in>set fvs. uid_col fv \<notin> feature_columns g"
    and DT: "distinct (concat (map (\<lambda>fv. map (feature_alias True fv) (features fv)) fvs))"
    and DF: "distinct (concat (map (\<lambda>fv. map (feature_alias False fv) (features fv)) fvs))"
    and E: "\<forall>fv\<in>set fvs. \<forall>a\<in>feature_columns fv. a \<notin> set entity_columns"
  shows "point_in_time_join True
           (entity_columns @ concat (map (\<lambda>fv. map (feature_alias True fv) (features fv)) fvs))
           ts_col fvs db q =
         point_in_time_join False
           (entity_columns @ concat (map (\<lambda>fv. map (feature_alias False fv) (features fv)) fvs))
           ts_col fvs db q"
proof -
  let ?ed = "entity_dataframe ts_col fvs (db q)"
  have i: "list_all2 (renamed_joined fvs []) ?ed ?ed"
    by (simp add: list_all2_same renamed_joined_def)
  have R: "\<forall>g\<in>set fvs. list_all2 (renamed g) (fv_result True ts_col fvs db (db q) g)
                            (fv_result False ts_col fvs db (db q) g)"
  proof
    fix g assume g: "g \<in> set fvs"
    have "\<forall>a\<in>feature_columns g.
                 a \<notin> {''event_timestamp'', ''created_timestamp'', ''entity_timestamp'', uid_col g} \<union>
                     set (entities g) \<union> snd ` set (entity_selections g)"
      using V U g by blast
    then show "list_all2 (renamed g) (fv_result True ts_col fvs db (db q) g)
                            (fv_result False ts_col fvs db (db q) g)"
      by (rule renamed_result)
  qed
  have U': "\<forall>g\<in>set fvs. uid_col g \<notin> (\<Union>fv\<in>set fvs. feature_columns fv)" using U by blast
  have J: "list_all2 (renamed_joined fvs ([] @ fvs))
             (joined_rows True ts_col fvs db q) (joined_rows False ts_col fvs db q)"
    unfolding joined_rows_fold
    by (rule fold_renamed[OF i _ R U']) (simp_all add: DT DF)
  then have J': "list_all2 (renamed_joined fvs fvs)
             (joined_rows True ts_col fvs db q) (joined_rows False ts_col fvs db q)" by simp
  show ?thesis
    unfolding point_in_time_join_def
    by (rule list_all2_map_eq[OF J']) (rule renamed_joined_cells[OF _ E])
qed

theorem full_feature_names_renames_only_witness:
  "uid_col example_fv \<notin> feature_columns example_fv
   \<and> feature_columns example_fv = {''F__v'', ''v''}
   \<and> point_in_time_join True [''id'', ''ts'', ''F__v''] ''ts'' [example_fv] example_db ''requests'' =
       point_in_time_join False [''id'', ''ts'', ''v''] ''ts'' [example_fv] example_db ''requests''
   \<and> point_in_time_join True [''id'', ''ts'', ''F__v''] ''ts'' [example_fv] example_db ''requests'' =
       [[IntV 1, IntV 38700, IntV 7], [IntV 1, IntV 32400, Null], [IntV 1, IntV 36900, IntV 5]]"
proof -
  have fc: "feature_columns example_fv = {''F__v'', ''v''}"
    by (auto simp: feature_columns_def feature_alias_def example_fv_def)
  have V: "\<forall>fv\<in>set [example_fv]. \<forall>a\<in>feature_columns fv.
       a \<notin> {''event_timestamp'', ''created_timestamp'', ''entity_timestamp''} \<union>
           set (entities fv) \<union> snd ` set (entity_selections fv)"
    by (simp add: fc) (simp add: example_fv_def)
  have U: "\<forall>fv\<in>set [example_fv]. \<forall>g\<in>set [example_fv]. uid_col fv \<notin> feature_columns g"
    by (simp add: fc example_fv_uid)
  have DT: "distinct (concat (map (\<lambda>fv. map (feature_alias True fv) (features fv)) [example_fv]))"
    by (simp add: example_fv_def)
  have DF: "distinct (concat (map (\<lambda>fv. map (feature_alias False fv) (features fv)) [example_fv]))"
    by (simp add: example_fv_def)
  have E: "\<forall>fv\<in>set [example_fv]. \<forall>a\<in>feature_columns fv. a \<notin> set [''id'', ''ts'']"
    by (simp add: fc)
  have t: "point_in_time_join True
           ([''id'', ''ts''] @ concat (map (\<lambda>fv. map (feature_alias True fv) (features fv)) [example_fv]))
           ''ts'' [example_fv] example_db ''requests'' =
         point_in_time_join False
           ([''id'', ''ts''] @ concat (map (\<lambda>fv. map (feature_alias False fv) (features fv)) [example_fv]))
           ''ts'' [example_fv] example_db ''requests''"
    by (rule full_feature_names_renames_only[OF V U DT DF E])
  have nT: "[''id'', ''ts''] @ concat (map (\<lambda>fv. map (feature_alias True fv) (features fv)) [example_fv]) =
            [''id'', ''ts'', ''F__v'']"
    by (simp add: feature_alias_def example_fv_def)
  have nF: "[''id'', ''ts''] @ concat (map (\<lambda>fv. map (feature_alias False fv) (features fv)) [example_fv]) =
            [''id'', ''ts'', ''v'']"
    by (simp add: feature_alias_def example_fv_def)
  from t have e: "point_in_time_join True [''id'', ''ts'', ''F__v''] ''ts'' [example_fv] example_db ''requests'' =
       point_in_time_join False [''id'', ''ts'', ''v''] ''ts'' [example_fv] example_db ''requests''"
    unfolding nT nF .
  have v: "point_in_time_join True [''id'', ''ts'', ''F__v''] ''ts'' [example_fv] example_db ''requests'' =
       [[IntV 1, IntV 38700, IntV 7], [IntV 1, IntV 32400, Null], [IntV 1, IntV 36900, IntV 5]]"
    unfolding e by (rule example_join_eval)
  from U have U': "uid_col example_fv \<notin> feature_columns example_fv" by simp
  show ?thesis by (intro conjI U' fc e v)
qed

end
